(* ===== verification/Prelude.thy ===== *)
theory Prelude
  imports Main "HOL-Library.Word" "HOL-Library.AList"
begin

text \<open>
  What the components of the development share: the machine integers of the Go
  source, Go strings and bytes, the error values of the program (one constructor
  per sentinel error and per way of wrapping an error), the number formatting of
  \<^verbatim>\<open>fmt\<close>, Go maps as association lists whose order is the
  iteration order of \<^verbatim>\<open>range\<close>, and the big-endian integer
  encoding of \<^verbatim>\<open>encoding/binary\<close>.
\<close>

unbundle bit_operations_syntax

named_theorems wire_defs \<open>definitions of the read and write operations\<close>
named_theorems wire_simps \<open>what a reader returns on the bytes a writer produced\<close>

section \<open>Machine integers, bytes and strings\<close>

type_synonym byte = "8 word"
type_synonym bytes = "8 word list"
type_synonym uint8 = "8 word"
type_synonym uint16 = "16 word"
type_synonym uint32 = "32 word"
type_synonym uint64 = "64 word"
type_synonym int32 = "32 word"
type_synonym int64 = "64 word"

text \<open>
  A Go string is a sequence of bytes; it is modelled by a HOL string, whose
  characters are bytes as well, and \<open>len(s)\<close> is its length.
\<close>

definition byte_of_char :: "char \<Rightarrow> byte" where
  "byte_of_char c = word_of_nat (of_char c)"

definition char_of_byte :: "byte \<Rightarrow> char" where
  "char_of_byte b = char_of (unat b)"

definition bytes_of_string :: "string \<Rightarrow> bytes" where
  "bytes_of_string s = map byte_of_char s"

definition string_of_bytes :: "bytes \<Rightarrow> string" where
  "string_of_bytes b = map char_of_byte b"

lemma char_of_byte_of_char [simp]: "char_of_byte (byte_of_char c) = c"
proof -
  have "unat (word_of_nat (of_char c) :: byte) = of_char c"
    by (simp add: unat_of_nat)
  then show ?thesis
    by (simp add: char_of_byte_def byte_of_char_def)
qed

lemma byte_of_char_of_byte [simp]: "byte_of_char (char_of_byte b) = b"
proof -
  have "unat b < 256"
    using unsigned_less [of b, where ?'a = nat] by simp
  then show ?thesis
    by (simp add: char_of_byte_def byte_of_char_def)
qed

lemma string_of_bytes_of_string [simp]: "string_of_bytes (bytes_of_string s) = s"
  by (simp add: string_of_bytes_def bytes_of_string_def comp_def)

lemma bytes_of_string_of_bytes [simp]: "bytes_of_string (string_of_bytes b) = b"
  by (simp add: string_of_bytes_def bytes_of_string_def comp_def)

lemma length_bytes_of_string [simp]: "length (bytes_of_string s) = length s"
  by (simp add: bytes_of_string_def)

lemma length_string_of_bytes [simp]: "length (string_of_bytes b) = length b"
  by (simp add: string_of_bytes_def)

lemma string_of_bytes_Nil [simp]: "string_of_bytes [] = []"
  by (simp add: string_of_bytes_def)

lemma bytes_of_string_Nil [simp]: "bytes_of_string [] = []"
  by (simp add: bytes_of_string_def)

section \<open>Errors\<close>

text \<open>
  One constructor per sentinel error of the program and of \<^verbatim>\<open>io\<close>,
  \<open>NetErr\<close> for an error of the connection itself, \<open>NewError\<close> for
  \<^verbatim>\<open>errors.New\<close> and \<^verbatim>\<open>fmt.Errorf\<close> without
  \<^verbatim>\<open>%w\<close>, \<open>Errorw p e\<close> for
  \<^verbatim>\<open>fmt.Errorf("p: %w", e)\<close>, and \<open>Wrapv e t\<close> for
  \<^verbatim>\<open>fmt.Errorf("%w: t", e)\<close>. \<open>Errorq p s\<close> is
  \<^verbatim>\<open>fmt.Errorf("p%q", s)\<close>; its text is given without the escapes of
  \<^verbatim>\<open>%q\<close>.
\<close>

datatype goerr =
    EOF
  | ErrUnexpectedEOF
  | NetErr string
  | ErrFrameTooLarge
  | ErrVPPFrameTooLarge
  | ErrBadVPPHandshake
  | ErrBadMVCPMagic
  | ErrUnsupportedMVCPVersion
  | errHandshakeDeadlineRequired
  | errMalformedHello
  | HandshakeError uint16 string
  | RejectError uint16 string
  | ResetError uint16 string
  | ErrSessionClosed
  | ErrStreamClosed
  | ErrStreamIDExhausted
  | NewError string
  | Errorw string goerr
  | Wrapv goerr string
  | Errorq string string

text \<open>\<^verbatim>\<open>errors.Is\<close>: the error itself or one it wraps.\<close>

fun errors_Is :: "goerr \<Rightarrow> goerr \<Rightarrow> bool" where
  "errors_Is (Errorw p e) t = (Errorw p e = t \<or> errors_Is e t)"
| "errors_Is (Wrapv e s) t = (Wrapv e s = t \<or> errors_Is e t)"
| "errors_Is e t = (e = t)"

text \<open>
  \<^verbatim>\<open>errors.As\<close> at type \<^verbatim>\<open>*RejectError\<close>: the first
  such error of the chain.
\<close>

fun errors_As_RejectError :: "goerr \<Rightarrow> (uint16 \<times> string) option" where
  "errors_As_RejectError (RejectError c m) = Some (c, m)"
| "errors_As_RejectError (Errorw p e) = errors_As_RejectError e"
| "errors_As_RejectError (Wrapv e s) = errors_As_RejectError e"
| "errors_As_RejectError _ = None"

section \<open>Number formatting\<close>

fun hex_digit :: "nat \<Rightarrow> char" where
  "hex_digit n = (if n < 10 then char_of (48 + n) else char_of (55 + n))"

text \<open>\<^verbatim>\<open>%02X\<close> of a byte and \<^verbatim>\<open>%04X\<close> of a 16-bit value.\<close>

definition fmt_02X :: "nat \<Rightarrow> string" where
  "fmt_02X n = [hex_digit (n div 16 mod 16), hex_digit (n mod 16)]"

definition fmt_04X :: "nat \<Rightarrow> string" where
  "fmt_04X n = [hex_digit (n div 4096 mod 16), hex_digit (n div 256 mod 16),
     hex_digit (n div 16 mod 16), hex_digit (n mod 16)]"

text \<open>\<^verbatim>\<open>%d\<close> of a non-negative number.\<close>

fun fmt_d :: "nat \<Rightarrow> string" where
  "fmt_d n = (if n < 10 then [char_of (48 + n)] else fmt_d (n div 10) @ [char_of (48 + n mod 10)])"

declare fmt_d.simps [simp del]

text \<open>The \<^verbatim>\<open>Error()\<close> text of an error.\<close>

fun Error :: "goerr \<Rightarrow> string" where
  "Error EOF = ''EOF''"
| "Error ErrUnexpectedEOF = ''unexpected EOF''"
| "Error (NetErr s) = s"
| "Error ErrFrameTooLarge = ''mvcp: frame exceeds maximum size''"
| "Error ErrVPPFrameTooLarge = ''vpp: frame exceeds maximum size of 64 KB''"
| "Error ErrBadVPPHandshake = ''vpp: bad handshake magic or version''"
| "Error ErrBadMVCPMagic = ''mvcp: bad handshake magic''"
| "Error ErrUnsupportedMVCPVersion = ''mvcp: unsupported wire version''"
| "Error errHandshakeDeadlineRequired =
     ''mvcp: handshake requires a connection with SetDeadline support''"
| "Error errMalformedHello = ''mvcp: malformed hello''"
| "Error (HandshakeError c m) =
     ''mvcp: handshake rejected: 0x'' @ fmt_04X (unat c) @ '' '' @ m"
| "Error (RejectError c m) = ''app: rejected 0x'' @ fmt_04X (unat c) @ '': '' @ m"
| "Error (ResetError c m) = ''app: reset 0x'' @ fmt_04X (unat c) @ '': '' @ m"
| "Error ErrSessionClosed = ''app: session closed''"
| "Error ErrStreamClosed = ''app: stream closed''"
| "Error ErrStreamIDExhausted = ''app: stream id space exhausted''"
| "Error (NewError s) = s"
| "Error (Errorw p e) = p @ '': '' @ Error e"
| "Error (Wrapv e s) = Error e @ '': '' @ s"
| "Error (Errorq p s) = p @ [CHR 0x22] @ s @ [CHR 0x22]"

section \<open>Go maps\<close>

text \<open>
  A Go map is an association list with distinct keys: \<open>map_of\<close> reads it,
  \<open>AList.update\<close> stores, \<open>AList.delete\<close> deletes, \<open>length\<close> is
  \<^verbatim>\<open>len\<close>, and the order of the list is the order in which
  \<^verbatim>\<open>range\<close> visits the entries, which Go leaves open: a statement about
  a loop over a map therefore holds for every order of the list.
\<close>

type_synonym ('k, 'v) gomap = "('k \<times> 'v) list"

definition wf_gomap :: "('k, 'v) gomap \<Rightarrow> bool" where
  "wf_gomap m \<longleftrightarrow> distinct (map fst m)"

lemma wf_gomap_Nil [simp]: "wf_gomap []"
  by (simp add: wf_gomap_def)

lemma wf_gomap_Cons [simp]: "wf_gomap ((k, v) # m) \<longleftrightarrow> k \<notin> fst ` set m \<and> wf_gomap m"
  by (simp add: wf_gomap_def)

lemma wf_gomap_update [simp]: "wf_gomap m \<Longrightarrow> wf_gomap (AList.update k v m)"
  by (simp add: wf_gomap_def distinct_update)

lemma wf_gomap_delete [simp]: "wf_gomap m \<Longrightarrow> wf_gomap (AList.delete k m)"
  by (simp add: wf_gomap_def distinct_delete)

lemma update_new: "k \<notin> fst ` set m \<Longrightarrow> AList.update k v m = m @ [(k, v)]"
  by (induction m) auto

lemma map_of_gomap_in: "wf_gomap m \<Longrightarrow> (k, v) \<in> set m \<longleftrightarrow> map_of m k = Some v"
  by (simp add: wf_gomap_def)

section \<open>Big-endian integers\<close>

text \<open>
  \<open>be_bytes n k\<close> is the \<open>n\<close>-byte big-endian form of \<open>k\<close>
  (\<^verbatim>\<open>binary.BigEndian.PutUint16/32/64\<close>), \<open>be_val\<close> reads it back
  (\<^verbatim>\<open>Uint16/32/64\<close>).
\<close>

primrec be_bytes :: "nat \<Rightarrow> nat \<Rightarrow> bytes" where
  "be_bytes 0 k = []"
| "be_bytes (Suc n) k = be_bytes n (k div 256) @ [word_of_nat k]"

lemma be_bytes_numeral:
  "be_bytes (numeral n) k = be_bytes (pred_numeral n) (k div 256) @ [word_of_nat k]"
  by (simp only: numeral_eq_Suc [of n] be_bytes.simps)

definition be_val :: "bytes \<Rightarrow> nat" where
  "be_val bs = foldl (\<lambda>a b. 256 * a + unat b) 0 bs"

lemma be_val_Nil [simp]: "be_val [] = 0"
  by (simp add: be_val_def)

lemma be_val_snoc [simp]: "be_val (bs @ [b]) = 256 * be_val bs + unat b"
  by (simp add: be_val_def)

lemma length_be_bytes [simp]: "length (be_bytes n k) = n"
  by (induction n arbitrary: k) simp_all

lemma byte_less_256: "unat (b :: byte) < 256"
  using unsigned_less [of b, where ?'a = nat] by simp

lemma be_val_bytes [simp]: "be_val (be_bytes n k) = k mod 256 ^ n"
proof (induction n arbitrary: k)
  case 0
  then show ?case by simp
next
  case (Suc n)
  have "be_val (be_bytes (Suc n) k) = 256 * (k div 256 mod 256 ^ n) + k mod 256"
    by (simp add: Suc.IH unat_of_nat)
  also have "\<dots> = k mod (256 * 256 ^ n)"
    by (simp add: mod_mult2_eq)
  finally show ?case by simp
qed

lemma byte_256_mult: "256 * (b :: byte) = 0"
proof -
  have "(256 :: byte) = 0" by simp
  then show ?thesis by (metis mult_zero_left)
qed

lemma be_bytes_val [simp]: "length bs = n \<Longrightarrow> be_bytes n (be_val bs) = bs"
proof (induction n arbitrary: bs)
  case 0
  then show ?case by simp
next
  case (Suc n)
  then obtain cs b where bs: "bs = cs @ [b]" and "length cs = n"
    by (metis append_butlast_last_id length_append_singleton length_greater_0_conv
        nat.inject zero_less_Suc)
  moreover have "(256 * be_val cs + unat b) div 256 = be_val cs"
    using byte_less_256 [of b] by simp
  moreover have "(word_of_nat (256 * be_val cs + unat b) :: byte) = b"
    by (simp add: byte_256_mult)
  ultimately show ?case
    using Suc.IH [of cs] by simp
qed

lemma be_val_less: "be_val bs < 256 ^ length bs"
  by (metis be_bytes_val be_val_bytes mod_less_divisor zero_less_numeral zero_less_power)

end
