(* ===== verification/Go_IO.thy ===== *)
theory Go_IO
  imports Prelude
begin

text \<open>
  The parts of \<^verbatim>\<open>io\<close> and \<^verbatim>\<open>bytes\<close> the program uses.
  A reader is the bytes it will still deliver and the error it ends with
  (\<open>EOF\<close> for a \<^verbatim>\<open>bytes.Reader\<close>, a timeout or a connection
  error for a connection). A writer is the log of the completed
  \<^verbatim>\<open>Write\<close> calls, one entry per call, and the outcomes of the calls
  to come (none left: they succeed); a \<^verbatim>\<open>bytes.Buffer\<close> never fails. A write either
  takes all its bytes or fails and takes none.
  A decoder returns the value and the advanced reader, or the error; nothing in
  the program reads on after an error. The locales \<open>codec\<close> and
  \<open>exact_codec\<close> are the contract between an encoder and its decoder.
\<close>

section \<open>Readers\<close>

datatype reader = Reader (rd_data: bytes) (rd_end: goerr)

type_synonym 'a parser = "reader \<Rightarrow> goerr + ('a \<times> reader)"

definition bytes_NewReader :: "bytes \<Rightarrow> reader" where
  "bytes_NewReader b = Reader b EOF"

definition rd_Len :: "reader \<Rightarrow> nat" where
  "rd_Len r = length (rd_data r)"

definition io_ReadFull :: "nat \<Rightarrow> bytes parser" where
  "io_ReadFull n r =
     (if n \<le> length (rd_data r)
      then Inr (take n (rd_data r), Reader (drop n (rd_data r)) (rd_end r))
      else if rd_end r = EOF \<and> rd_data r \<noteq> [] then Inl ErrUnexpectedEOF
      else Inl (rd_end r))"

definition io_ReadAll :: "bytes parser" where
  "io_ReadAll r =
     (if rd_end r = EOF then Inr (rd_data r, Reader [] EOF) else Inl (rd_end r))"

text \<open>
  Sequencing: \<open>ret\<close> returns, \<open>raise\<close> is an early return with an error,
  \<open>rbind\<close> is \<^verbatim>\<open>x, err := p(r); if err != nil { return err }\<close>, and
  \<open>errw\<close> is the same with \<^verbatim>\<open>return fmt.Errorf("s: %w", err)\<close>.
  \<open>rtimes\<close> is a counted loop that collects what its body reads.
\<close>

definition ret :: "'a \<Rightarrow> 'a parser" where
  "ret x r = Inr (x, r)"

definition raise :: "goerr \<Rightarrow> 'a parser" where
  "raise e r = Inl e"

definition rbind :: "'a parser \<Rightarrow> ('a \<Rightarrow> 'b parser) \<Rightarrow> 'b parser" where
  "rbind p f r = (case p r of Inl e \<Rightarrow> Inl e | Inr (x, r') \<Rightarrow> f x r')"

definition errw :: "string \<Rightarrow> 'a parser \<Rightarrow> 'a parser" where
  "errw s p r = (case p r of Inl e \<Rightarrow> Inl (Errorw s e) | Inr y \<Rightarrow> Inr y)"

primrec rtimes :: "nat \<Rightarrow> 'a parser \<Rightarrow> 'a list parser" where
  "rtimes 0 p = ret []"
| "rtimes (Suc n) p = rbind p (\<lambda>x. rbind (rtimes n p) (\<lambda>xs. ret (x # xs)))"

text \<open>The result of decoding a whole body, without the reader.\<close>

definition run_body :: "'a parser \<Rightarrow> bytes \<Rightarrow> goerr + 'a" where
  "run_body p data = (case p (bytes_NewReader data) of Inl e \<Rightarrow> Inl e | Inr (x, r) \<Rightarrow> Inr x)"

lemma ret_simp [simp]: "ret x r = Inr (x, r)"
  by (simp add: ret_def)

lemma raise_simp [simp]: "raise e r = Inl e"
  by (simp add: raise_def)

lemma rbind_Inl: "p r = Inl e \<Longrightarrow> rbind p f r = Inl e"
  by (simp add: rbind_def)

lemma rbind_Inr: "p r = Inr (x, r') \<Longrightarrow> rbind p f r = f x r'"
  by (simp add: rbind_def)

lemma errw_Inl: "p r = Inl e \<Longrightarrow> errw s p r = Inl (Errorw s e)"
  by (simp add: errw_def)

lemma errw_Inr: "p r = Inr y \<Longrightarrow> errw s p r = Inr y"
  by (simp add: errw_def)

lemma rbind_eq_Inr:
  "rbind p f r = Inr (y, r2) \<longleftrightarrow> (\<exists>x r1. p r = Inr (x, r1) \<and> f x r1 = Inr (y, r2))"
  by (auto simp: rbind_def split: sum.splits)

lemma errw_eq_Inr [simp]: "errw s p r = Inr y \<longleftrightarrow> p r = Inr y"
  by (simp add: errw_def split: sum.splits)

lemma run_body_eq_Inr:
  "run_body p data = Inr x \<longleftrightarrow> (\<exists>r. p (Reader data EOF) = Inr (x, r))"
  by (auto simp: run_body_def bytes_NewReader_def split: sum.splits)

lemma run_body_Inr: "p (Reader data EOF) = Inr (x, r) \<Longrightarrow> run_body p data = Inr x"
  by (auto simp: run_body_eq_Inr)

lemma run_body_Inl: "p (Reader data EOF) = Inl e \<Longrightarrow> run_body p data = Inl e"
  by (simp add: run_body_def bytes_NewReader_def)

lemma run_body_ret [simp]: "run_body (ret x) b = Inr x"
  by (simp add: run_body_def)

lemma io_ReadFull_append [wire_simps]:
  "length b = n \<Longrightarrow> io_ReadFull n (Reader (b @ rest) e) = Inr (b, Reader rest e)"
  by (simp add: io_ReadFull_def)

lemma io_ReadFull_eq_Inr:
  "io_ReadFull n r = Inr (b, r') \<longleftrightarrow>
     length b = n \<and> rd_data r = b @ rd_data r' \<and> rd_end r' = rd_end r"
proof
  assume "io_ReadFull n r = Inr (b, r')"
  then show "length b = n \<and> rd_data r = b @ rd_data r' \<and> rd_end r' = rd_end r"
    by (auto simp: io_ReadFull_def split: if_splits)
next
  assume "length b = n \<and> rd_data r = b @ rd_data r' \<and> rd_end r' = rd_end r"
  then show "io_ReadFull n r = Inr (b, r')"
    by (cases r') (auto simp: io_ReadFull_def)
qed

lemma io_ReadFull_Inl: "io_ReadFull n r = Inl e \<Longrightarrow> length (rd_data r) < n"
  by (auto simp: io_ReadFull_def split: if_splits)

lemma io_ReadFull_short:
  "length d < n \<Longrightarrow>
     io_ReadFull n (Reader d EOF) = Inl (if d = [] then EOF else ErrUnexpectedEOF)"
  by (simp add: io_ReadFull_def)

text \<open>\<open>fails_only P p\<close>: every error the decoder returns satisfies \<open>P\<close>.\<close>

definition fails_only :: "(goerr \<Rightarrow> bool) \<Rightarrow> 'a parser \<Rightarrow> bool" where
  "fails_only P p \<longleftrightarrow> (\<forall>r e. p r = Inl e \<longrightarrow> P e)"

named_theorems fails_intros \<open>rules for the errors of a decoder\<close>

lemma fails_ret [fails_intros]: "fails_only P (ret x)"
  by (simp add: fails_only_def)

lemma fails_Inr [fails_intros]: "fails_only P (\<lambda>r. Inr (x, r))"
  by (simp add: fails_only_def)

lemma fails_raise [fails_intros]: "P e \<Longrightarrow> fails_only P (raise e)"
  by (simp add: fails_only_def)

lemma fails_rbind [fails_intros]:
  "fails_only P p \<Longrightarrow> (\<And>x. fails_only P (f x)) \<Longrightarrow> fails_only P (rbind p f)"
  by (force simp: fails_only_def rbind_def split: sum.splits)

lemma fails_if [fails_intros]:
  "(b \<Longrightarrow> fails_only P p) \<Longrightarrow> (\<not> b \<Longrightarrow> fails_only P q) \<Longrightarrow> fails_only P (if b then p else q)"
  by simp

lemma fails_onlyD: "fails_only P p \<Longrightarrow> p r = Inl e \<Longrightarrow> P e"
  by (simp add: fails_only_def)

lemma run_body_fails: "fails_only P p \<Longrightarrow> run_body p data = Inl e \<Longrightarrow> P e"
  by (auto simp: run_body_def split: sum.splits dest: fails_onlyD)

section \<open>Writers\<close>

datatype writer = Writer (wr_log: "bytes list") (wr_errs: "goerr option list")

type_synonym wop = "writer \<Rightarrow> goerr option \<times> writer"

definition io_Write :: "bytes \<Rightarrow> wop" where
  "io_Write b w =
     (case wr_errs w of
        [] \<Rightarrow> (None, Writer (wr_log w @ [b]) [])
      | None # es \<Rightarrow> (None, Writer (wr_log w @ [b]) es)
      | Some e # es \<Rightarrow> (Some e, Writer (wr_log w) es))"

text \<open>The bytes on the wire: what the completed writes carried.\<close>

definition wr_bytes :: "writer \<Rightarrow> bytes" where
  "wr_bytes w = concat (wr_log w)"

definition new_Buffer :: writer where
  "new_Buffer = Writer [] []"

text \<open>
  Writers that share a connection. One \<^verbatim>\<open>Write\<close> call is not interrupted by
  another one; between two calls any other writer may make calls of its own. So the log of the connection is an
  interleaving of the sequences of calls that the writers make: \<open>interleaving xss zs\<close> says that \<open>zs\<close>
  takes, one after the other, the next element of some list of \<open>xss\<close>, until all are empty.
\<close>

fun interleaving :: "'a list list \<Rightarrow> 'a list \<Rightarrow> bool" where
  "interleaving xss [] = list_all (\<lambda>xs. xs = []) xss"
| "interleaving xss (z # zs) =
     list_ex (\<lambda>i. case xss ! i of [] \<Rightarrow> False | x # xs \<Rightarrow> x = z \<and> interleaving (xss[i := xs]) zs) [0..<length xss]"

lemma interleaving_Cons:
  "interleaving xss (z # zs) \<longleftrightarrow> (\<exists>i < length xss. \<exists>xs. xss ! i = z # xs \<and> interleaving (xss[i := xs]) zs)"
proof -
  have "(case us of [] \<Rightarrow> False | x # xs \<Rightarrow> x = z \<and> Q xs) \<longleftrightarrow> (\<exists>xs. us = z # xs \<and> Q xs)" for us Q
    by (cases us) auto
  then show ?thesis
    by (auto simp: list_ex_iff)
qed

lemma interleaving_set: "interleaving xss zs \<Longrightarrow> set zs \<subseteq> set (concat xss)"
proof (induction zs arbitrary: xss)
  case (Cons z zs)
  then obtain i xs where i: "i < length xss" "xss ! i = z # xs" "interleaving (xss[i := xs]) zs"
    unfolding interleaving_Cons by blast
  have "z # xs \<in> set xss"
    using nth_mem [OF i(1)] by (simp only: i(2))
  then have sub: "set (z # xs) \<subseteq> set (concat xss)"
    unfolding set_concat by blast
  have "set (concat (xss[i := xs])) \<subseteq> set xs \<union> set (concat xss)"
    unfolding set_concat using set_update_subset_insert [of xss i xs] by blast
  with Cons.IH [OF i(3)] have "set zs \<subseteq> set xs \<union> set (concat xss)"
    by (rule subset_trans)
  with sub show ?case
    unfolding list.set by blast
qed simp

text \<open>What \<open>f\<close> makes of lists one by one is interleaved as the lists are.\<close>

lemma interleaving_map:
  "interleaving (map (map f) xss) zs \<Longrightarrow> \<exists>ys. interleaving xss ys \<and> zs = map f ys"
proof (induction zs arbitrary: xss)
  case Nil
  then show ?case by (intro exI [of _ "[]"]) (simp add: list_all_iff)
next
  case (Cons z zs)
  then obtain i xs where i: "i < length xss" "map f (xss ! i) = z # xs" "interleaving ((map (map f) xss)[i := xs]) zs"
    unfolding interleaving_Cons by auto
  then obtain y us where y: "xss ! i = y # us" "z = f y" "xs = map f us"
    by auto
  have "interleaving (map (map f) (xss[i := us])) zs"
    using i(3) by (simp only: y(3) map_update)
  then obtain ys where "interleaving (xss[i := us]) ys" "zs = map f ys"
    using Cons.IH by blast
  then show ?case
    using i(1) y by (intro exI [of _ "y # ys"] conjI) (auto simp: interleaving_Cons simp del: interleaving.simps)
qed

text \<open>
  \<open>wthen f g\<close> is \<^verbatim>\<open>if err := f(w); err != nil { return err }; g(w)\<close>,
  \<open>wseq f g\<close> ignores the error of \<open>f\<close>, and \<open>wdone\<close> is
  \<^verbatim>\<open>return nil\<close>. \<open>Marshal\<close> runs a checked sequence on a fresh
  buffer, \<open>Marshal_unchecked\<close> one whose errors the source ignores.
\<close>

definition wdone :: wop where
  "wdone w = (None, w)"

definition wthen :: "wop \<Rightarrow> wop \<Rightarrow> wop" where
  "wthen f g w = (case f w of (Some e, w') \<Rightarrow> (Some e, w') | (None, w') \<Rightarrow> g w')"

definition wseq :: "wop \<Rightarrow> wop \<Rightarrow> wop" where
  "wseq f g w = g (snd (f w))"

definition werrw :: "string \<Rightarrow> wop \<Rightarrow> wop" where
  "werrw s f w = (case f w of (Some e, w') \<Rightarrow> (Some (Errorw s e), w') | (None, w') \<Rightarrow> (None, w'))"

definition Marshal :: "wop \<Rightarrow> goerr + bytes" where
  "Marshal f = (case f new_Buffer of (Some e, w) \<Rightarrow> Inl e | (None, w) \<Rightarrow> Inr (wr_bytes w))"

definition Marshal_unchecked :: "wop \<Rightarrow> goerr + bytes" where
  "Marshal_unchecked f = Inr (wr_bytes (snd (f new_Buffer)))"

text \<open>
  \<open>emits f bs\<close>: on a writer that does not fail, \<open>f\<close> succeeds and appends
  exactly \<open>bs\<close>.
\<close>

definition emits :: "wop \<Rightarrow> bytes \<Rightarrow> bool" where
  "emits f bs \<longleftrightarrow> (\<forall>w. wr_errs w = [] \<longrightarrow>
     fst (f w) = None \<and> wr_errs (snd (f w)) = [] \<and> wr_bytes (snd (f w)) = wr_bytes w @ bs)"

named_theorems emits_intros \<open>what the write operations append to a buffer\<close>

lemma emits_Write [emits_intros]: "emits (io_Write b) b"
  by (simp add: emits_def io_Write_def wr_bytes_def)

lemma emits_done [emits_intros]: "emits wdone []"
  by (simp add: emits_def wdone_def)

lemma wthen_alt: "wthen f g w = (if fst (f w) = None then g (snd (f w)) else f w)"
  by (auto simp: wthen_def split: prod.splits option.splits)

lemma emits_then [emits_intros]: "emits f a \<Longrightarrow> emits g b \<Longrightarrow> emits (wthen f g) (a @ b)"
  by (simp add: emits_def wthen_alt)

lemma emits_seq [emits_intros]: "emits f a \<Longrightarrow> emits g b \<Longrightarrow> emits (wseq f g) (a @ b)"
  by (simp add: emits_def wseq_def)

lemma emits_errw [emits_intros]: "emits f a \<Longrightarrow> emits (werrw s f) a"
  by (simp add: emits_def werrw_def split: prod.split option.split) (metis fst_conv option.distinct(1) snd_conv)

lemma Marshal_emits: "emits f bs \<Longrightarrow> Marshal f = Inr bs"
  by (auto simp: emits_def Marshal_def new_Buffer_def wr_bytes_def split: prod.split option.split
      dest!: spec [where x = "Writer [] []"])

lemma Marshal_unchecked_emits: "emits f bs \<Longrightarrow> Marshal_unchecked f = Inr bs"
  by (simp add: emits_def Marshal_unchecked_def new_Buffer_def wr_bytes_def)

lemma emits_cong: "emits f a \<Longrightarrow> a = b \<Longrightarrow> emits f b"
  by simp

section \<open>The contract of an encoder and its decoder\<close>

locale codec =
  fixes enc :: "'a \<Rightarrow> bytes"
    and dec :: "'a parser"
    and wf :: "'a \<Rightarrow> bool"
  assumes dec_enc: "wf x \<Longrightarrow> dec (Reader (enc x @ rest) e) = Inr (x, Reader rest e)"
begin

lemma dec_enc_end: "wf x \<Longrightarrow> dec (Reader (enc x) e) = Inr (x, Reader [] e)"
  using dec_enc [of x "[]"] by simp

lemma enc_prefix_free:
  assumes "wf x" and "wf y" and "enc x @ a = enc y @ b"
  shows "x = y \<and> a = b"
proof -
  have "dec (Reader (enc x @ a) EOF) = dec (Reader (enc y @ b) EOF)"
    using assms(3) by simp
  then show ?thesis
    using dec_enc [OF assms(1), of a EOF] dec_enc [OF assms(2), of b EOF] by simp
qed

lemma rtimes_enc:
  "list_all wf xs \<Longrightarrow>
     rtimes (length xs) dec (Reader (concat (map enc xs) @ rest) e) = Inr (xs, Reader rest e)"
  by (induction xs) (simp_all add: rbind_def dec_enc)

lemma run_body_enc: "wf x \<Longrightarrow> run_body dec (enc x) = Inr x"
  by (rule run_body_Inr) (rule dec_enc_end)

end

text \<open>An exact codec accepts nothing but the encodings.\<close>

locale exact_codec = codec +
  assumes dec_exact:
    "dec r = Inr (x, r') \<Longrightarrow> rd_data r = enc x @ rd_data r' \<and> rd_end r' = rd_end r \<and> wf x"
begin

lemma dec_iff:
  "dec r = Inr (x, r') \<longleftrightarrow> rd_data r = enc x @ rd_data r' \<and> rd_end r' = rd_end r \<and> wf x"
proof
  assume "rd_data r = enc x @ rd_data r' \<and> rd_end r' = rd_end r \<and> wf x"
  then show "dec r = Inr (x, r')"
    using dec_enc [of x "rd_data r'" "rd_end r'"] by (cases r; cases r') simp
qed (rule dec_exact)

lemma dec_truncated:
  assumes "wf x" and "k < length (enc x)"
  shows "\<exists>err. dec (Reader (take k (enc x)) e) = Inl err"
proof (rule ccontr)
  assume "\<not> ?thesis"
  then obtain y r' where "dec (Reader (take k (enc x)) e) = Inr (y, r')"
    by (metis obj_sumE surj_pair)
  then have y: "take k (enc x) = enc y @ rd_data r'" "wf y"
    using dec_exact by fastforce+
  then have "enc y @ (rd_data r' @ drop k (enc x)) = enc x @ []"
    by (metis append.assoc append_Nil2 append_take_drop_id)
  then have "x = y" and "drop k (enc x) = []"
    using enc_prefix_free [OF y(2) assms(1)] by blast+
  then show False
    using assms(2) by simp
qed

lemma rtimes_exact:
  "rtimes n dec r = Inr (xs, r') \<Longrightarrow>
     length xs = n \<and> list_all wf xs \<and> rd_data r = concat (map enc xs) @ rd_data r' \<and> rd_end r' = rd_end r"
proof (induction n arbitrary: r xs)
  case 0
  then show ?case by simp
next
  case (Suc n)
  then show ?case
    by (fastforce simp: rbind_eq_Inr dest: dec_exact)
qed

end

end
