(* ===== verification/Wire.thy ===== *)
theory Wire
  imports Go_IO
begin

text \<open>
  The wire primitives: \<^verbatim>\<open>protocol/encode.go\<close> (the \<open>Write\<dots>\<close>
  operations on a writer) and \<^verbatim>\<open>protocol/decode.go\<close> (the
  \<open>Read\<dots>\<close> operations on a reader). The \<open>enc_\<dots>\<close> functions are the
  layout of the wire format document; the interpretations at the end show that
  every primitive writes this layout and that its reader is the inverse.
\<close>

section \<open>encode.go\<close>

definition WriteUint8 :: "uint8 \<Rightarrow> wop" where
  "WriteUint8 v = io_Write [v]"

definition WriteUint16 :: "uint16 \<Rightarrow> wop" where
  "WriteUint16 v = io_Write (be_bytes 2 (unat v))"

definition WriteUint32 :: "uint32 \<Rightarrow> wop" where
  "WriteUint32 v = io_Write (be_bytes 4 (unat v))"

definition WriteUint64 :: "uint64 \<Rightarrow> wop" where
  "WriteUint64 v = io_Write (be_bytes 8 (unat v))"

text \<open>
  A signed integer is its two's complement word, so the conversions
  \<^verbatim>\<open>uint32(v)\<close> and \<^verbatim>\<open>uint64(v)\<close> keep the word.
\<close>

definition WriteInt32 :: "int32 \<Rightarrow> wop" where
  "WriteInt32 v = WriteUint32 v"

definition WriteInt64 :: "int64 \<Rightarrow> wop" where
  "WriteInt64 v = WriteUint64 v"

definition WriteBool :: "bool \<Rightarrow> wop" where
  "WriteBool v = (if v then WriteUint8 1 else WriteUint8 0)"

text \<open>
  The length prefix is \<^verbatim>\<open>uint16(len(s))\<close>, which keeps the low 16 bits,
  and the whole string follows whatever its length.
\<close>

definition WriteString :: "string \<Rightarrow> wop" where
  "WriteString s = wthen (WriteUint16 (word_of_nat (length s))) (io_Write (bytes_of_string s))"

definition WriteBytes :: "bytes \<Rightarrow> wop" where
  "WriteBytes b = wthen (WriteUint32 (word_of_nat (length b))) (io_Write b)"

primrec WriteStrings :: "string list \<Rightarrow> wop" where
  "WriteStrings [] = wdone"
| "WriteStrings (v # s) = wthen (WriteString v) (WriteStrings s)"

definition WriteStringSlice :: "string list \<Rightarrow> wop" where
  "WriteStringSlice s = wthen (WriteUint16 (word_of_nat (length s))) (WriteStrings s)"

fun WriteEntries :: "(string, string) gomap \<Rightarrow> wop" where
  "WriteEntries [] = wdone"
| "WriteEntries ((k, v) # m) =
     wthen (WriteString k) (wthen (WriteString v) (WriteEntries m))"

definition WriteStringMap :: "(string, string) gomap \<Rightarrow> wop" where
  "WriteStringMap m = wthen (WriteUint16 (word_of_nat (length m))) (WriteEntries m)"

section \<open>decode.go\<close>

definition ReadUint8 :: "uint8 parser" where
  "ReadUint8 = rbind (io_ReadFull 1) (\<lambda>buf. ret (buf ! 0))"

definition ReadUint16 :: "uint16 parser" where
  "ReadUint16 = rbind (io_ReadFull 2) (\<lambda>buf. ret (word_of_nat (be_val buf)))"

definition ReadUint32 :: "uint32 parser" where
  "ReadUint32 = rbind (io_ReadFull 4) (\<lambda>buf. ret (word_of_nat (be_val buf)))"

definition ReadUint64 :: "uint64 parser" where
  "ReadUint64 = rbind (io_ReadFull 8) (\<lambda>buf. ret (word_of_nat (be_val buf)))"

definition ReadInt32 :: "int32 parser" where
  "ReadInt32 = ReadUint32"

definition ReadInt64 :: "int64 parser" where
  "ReadInt64 = ReadUint64"

definition ReadBool :: "bool parser" where
  "ReadBool = rbind ReadUint8 (\<lambda>v. ret (v \<noteq> 0))"

definition ReadString :: "string parser" where
  "ReadString = rbind ReadUint16 (\<lambda>n.
     if n = 0 then ret []
     else rbind (io_ReadFull (unat n)) (\<lambda>buf. ret (string_of_bytes buf)))"

definition ReadBytes :: "bytes parser" where
  "ReadBytes = rbind ReadUint32 (\<lambda>n. if n = 0 then ret [] else io_ReadFull (unat n))"

definition ReadStringSlice :: "string list parser" where
  "ReadStringSlice = rbind ReadUint16 (\<lambda>count.
     if count = 0 then ret [] else rtimes (unat count) ReadString)"

text \<open>The loop of \<open>ReadStringMap\<close>: \<^verbatim>\<open>m[k] = v\<close> for every pair read.\<close>

fun ReadEntries :: "nat \<Rightarrow> (string, string) gomap \<Rightarrow> (string, string) gomap parser" where
  "ReadEntries 0 m = ret m"
| "ReadEntries (Suc n) m =
     rbind ReadString (\<lambda>k. rbind ReadString (\<lambda>v. ReadEntries n (AList.update k v m)))"

definition ReadStringMap :: "(string, string) gomap parser" where
  "ReadStringMap = rbind ReadUint16 (\<lambda>count.
     if count = 0 then ret [] else ReadEntries (unat count) [])"

section \<open>The layout of the wire format\<close>

definition enc_u8 :: "uint8 \<Rightarrow> bytes" where
  "enc_u8 v = [v]"

definition enc_u16 :: "uint16 \<Rightarrow> bytes" where
  "enc_u16 v = be_bytes 2 (unat v)"

definition enc_u32 :: "uint32 \<Rightarrow> bytes" where
  "enc_u32 v = be_bytes 4 (unat v)"

definition enc_u64 :: "uint64 \<Rightarrow> bytes" where
  "enc_u64 v = be_bytes 8 (unat v)"

definition enc_bool :: "bool \<Rightarrow> bytes" where
  "enc_bool v = [if v then 1 else 0]"

definition enc_string :: "string \<Rightarrow> bytes" where
  "enc_string s = enc_u16 (word_of_nat (length s)) @ bytes_of_string s"

definition enc_bytes :: "bytes \<Rightarrow> bytes" where
  "enc_bytes b = enc_u32 (word_of_nat (length b)) @ b"

definition enc_strings :: "string list \<Rightarrow> bytes" where
  "enc_strings s = enc_u16 (word_of_nat (length s)) @ concat (map enc_string s)"

definition enc_entry :: "string \<times> string \<Rightarrow> bytes" where
  "enc_entry p = enc_string (fst p) @ enc_string (snd p)"

definition enc_map :: "(string, string) gomap \<Rightarrow> bytes" where
  "enc_map m = enc_u16 (word_of_nat (length m)) @ concat (map enc_entry m)"

text \<open>The values whose length fits its prefix.\<close>

definition fits16 :: "'a list \<Rightarrow> bool" where
  "fits16 s \<longleftrightarrow> length s < 65536"

definition fits32 :: "'a list \<Rightarrow> bool" where
  "fits32 b \<longleftrightarrow> length b < 4294967296"

definition wf_strings :: "string list \<Rightarrow> bool" where
  "wf_strings s \<longleftrightarrow> fits16 s \<and> list_all fits16 s"

definition wf_map :: "(string, string) gomap \<Rightarrow> bool" where
  "wf_map m \<longleftrightarrow> fits16 m \<and> wf_gomap m \<and> (\<forall>(k, v) \<in> set m. fits16 k \<and> fits16 v)"

lemma length_enc [simp]:
  "length (enc_u8 a) = 1" "length (enc_u16 b) = 2" "length (enc_u32 c) = 4"
  "length (enc_u64 d) = 8" "length (enc_bool v) = 1"
  "length (enc_string s) = 2 + length s" "length (enc_bytes x) = 4 + length x"
  by (simp_all add: enc_u8_def enc_u16_def enc_u32_def enc_u64_def enc_bool_def
      enc_string_def enc_bytes_def)

lemma enc_nonempty:
  "enc_u8 a \<noteq> []" "enc_u16 b \<noteq> []" "enc_u32 c \<noteq> []" "enc_u64 d \<noteq> []"
  by (simp_all add: enc_u8_def enc_u16_def enc_u32_def enc_u64_def be_bytes_numeral)

lemma unat_len16 [simp]: "fits16 s \<Longrightarrow> unat (word_of_nat (length s) :: uint16) = length s"
  by (simp add: fits16_def unat_of_nat)

lemma unat_len32 [simp]: "fits32 s \<Longrightarrow> unat (word_of_nat (length s) :: uint32) = length s"
  by (simp add: fits32_def unat_of_nat)

lemma len16_zero: "fits16 s \<Longrightarrow> (word_of_nat (length s) :: uint16) = 0 \<longleftrightarrow> s = []"
  using unat_len16 [of s] by (auto simp: unat_eq_zero [symmetric] simp del: unat_eq_zero)

lemma len32_zero: "fits32 s \<Longrightarrow> (word_of_nat (length s) :: uint32) = 0 \<longleftrightarrow> s = []"
  using unat_len32 [of s] by (auto simp: unat_eq_zero [symmetric] simp del: unat_eq_zero)

section \<open>What the write operations append\<close>

lemma emits_u8 [emits_intros]: "emits (WriteUint8 v) (enc_u8 v)"
  by (simp add: WriteUint8_def enc_u8_def emits_Write)

lemma emits_u16 [emits_intros]: "emits (WriteUint16 v) (enc_u16 v)"
  by (simp add: WriteUint16_def enc_u16_def emits_Write)

lemma emits_u32 [emits_intros]: "emits (WriteUint32 v) (enc_u32 v)"
  by (simp add: WriteUint32_def enc_u32_def emits_Write)

lemma emits_u64 [emits_intros]: "emits (WriteUint64 v) (enc_u64 v)"
  by (simp add: WriteUint64_def enc_u64_def emits_Write)

lemma emits_i32 [emits_intros]: "emits (WriteInt32 v) (enc_u32 v)"
  by (simp add: WriteInt32_def emits_u32)

lemma emits_i64 [emits_intros]: "emits (WriteInt64 v) (enc_u64 v)"
  by (simp add: WriteInt64_def emits_u64)

lemma emits_bool [emits_intros]: "emits (WriteBool v) (enc_bool v)"
  using emits_u8 [of 1] emits_u8 [of 0] by (simp add: WriteBool_def enc_bool_def enc_u8_def)

lemma emits_string [emits_intros]: "emits (WriteString s) (enc_string s)"
  unfolding WriteString_def enc_string_def by (intro emits_intros)

lemma emits_bytes [emits_intros]: "emits (WriteBytes b) (enc_bytes b)"
  unfolding WriteBytes_def enc_bytes_def by (intro emits_intros)

lemma emits_WriteStrings: "emits (WriteStrings s) (concat (map enc_string s))"
  by (induction s) (auto intro: emits_intros)

lemma emits_strings [emits_intros]: "emits (WriteStringSlice s) (enc_strings s)"
  unfolding WriteStringSlice_def enc_strings_def by (intro emits_intros emits_WriteStrings)

lemma emits_WriteEntries: "emits (WriteEntries m) (concat (map enc_entry m))"
  by (induction m rule: WriteEntries.induct) (auto simp: enc_entry_def intro: emits_intros)

lemma emits_map [emits_intros]: "emits (WriteStringMap m) (enc_map m)"
  unfolding WriteStringMap_def enc_map_def by (intro emits_intros emits_WriteEntries)

section \<open>Every reader inverts its writer\<close>

interpretation u8c: exact_codec enc_u8 ReadUint8 "\<lambda>_. True"
  by unfold_locales
    (auto simp: ReadUint8_def rbind_eq_Inr io_ReadFull_eq_Inr enc_u8_def length_Suc_conv)

lemma word_be_val:
  "length bs = n \<Longrightarrow> LENGTH('a::len) = 8 * n \<Longrightarrow> unat (word_of_nat (be_val bs) :: 'a word) = be_val bs"
  using be_val_less [of bs] by (simp add: unat_of_nat power_mult)

lemma be_codec:
  assumes "LENGTH('a::len) = 8 * n"
  shows "exact_codec (\<lambda>v :: 'a word. be_bytes n (unat v))
     (rbind (io_ReadFull n) (\<lambda>buf. ret (word_of_nat (be_val buf)))) (\<lambda>_. True)"
proof unfold_locales
  fix x :: "'a word" and rest e
  have "unat x < 256 ^ n"
    using unsigned_less [of x, where ?'a = nat] assms by (simp add: power_mult)
  then show "rbind (io_ReadFull n) (\<lambda>buf. ret (word_of_nat (be_val buf)))
      (Reader (be_bytes n (unat x) @ rest) e) = Inr (x, Reader rest e)"
    by (simp add: rbind_def io_ReadFull_append)
next
  fix r r' and x :: "'a word"
  assume "rbind (io_ReadFull n) (\<lambda>buf. ret (word_of_nat (be_val buf))) r = Inr (x, r')"
  then show "rd_data r = be_bytes n (unat x) @ rd_data r' \<and> rd_end r' = rd_end r \<and> True"
    using assms by (auto simp: rbind_eq_Inr io_ReadFull_eq_Inr word_be_val)
qed

interpretation u16c: exact_codec enc_u16 ReadUint16 "\<lambda>_. True"
  using be_codec [where ?'a = 16 and n = 2] by (simp add: ReadUint16_def enc_u16_def [abs_def])

interpretation u32c: exact_codec enc_u32 ReadUint32 "\<lambda>_. True"
  using be_codec [where ?'a = 32 and n = 4] by (simp add: ReadUint32_def enc_u32_def [abs_def])

interpretation u64c: exact_codec enc_u64 ReadUint64 "\<lambda>_. True"
  using be_codec [where ?'a = 64 and n = 8] by (simp add: ReadUint64_def enc_u64_def [abs_def])

interpretation i32c: exact_codec enc_u32 ReadInt32 "\<lambda>_. True"
  unfolding ReadInt32_def by (rule u32c.exact_codec_axioms)

interpretation i64c: exact_codec enc_u64 ReadInt64 "\<lambda>_. True"
  unfolding ReadInt64_def by (rule u64c.exact_codec_axioms)

interpretation boolc: codec enc_bool ReadBool "\<lambda>_. True"
  by unfold_locales
    (simp add: ReadBool_def ReadUint8_def enc_bool_def rbind_def io_ReadFull_def)

interpretation stringc: exact_codec enc_string ReadString fits16
proof unfold_locales
  fix x :: string and rest e
  assume "fits16 x"
  then show "ReadString (Reader (enc_string x @ rest) e) = Inr (x, Reader rest e)"
    by (simp add: ReadString_def enc_string_def rbind_def u16c.dec_enc len16_zero io_ReadFull_append)
next
  fix r r' x
  assume "ReadString r = Inr (x, r')"
  then obtain n r1 where n: "ReadUint16 r = Inr (n, r1)"
    and x: "(if n = 0 then ret [] else rbind (io_ReadFull (unat n)) (\<lambda>buf. ret (string_of_bytes buf))) r1
      = Inr (x, r')"
    by (auto simp: ReadString_def rbind_eq_Inr)
  have "unat n < 65536"
    using unsigned_less [of n, where ?'a = nat] by simp
  then show "rd_data r = enc_string x @ rd_data r' \<and> rd_end r' = rd_end r \<and> fits16 x"
    using u16c.dec_exact [OF n] x
    by (auto simp: enc_string_def fits16_def rbind_eq_Inr io_ReadFull_eq_Inr split: if_splits)
qed

interpretation bytesc: exact_codec enc_bytes ReadBytes fits32
proof unfold_locales
  fix x :: bytes and rest e
  assume "fits32 x"
  then show "ReadBytes (Reader (enc_bytes x @ rest) e) = Inr (x, Reader rest e)"
    by (simp add: ReadBytes_def enc_bytes_def rbind_def u32c.dec_enc len32_zero io_ReadFull_append)
next
  fix r r' x
  assume "ReadBytes r = Inr (x, r')"
  then obtain n r1 where n: "ReadUint32 r = Inr (n, r1)"
    and x: "(if n = 0 then ret [] else io_ReadFull (unat n)) r1 = Inr (x, r')"
    by (auto simp: ReadBytes_def rbind_eq_Inr)
  have "unat n < 4294967296"
    using unsigned_less [of n, where ?'a = nat] by simp
  then show "rd_data r = enc_bytes x @ rd_data r' \<and> rd_end r' = rd_end r \<and> fits32 x"
    using u32c.dec_exact [OF n] x
    by (auto simp: enc_bytes_def fits32_def io_ReadFull_eq_Inr split: if_splits)
qed

interpretation stringsc: exact_codec enc_strings ReadStringSlice wf_strings
proof unfold_locales
  fix x rest e
  assume "wf_strings x"
  then show "ReadStringSlice (Reader (enc_strings x @ rest) e) = Inr (x, Reader rest e)"
    by (simp add: ReadStringSlice_def enc_strings_def rbind_def u16c.dec_enc len16_zero
        wf_strings_def stringc.rtimes_enc)
next
  fix r r' x
  assume "ReadStringSlice r = Inr (x, r')"
  then obtain n r1 where n: "ReadUint16 r = Inr (n, r1)"
    and x: "(if n = 0 then ret [] else rtimes (unat n) ReadString) r1 = Inr (x, r')"
    by (auto simp: ReadStringSlice_def rbind_eq_Inr)
  have "unat n < 65536"
    using unsigned_less [of n, where ?'a = nat] by simp
  then show "rd_data r = enc_strings x @ rd_data r' \<and> rd_end r' = rd_end r \<and> wf_strings x"
    using u16c.dec_exact [OF n] x
    by (auto simp: enc_strings_def wf_strings_def fits16_def dest: stringc.rtimes_exact split: if_splits)
qed

lemma ReadEntries_enc:
  assumes "wf_gomap (acc @ m)" and "\<forall>(k, v) \<in> set m. fits16 k \<and> fits16 v"
  shows "ReadEntries (length m) acc (Reader (concat (map enc_entry m) @ rest) e) =
    Inr (acc @ m, Reader rest e)"
  using assms
proof (induction m arbitrary: acc)
  case Nil
  then show ?case by simp
next
  case (Cons p m)
  obtain k v where p: "p = (k, v)" by force
  have new: "AList.update k v acc = acc @ [(k, v)]"
    using Cons.prems(1) by (intro update_new) (simp add: p wf_gomap_def)
  show ?case
    using Cons p new by (simp add: rbind_def enc_entry_def stringc.dec_enc)
qed

interpretation mapc: codec enc_map ReadStringMap wf_map
proof unfold_locales
  fix x rest e
  assume "wf_map x"
  then show "ReadStringMap (Reader (enc_map x @ rest) e) = Inr (x, Reader rest e)"
    using ReadEntries_enc [of "[]" x rest e]
    by (simp add: ReadStringMap_def enc_map_def rbind_def u16c.dec_enc len16_zero wf_map_def)
qed

lemmas dec_enc_simps [wire_simps] =
  u8c.dec_enc u16c.dec_enc u32c.dec_enc u64c.dec_enc i32c.dec_enc i64c.dec_enc boolc.dec_enc
  stringc.dec_enc bytesc.dec_enc stringsc.dec_enc mapc.dec_enc

lemmas dec_enc_end_simps [wire_simps] =
  u8c.dec_enc_end u16c.dec_enc_end u32c.dec_enc_end u64c.dec_enc_end i32c.dec_enc_end
  i64c.dec_enc_end boolc.dec_enc_end stringc.dec_enc_end bytesc.dec_enc_end
  stringsc.dec_enc_end mapc.dec_enc_end

lemmas dec_exacts =
  u8c.dec_exact u16c.dec_exact u32c.dec_exact u64c.dec_exact i32c.dec_exact i64c.dec_exact
  stringc.dec_exact bytesc.dec_exact stringsc.dec_exact

section \<open>Length prefixes wrap\<close>

text \<open>
  C38. The length prefix of a string is taken modulo 65536 while all of its bytes
  are written. Reading back what was written for a string of any length returns
  its first (length mod 65536) bytes, and the rest of the string is left in the
  input in front of whatever follows. Up to 65535 bytes this is an exact round
  trip; beyond, the string is not truncated: the next field is misread.
\<close>

theorem ReadString_WriteString:
  "\<exists>b. Marshal (WriteString s) = Inr b \<and>
     ReadString (Reader (b @ rest) e) =
       Inr (take (length s mod 65536) s,
            Reader (bytes_of_string (drop (length s mod 65536) s) @ rest) e)"
proof (intro exI conjI)
  show "Marshal (WriteString s) = Inr (enc_string s)"
    by (intro Marshal_emits emits_intros)
  let ?n = "length s mod 65536"
  have n: "unat (word_of_nat (length s) :: uint16) = ?n"
    by (simp add: unat_of_nat)
  then have z: "(word_of_nat (length s) :: uint16) = 0 \<longleftrightarrow> ?n = 0"
    by (metis unat_eq_zero)
  have "length (bytes_of_string (take ?n s)) = ?n"
    by simp
  then have "io_ReadFull ?n (Reader (bytes_of_string (take ?n s) @ bytes_of_string (drop ?n s) @ rest) e)
      = Inr (bytes_of_string (take ?n s), Reader (bytes_of_string (drop ?n s) @ rest) e)"
    by (metis io_ReadFull_append)
  moreover have "enc_string s = enc_u16 (word_of_nat (length s)) @
      bytes_of_string (take ?n s) @ bytes_of_string (drop ?n s)"
    unfolding enc_string_def bytes_of_string_def by (metis append_take_drop_id map_append)
  ultimately show "ReadString (Reader (enc_string s @ rest) e) =
      Inr (take ?n s, Reader (bytes_of_string (drop ?n s) @ rest) e)"
    by (simp add: ReadString_def rbind_def u16c.dec_enc n z ret_def)
qed

end
