(* ===== verification/Frame.thy ===== *)
theory Frame
  imports Wire
begin

text \<open>
  The transport frame of \<^verbatim>\<open>protocol/frame.go\<close> (a 4-byte big-endian
  length and the payload, shared by all ports), and the MVCP frame, the constants
  and the service names of \<^verbatim>\<open>protocol/mvcp.go\<close>. The interpretation
  \<open>mvcpf\<close> shows that reading a frame inverts encoding it and accepts nothing
  else; the lemmas about sequences of frames and about interleaved writers rest
  on it.
\<close>

section \<open>Constants of mvcp.go\<close>

definition TypeHELLO :: uint8 where
  [simp]: "TypeHELLO = 0x00"

definition TypePING :: uint8 where
  [simp]: "TypePING = 0x01"

definition TypePONG :: uint8 where
  [simp]: "TypePONG = 0x02"

definition TypeSHUTDOWN :: uint8 where
  [simp]: "TypeSHUTDOWN = 0x03"

definition TypeSHUTDOWNACK :: uint8 where
  [simp]: "TypeSHUTDOWNACK = 0x04"

definition TypeGETSTATUS :: uint8 where
  [simp]: "TypeGETSTATUS = 0x05"

definition TypeSTATUS :: uint8 where
  [simp]: "TypeSTATUS = 0x06"

definition TypeHEARTBEAT :: uint8 where
  [simp]: "TypeHEARTBEAT = 0x07"

definition TypeEXEC :: uint8 where
  [simp]: "TypeEXEC = 0x10"

definition TypeEXECSTREAM :: uint8 where
  [simp]: "TypeEXECSTREAM = 0x11"

definition TypeEXECRESULT :: uint8 where
  [simp]: "TypeEXECRESULT = 0x12"

definition TypeXFERINIT :: uint8 where
  [simp]: "TypeXFERINIT = 0x20"

definition TypeXFERCHUNK :: uint8 where
  [simp]: "TypeXFERCHUNK = 0x21"

definition TypeXFERDONE :: uint8 where
  [simp]: "TypeXFERDONE = 0x22"

definition TypeTOOLCALL :: uint8 where
  [simp]: "TypeTOOLCALL = 0x30"

definition TypeTOOLRESULT :: uint8 where
  [simp]: "TypeTOOLRESULT = 0x31"

definition TypeLISTTOOLS :: uint8 where
  [simp]: "TypeLISTTOOLS = 0x32"

definition TypeLISTTOOLSRESULT :: uint8 where
  [simp]: "TypeLISTTOOLSRESULT = 0x33"

definition TypeSYNCFILESYSTEMS :: uint8 where
  [simp]: "TypeSYNCFILESYSTEMS = 0x40"

definition TypeSYNCFILESYSTEMSACK :: uint8 where
  [simp]: "TypeSYNCFILESYSTEMSACK = 0x41"

definition TypeAPPOPEN :: uint8 where
  [simp]: "TypeAPPOPEN = 0x50"

definition TypeAPPACCEPT :: uint8 where
  [simp]: "TypeAPPACCEPT = 0x51"

definition TypeAPPREJECT :: uint8 where
  [simp]: "TypeAPPREJECT = 0x52"

definition TypeAPPDATA :: uint8 where
  [simp]: "TypeAPPDATA = 0x53"

definition TypeAPPCREDIT :: uint8 where
  [simp]: "TypeAPPCREDIT = 0x54"

definition TypeAPPCLOSE :: uint8 where
  [simp]: "TypeAPPCLOSE = 0x55"

definition TypeAPPRESET :: uint8 where
  [simp]: "TypeAPPRESET = 0x56"

definition TypeEVENTREADY :: uint8 where
  [simp]: "TypeEVENTREADY = 0x80"

definition TypeEVENTFILERECEIVED :: uint8 where
  [simp]: "TypeEVENTFILERECEIVED = 0x81"

definition TypeEVENTMOUNT :: uint8 where
  [simp]: "TypeEVENTMOUNT = 0x82"

definition TypeEVENTERROR :: uint8 where
  [simp]: "TypeEVENTERROR = 0x83"

definition TypeEVENTLOG :: uint8 where
  [simp]: "TypeEVENTLOG = 0x84"

definition TypeEVENTINITFAILED :: uint8 where
  [simp]: "TypeEVENTINITFAILED = 0x86"

definition TypeSTARTED :: uint8 where
  [simp]: "TypeSTARTED = 0xFA"

definition TypeERROR :: uint8 where
  [simp]: "TypeERROR = 0xFE"

definition FlagResponse :: uint8 where
  [simp]: "FlagResponse = 0x01"

definition FlagStreamMore :: uint8 where
  [simp]: "FlagStreamMore = 0x02"

definition FlagExecStreaming :: uint8 where
  [simp]: "FlagExecStreaming = 0x04"

definition ErrorCodeUnknownType :: uint16 where
  [simp]: "ErrorCodeUnknownType = 0x0001"

definition ErrorCodeBadPayload :: uint16 where
  [simp]: "ErrorCodeBadPayload = 0x0002"

definition ErrorCodeFileNotFound :: uint16 where
  [simp]: "ErrorCodeFileNotFound = 0x0003"

definition ErrorCodePermissionDenied :: uint16 where
  [simp]: "ErrorCodePermissionDenied = 0x0004"

definition ErrorCodeExecFailed :: uint16 where
  [simp]: "ErrorCodeExecFailed = 0x0005"

definition ErrorCodeTimeout :: uint16 where
  [simp]: "ErrorCodeTimeout = 0x0006"

definition ErrorCodeNotADirectory :: uint16 where
  [simp]: "ErrorCodeNotADirectory = 0x0007"

definition ErrorCodeBadVersion :: uint16 where
  [simp]: "ErrorCodeBadVersion = 0x0008"

definition ErrorCodeUnknownTool :: uint16 where
  [simp]: "ErrorCodeUnknownTool = 0x0009"

definition ErrorCodeToolFailed :: uint16 where
  [simp]: "ErrorCodeToolFailed = 0x000A"

definition ErrorCodeUnexpectedRole :: uint16 where
  [simp]: "ErrorCodeUnexpectedRole = 0x000B"

definition ErrorCodeNoCommonCapability :: uint16 where
  [simp]: "ErrorCodeNoCommonCapability = 0x000C"

definition ErrorCodeAppServiceNotFound :: uint16 where
  [simp]: "ErrorCodeAppServiceNotFound = 0x0020"

definition ErrorCodeAppNotAuthorized :: uint16 where
  [simp]: "ErrorCodeAppNotAuthorized = 0x0021"

definition ErrorCodeAppServiceBusy :: uint16 where
  [simp]: "ErrorCodeAppServiceBusy = 0x0022"

definition ErrorCodeAppQuotaExceeded :: uint16 where
  [simp]: "ErrorCodeAppQuotaExceeded = 0x0023"

definition ErrorCodeAppPeerGone :: uint16 where
  [simp]: "ErrorCodeAppPeerGone = 0x0024"

definition ErrorCodeAppOverflow :: uint16 where
  [simp]: "ErrorCodeAppOverflow = 0x0025"

definition ErrorCodeAppTimeout :: uint16 where
  [simp]: "ErrorCodeAppTimeout = 0x0026"

definition ErrorCodeAppProtocolError :: uint16 where
  [simp]: "ErrorCodeAppProtocolError = 0x0027"

definition ErrorCodeAppLocalError :: uint16 where
  [simp]: "ErrorCodeAppLocalError = 0x0028"

definition HeartbeatStateUnknown :: uint8 where
  [simp]: "HeartbeatStateUnknown = 0"

definition HeartbeatStateBooting :: uint8 where
  [simp]: "HeartbeatStateBooting = 1"

definition HeartbeatStateRunning :: uint8 where
  [simp]: "HeartbeatStateRunning = 2"

definition HeartbeatStateStopping :: uint8 where
  [simp]: "HeartbeatStateStopping = 3"

definition HeartbeatStateStopped :: uint8 where
  [simp]: "HeartbeatStateStopped = 4"

definition HeartbeatStateFailed :: uint8 where
  [simp]: "HeartbeatStateFailed = 5"

definition HealthHealthy :: uint8 where
  [simp]: "HealthHealthy = 0"

definition HealthDegraded :: uint8 where
  [simp]: "HealthDegraded = 1"

definition HeartbeatFlagBusy :: uint8 where
  [simp]: "HeartbeatFlagBusy = 1"

definition HeartbeatFlagMaintenance :: uint8 where
  [simp]: "HeartbeatFlagMaintenance = 2"

definition HeartbeatFlagReadOnly :: uint8 where
  [simp]: "HeartbeatFlagReadOnly = 4"

definition HeartbeatFlagLowResources :: uint8 where
  [simp]: "HeartbeatFlagLowResources = 8"

definition ExtCPUUsage :: uint16 where
  [simp]: "ExtCPUUsage = 1"

definition ExtMemoryUsage :: uint16 where
  [simp]: "ExtMemoryUsage = 2"

definition ExtQueueDepth :: uint16 where
  [simp]: "ExtQueueDepth = 3"

definition ExtHealth :: uint16 where
  [simp]: "ExtHealth = 4"

definition ExtFailureReason :: uint16 where
  [simp]: "ExtFailureReason = 5"

definition ExecChannelStdout :: uint8 where
  [simp]: "ExecChannelStdout = 0x00"

definition ExecChannelStderr :: uint8 where
  [simp]: "ExecChannelStderr = 0x01"

definition ExecChannelProgress :: uint8 where
  [simp]: "ExecChannelProgress = 0x10"

definition ExecChannelLog :: uint8 where
  [simp]: "ExecChannelLog = 0x11"

definition ExecChannelMetric :: uint8 where
  [simp]: "ExecChannelMetric = 0x12"

definition ExecChannelDebug :: uint8 where
  [simp]: "ExecChannelDebug = 0x13"

definition LogLevelDebug :: uint8 where
  [simp]: "LogLevelDebug = 0x00"

definition LogLevelInfo :: uint8 where
  [simp]: "LogLevelInfo = 0x01"

definition LogLevelWarn :: uint8 where
  [simp]: "LogLevelWarn = 0x02"

definition LogLevelError :: uint8 where
  [simp]: "LogLevelError = 0x03"

definition XferDirImport :: uint8 where
  [simp]: "XferDirImport = 0x00"

definition XferDirExport :: uint8 where
  [simp]: "XferDirExport = 0x01"


definition AppInitialWindow :: uint32 where
  [simp]: "AppInitialWindow = 0x40000"

definition AppMaxCredit :: uint32 where
  [simp]: "AppMaxCredit = 4 * AppInitialWindow"

definition AppMaxStreams :: nat where
  [simp]: "AppMaxStreams = 64"

definition AppMaxMetaBytes :: nat where
  [simp]: "AppMaxMetaBytes = 1024"

definition AppMaxDataBytes :: nat where
  [simp]: "AppMaxDataBytes = 65536"

definition AppMaxSendQueue :: uint64 where
  [simp]: "AppMaxSendQueue = 0x100000"

definition AppMaxBuffered :: uint64 where
  [simp]: "AppMaxBuffered = 0x800000"

section \<open>Service names\<close>

text \<open>
  The regular expression \<^verbatim>\<open>^[a-z][a-z0-9-]{0,30}$\<close> as a predicate on
  bytes: a byte that is not ASCII is in neither class, and without the multi-line
  flag \<^verbatim>\<open>$\<close> matches at the end of the text only.
\<close>

definition is_lower :: "char \<Rightarrow> bool" where
  "is_lower c \<longleftrightarrow> 97 \<le> (of_char c :: nat) \<and> of_char c \<le> (122 :: nat)"

definition is_digit :: "char \<Rightarrow> bool" where
  "is_digit c \<longleftrightarrow> 48 \<le> (of_char c :: nat) \<and> of_char c \<le> (57 :: nat)"

definition appServicePattern :: "string \<Rightarrow> bool" where
  "appServicePattern s =
     (case s of
        [] \<Rightarrow> False
      | c # cs \<Rightarrow> is_lower c \<and> length cs \<le> 30
          \<and> list_all (\<lambda>d. is_lower d \<or> is_digit d \<or> d = CHR ''-'') cs)"

definition ValidAppService :: "string \<Rightarrow> bool" where
  "ValidAppService service \<longleftrightarrow> length service \<le> 64 \<and> appServicePattern service"

section \<open>frame.go\<close>

definition MaxFrameSize :: nat where
  [simp]: "MaxFrameSize = 16 * 1024 * 1024"

definition ReadFrame :: "bytes parser" where
  "ReadFrame = rbind (io_ReadFull 4) (\<lambda>header.
     let length = (word_of_nat (be_val header) :: uint32) in
     if unat length > MaxFrameSize then raise ErrFrameTooLarge
     else io_ReadFull (unat length))"

definition WriteFrame :: "bytes \<Rightarrow> wop" where
  "WriteFrame payload =
     io_Write (be_bytes 4 (unat (word_of_nat (length payload) :: uint32)) @ payload)"

section \<open>MVCP frames\<close>

definition frameHeaderSize :: nat where
  [simp]: "frameHeaderSize = 6"

record Frame =
  f_Type :: uint8
  f_Flags :: uint8
  f_MsgID :: uint32
  f_Body :: bytes

definition ReadMVCPFrame :: "Frame parser" where
  "ReadMVCPFrame = rbind ReadFrame (\<lambda>payload.
     if length payload < frameHeaderSize then raise ErrUnexpectedEOF
     else ret \<lparr>f_Type = payload ! 0, f_Flags = payload ! 1,
               f_MsgID = word_of_nat (be_val (take 4 (drop 2 payload))),
               f_Body = drop 6 payload\<rparr>)"

definition EncodeMVCPFrame :: "Frame \<Rightarrow> bytes" where
  "EncodeMVCPFrame f =
     (let inner = [f_Type f, f_Flags f] @ be_bytes 4 (unat (f_MsgID f)) @ f_Body f
      in be_bytes 4 (unat (word_of_nat (length inner) :: uint32)) @ inner)"

definition WriteMVCPFrame :: "Frame \<Rightarrow> wop" where
  "WriteMVCPFrame f = io_Write (EncodeMVCPFrame f)"

text \<open>The body of the frame \<open>STARTED\<close>, for callers that build it by hand.\<close>

definition EncodeStarted :: "bool \<Rightarrow> bytes" where
  "EncodeStarted stream = wr_bytes (snd (WriteBool stream new_Buffer))"

section \<open>Reading inverts encoding\<close>

definition enc_frame :: "bytes \<Rightarrow> bytes" where
  "enc_frame payload = enc_u32 (word_of_nat (length payload)) @ payload"

definition wf_payload :: "bytes \<Rightarrow> bool" where
  "wf_payload p \<longleftrightarrow> length p \<le> MaxFrameSize"

definition wf_frame :: "Frame \<Rightarrow> bool" where
  "wf_frame f \<longleftrightarrow> length (f_Body f) + frameHeaderSize \<le> MaxFrameSize"

lemma WriteFrame_enc: "WriteFrame p = io_Write (enc_frame p)"
  by (simp add: WriteFrame_def enc_frame_def enc_u32_def)

lemma ReadFrame_alt:
  "ReadFrame = rbind ReadUint32 (\<lambda>n. if unat n > MaxFrameSize then raise ErrFrameTooLarge
     else io_ReadFull (unat n))"
  by (rule ext) (simp add: ReadFrame_def ReadUint32_def rbind_def Let_def split: sum.split)

interpretation transport: exact_codec enc_frame ReadFrame wf_payload
proof unfold_locales
  fix x rest e
  assume "wf_payload x"
  then show "ReadFrame (Reader (enc_frame x @ rest) e) = Inr (x, Reader rest e)"
    by (simp add: ReadFrame_alt enc_frame_def rbind_def u32c.dec_enc wf_payload_def fits32_def
        io_ReadFull_append)
next
  fix r r' x
  assume "ReadFrame r = Inr (x, r')"
  then obtain n r1 where n: "ReadUint32 r = Inr (n, r1)"
    and x: "(if unat n > MaxFrameSize then raise ErrFrameTooLarge else io_ReadFull (unat n)) r1
      = Inr (x, r')"
    by (auto simp: ReadFrame_alt rbind_eq_Inr)
  then show "rd_data r = enc_frame x @ rd_data r' \<and> rd_end r' = rd_end r \<and> wf_payload x"
    using u32c.dec_exact [OF n] x
    by (auto simp: enc_frame_def wf_payload_def io_ReadFull_eq_Inr split: if_splits)
qed

definition enc_inner :: "Frame \<Rightarrow> bytes" where
  "enc_inner f = [f_Type f, f_Flags f] @ enc_u32 (f_MsgID f) @ f_Body f"

lemma EncodeMVCPFrame_enc: "EncodeMVCPFrame f = enc_frame (enc_inner f)"
  by (simp add: EncodeMVCPFrame_def enc_frame_def enc_inner_def enc_u32_def)

lemma length_enc_inner [simp]: "length (enc_inner f) = length (f_Body f) + 6"
  by (simp add: enc_inner_def)

lemma wf_payload_inner: "wf_payload (enc_inner f) \<longleftrightarrow> wf_frame f"
  by (simp add: wf_payload_def wf_frame_def)

lemma split_header:
  assumes "6 \<le> length p"
  shows "[p ! 0, p ! 1] @ enc_u32 (word_of_nat (be_val (take 4 (drop 2 p)))) @ drop 6 p = p"
proof -
  have msgid: "enc_u32 (word_of_nat (be_val (take 4 (drop 2 p)))) = take 4 (drop 2 p)"
    using assms word_be_val [of "take 4 (drop 2 p)" 4, where ?'a = 32] by (simp add: enc_u32_def)
  have head: "[p ! 0, p ! 1] = take 2 p"
    using assms by (intro nth_equalityI) (auto simp: less_Suc_eq numeral_2_eq_2)
  have "take 2 p @ take 4 (drop 2 p) @ drop 4 (drop 2 p) = p"
    by (simp only: append_take_drop_id)
  then show ?thesis
    unfolding msgid head by simp
qed

interpretation mvcpf: exact_codec EncodeMVCPFrame ReadMVCPFrame wf_frame
proof unfold_locales
  fix f rest e
  assume "wf_frame f"
  then have "ReadFrame (Reader (EncodeMVCPFrame f @ rest) e) = Inr (enc_inner f, Reader rest e)"
    by (simp add: EncodeMVCPFrame_enc transport.dec_enc wf_payload_inner)
  moreover have "take 4 (drop 2 (enc_inner f)) = enc_u32 (f_MsgID f)" "drop 6 (enc_inner f) = f_Body f"
    "enc_inner f ! 0 = f_Type f" "enc_inner f ! 1 = f_Flags f"
    by (simp_all add: enc_inner_def)
  moreover have "word_of_nat (be_val (enc_u32 (f_MsgID f))) = f_MsgID f"
    using unsigned_less [of "f_MsgID f", where ?'a = nat] by (simp add: enc_u32_def)
  ultimately show "ReadMVCPFrame (Reader (EncodeMVCPFrame f @ rest) e) = Inr (f, Reader rest e)"
    by (simp add: ReadMVCPFrame_def rbind_def)
next
  fix r f r'
  assume "ReadMVCPFrame r = Inr (f, r')"
  then obtain p where p: "ReadFrame r = Inr (p, r')" and len: "6 \<le> length p"
    and f: "f = \<lparr>f_Type = p ! 0, f_Flags = p ! 1,
      f_MsgID = word_of_nat (be_val (take 4 (drop 2 p))), f_Body = drop 6 p\<rparr>"
    by (auto simp: ReadMVCPFrame_def rbind_eq_Inr split: if_splits)
  have "enc_inner f = p"
    using split_header [OF len] by (simp add: f enc_inner_def)
  then show "rd_data r = EncodeMVCPFrame f @ rd_data r' \<and> rd_end r' = rd_end r \<and> wf_frame f"
    using transport.dec_exact [OF p] by (simp add: EncodeMVCPFrame_enc flip: wf_payload_inner)
qed

section \<open>Sequences of frames and concurrent writers\<close>

text \<open>One goroutine that writes frames one after the other.\<close>

primrec WriteMVCPFrames :: "Frame list \<Rightarrow> wop" where
  "WriteMVCPFrames [] = wdone"
| "WriteMVCPFrames (f # fs) = wthen (WriteMVCPFrame f) (WriteMVCPFrames fs)"

lemma emits_frame [emits_intros]: "emits (WriteMVCPFrame f) (EncodeMVCPFrame f)"
  by (simp add: WriteMVCPFrame_def emits_Write)

text \<open>The calls that a sequence of frames makes: one for each frame.\<close>

lemma log_frames: "wr_log (snd (WriteMVCPFrames fs (Writer l []))) = l @ map EncodeMVCPFrame fs"
  by (induction fs arbitrary: l) (simp_all add: wdone_def wthen_def WriteMVCPFrame_def io_Write_def)

lemma emits_bytes_eq: "emits f bs \<Longrightarrow> wr_bytes (snd (f new_Buffer)) = bs"
  by (simp add: emits_def new_Buffer_def wr_bytes_def)

text \<open>
  C5. The frame reader accepts exactly the frames the encoder produces: it returns
  a frame and an advanced reader if and only if the input starts with the encoding
  of this frame, the rest is left unread, and the frame fits the size limit.
\<close>

theorem ReadMVCPFrame_exact:
  "ReadMVCPFrame r = Inr (f, r') \<longleftrightarrow>
     rd_data r = EncodeMVCPFrame f @ rd_data r' \<and> rd_end r' = rd_end r
     \<and> length (f_Body f) + frameHeaderSize \<le> MaxFrameSize"
  using mvcpf.dec_iff [of r f r'] by (simp add: wf_frame_def)

text \<open>
  C30. Concurrent writers. Any number of goroutines write frames to one connection, each with
  \<open>WriteMVCPFrame\<close>, and their \<^verbatim>\<open>Write\<close> calls, none of which fails, reach the connection in any order that
  keeps the order of each goroutine. Since a frame is one \<^verbatim>\<open>Write\<close> call, no frame is torn apart: the reader gets back
  all frames whole, interleaved in the same way, and nothing else.
\<close>

theorem frames_interleaved:
  assumes "list_all (list_all wf_frame) fss"
    and "interleaving (map (\<lambda>fs. wr_log (snd (WriteMVCPFrames fs new_Buffer))) fss) log"
  shows "\<exists>hs. interleaving fss hs \<and> rtimes (length hs) ReadMVCPFrame (Reader (concat log) e) = Inr (hs, Reader [] e)"
proof -
  obtain hs where hs: "interleaving fss hs" "log = map EncodeMVCPFrame hs"
    using interleaving_map [of EncodeMVCPFrame fss log] assms(2) by (auto simp: log_frames new_Buffer_def)
  have "list_all wf_frame hs"
    using assms(1) interleaving_set [OF hs(1)] by (fastforce simp: list_all_iff)
  then show ?thesis
    using mvcpf.rtimes_enc [of hs "[]"] hs by auto
qed

theorem frames_interleaved_witness:
  "\<exists>hs. interleaving
      [[\<lparr>f_Type = 1, f_Flags = 0, f_MsgID = 7, f_Body = []\<rparr>, \<lparr>f_Type = 1, f_Flags = 0, f_MsgID = 8, f_Body = []\<rparr>],
       [\<lparr>f_Type = 2, f_Flags = 1, f_MsgID = 7, f_Body = [9]\<rparr>]] hs
    \<and> rtimes (length hs) ReadMVCPFrame
        (Reader [0, 0, 0, 6, 1, 0, 0, 0, 0, 7, 0, 0, 0, 7, 2, 1, 0, 0, 0, 7, 9, 0, 0, 0, 6, 1, 0, 0, 0, 0, 8] EOF)
      = Inr (hs, Reader [] EOF)"
proof -
  let ?p = "\<lparr>f_Type = 1, f_Flags = 0, f_MsgID = 7, f_Body = []\<rparr>"
  let ?p' = "\<lparr>f_Type = 1, f_Flags = 0, f_MsgID = 8, f_Body = []\<rparr>"
  let ?q = "\<lparr>f_Type = 2, f_Flags = 1, f_MsgID = 7, f_Body = [9]\<rparr>"
  have "list_all (list_all wf_frame) [[?p, ?p'], [?q]]"
    by (simp add: wf_frame_def)
  moreover have "interleaving (map (\<lambda>fs. wr_log (snd (WriteMVCPFrames fs new_Buffer))) [[?p, ?p'], [?q]])
      [EncodeMVCPFrame ?p, EncodeMVCPFrame ?q, EncodeMVCPFrame ?p']"
    by (simp add: log_frames new_Buffer_def)
  moreover have "concat [EncodeMVCPFrame ?p, EncodeMVCPFrame ?q, EncodeMVCPFrame ?p'] =
      [0, 0, 0, 6, 1, 0, 0, 0, 0, 7, 0, 0, 0, 7, 2, 1, 0, 0, 0, 7, 9, 0, 0, 0, 6, 1, 0, 0, 0, 0, 8]"
    by code_simp
  ultimately show ?thesis
    using frames_interleaved [of "[[?p, ?p'], [?q]]" _ EOF] by (metis (no_types, lifting))
qed

section \<open>Truncated and oversized frames\<close>

lemma ReadFrame_truncated:
  assumes "wf_payload p" and "k < length (enc_frame p)"
  shows "ReadFrame (Reader (take k (enc_frame p)) EOF) =
    Inl (if k = 0 \<or> k = 4 then EOF else ErrUnexpectedEOF)"
proof (cases "k < 4")
  case True
  then show ?thesis
    by (auto simp: ReadFrame_def rbind_def io_ReadFull_def enc_frame_def enc_nonempty)
next
  case False
  define u :: uint32 where "u = word_of_nat (length p)"
  have u: "unat u = length p" "unat u \<le> MaxFrameSize"
    using assms(1) by (simp_all add: u_def wf_payload_def fits32_def)
  have "take k (enc_frame p) = enc_u32 u @ take (k - 4) p"
    using False by (simp add: enc_frame_def u_def)
  moreover have "k - 4 < length p"
    using assms(2) False by (simp add: enc_frame_def)
  ultimately show ?thesis
    using False u by (auto simp: ReadFrame_alt rbind_def u32c.dec_enc io_ReadFull_def)
qed

text \<open>
  C31. A frame cut short is never accepted: the reader reports
  \<^verbatim>\<open>io.ErrUnexpectedEOF\<close>, except when the cut is at the frame boundary or
  exactly between the length header and the payload, where it reports
  \<^verbatim>\<open>io.EOF\<close>.
\<close>

theorem ReadMVCPFrame_truncated:
  assumes "wf_frame f" and "k < length (EncodeMVCPFrame f)"
  shows "ReadMVCPFrame (Reader (take k (EncodeMVCPFrame f)) EOF) =
    Inl (if k = 0 \<or> k = 4 then EOF else ErrUnexpectedEOF)"
  using assms ReadFrame_truncated [of "enc_inner f" k]
  by (simp add: ReadMVCPFrame_def rbind_def EncodeMVCPFrame_enc wf_payload_inner)

theorem ReadMVCPFrame_truncated_witness:
  "ReadMVCPFrame (Reader [0, 0, 0, 7] EOF) = Inl EOF"
  using ReadMVCPFrame_truncated [of "\<lparr>f_Type = 1, f_Flags = 0, f_MsgID = 7, f_Body = [9]\<rparr>" 4]
  by (simp add: wf_frame_def EncodeMVCPFrame_def be_bytes_numeral)

text \<open>
  Nothing in the encoder enforces the frame limit: a body that makes the
  payload larger than 16 MiB (and smaller than 4 GiB) is written without an error,
  and every reader refuses the frame with \<open>ErrFrameTooLarge\<close> before it reads
  the payload.
\<close>

lemma oversized_frame_refused:
  assumes "MaxFrameSize < length (f_Body f) + frameHeaderSize"
    and "length (f_Body f) + frameHeaderSize < 2 ^ 32"
  shows "fst (WriteMVCPFrame f new_Buffer) = None
    \<and> ReadMVCPFrame (Reader (wr_bytes (snd (WriteMVCPFrame f new_Buffer)) @ rest) e)
        = Inl ErrFrameTooLarge"
proof -
  define u :: uint32 where "u = word_of_nat (length (enc_inner f))"
  have "unat u = length (enc_inner f)"
    unfolding u_def using assms(2) by (intro unat_len32) (simp add: fits32_def)
  then have "MaxFrameSize < unat u"
    using assms(1) by simp
  then have "ReadFrame (Reader (EncodeMVCPFrame f @ rest) e) = Inl ErrFrameTooLarge"
    by (simp add: ReadFrame_alt EncodeMVCPFrame_enc enc_frame_def rbind_def u32c.dec_enc
        flip: u_def del: length_enc_inner)
  then show ?thesis
    by (simp add: emits_bytes_eq [OF emits_frame] ReadMVCPFrame_def rbind_def)
      (simp add: WriteMVCPFrame_def io_Write_def new_Buffer_def)
qed

end
