(* ===== verification/Capabilities.thy ===== *)
theory Capabilities
  imports Frame
begin

text \<open>
  Capability negotiation: the capability tables of \<^verbatim>\<open>protocol/hello.go\<close>
  and \<open>Negotiate\<close> and \<open>Requirements.Check\<close> of
  \<^verbatim>\<open>protocol/capabilities.go\<close>. The tables are Go maps, and both loops
  range over one: the results are shown not to depend on the iteration order.
\<close>

type_synonym CapabilityID = uint8

definition CapabilityExec :: CapabilityID where
  [simp]: "CapabilityExec = 0x01"

definition CapabilityTools :: CapabilityID where
  [simp]: "CapabilityTools = 0x02"

definition CapabilityEvents :: CapabilityID where
  [simp]: "CapabilityEvents = 0x03"

definition CapabilityFileTransfer :: CapabilityID where
  [simp]: "CapabilityFileTransfer = 0x04"

definition CapabilitySyncFS :: CapabilityID where
  [simp]: "CapabilitySyncFS = 0x05"

definition CapabilityAppChannel :: CapabilityID where
  [simp]: "CapabilityAppChannel = 0x06"

record CapabilitySupport =
  MinRevision :: uint16
  MaxRevision :: uint16

type_synonym AdvertisedCapabilities = "(CapabilityID, CapabilitySupport) gomap"
type_synonym NegotiatedCapabilities = "(CapabilityID, uint16) gomap"
type_synonym Requirements = "(CapabilityID, uint16) gomap"

definition DefaultCapabilities :: AdvertisedCapabilities where
  "DefaultCapabilities =
     [(CapabilityExec, \<lparr>MinRevision = 1, MaxRevision = 2\<rparr>),
      (CapabilityTools, \<lparr>MinRevision = 1, MaxRevision = 1\<rparr>),
      (CapabilityEvents, \<lparr>MinRevision = 1, MaxRevision = 1\<rparr>),
      (CapabilityFileTransfer, \<lparr>MinRevision = 1, MaxRevision = 1\<rparr>),
      (CapabilitySyncFS, \<lparr>MinRevision = 1, MaxRevision = 1\<rparr>),
      (CapabilityAppChannel, \<lparr>MinRevision = 1, MaxRevision = 1\<rparr>)]"

section \<open>Negotiate\<close>

text \<open>The loop over the peer's table, with the map built so far.\<close>

fun Negotiate_loop ::
  "AdvertisedCapabilities \<Rightarrow> AdvertisedCapabilities \<Rightarrow> NegotiatedCapabilities \<Rightarrow> NegotiatedCapabilities"
where
  "Negotiate_loop [] local out = out"
| "Negotiate_loop ((cid, p) # peer) local out =
     (case map_of local cid of
        None \<Rightarrow> Negotiate_loop peer local out
      | Some l \<Rightarrow>
          let lo = max (MinRevision p) (MinRevision l);
              hi = min (MaxRevision p) (MaxRevision l)
          in if lo \<le> hi then Negotiate_loop peer local (AList.update cid hi out)
             else Negotiate_loop peer local out)"

definition Negotiate ::
  "AdvertisedCapabilities \<Rightarrow> AdvertisedCapabilities \<Rightarrow> NegotiatedCapabilities" where
  "Negotiate peer local = Negotiate_loop peer local []"

section \<open>Requirements.Check\<close>

fun Check :: "Requirements \<Rightarrow> NegotiatedCapabilities \<Rightarrow> goerr option" where
  "Check [] n = None"
| "Check ((cid, minRev) # r) n =
     (case map_of n cid of
        None \<Rightarrow> Some (NewError (''mvcp: capability 0x'' @ fmt_02X (unat cid) @
           '' not negotiated (required >= '' @ fmt_d (unat minRev) @ '')''))
      | Some rv \<Rightarrow>
          if rv < minRev
          then Some (NewError (''mvcp: capability 0x'' @ fmt_02X (unat cid) @
             '' negotiated at revision '' @ fmt_d (unat rv) @ '', required >= '' @ fmt_d (unat minRev)))
          else Check r n)"

section \<open>What negotiation computes\<close>

text \<open>The revision two peers that support \<open>p\<close> and \<open>l\<close> agree on.\<close>

definition common :: "CapabilitySupport \<Rightarrow> CapabilitySupport \<Rightarrow> uint16 option" where
  "common p l =
     (if max (MinRevision p) (MinRevision l) \<le> min (MaxRevision p) (MaxRevision l)
      then Some (min (MaxRevision p) (MaxRevision l)) else None)"

lemma common_commute: "common p l = common l p"
  by (simp add: common_def max.commute min.commute)

lemma wf_Negotiate_loop: "wf_gomap out \<Longrightarrow> wf_gomap (Negotiate_loop peer local out)"
  by (induction peer local out rule: Negotiate_loop.induct) (auto simp: Let_def split: option.split)

lemma wf_Negotiate [simp]: "wf_gomap (Negotiate peer local)"
  by (simp add: Negotiate_def wf_Negotiate_loop)

lemma map_of_Negotiate_loop:
  "wf_gomap peer \<Longrightarrow> map_of (Negotiate_loop peer local out) cid =
     (case (map_of peer cid, map_of local cid) of
        (Some p, Some l) \<Rightarrow> (case common p l of None \<Rightarrow> map_of out cid | Some r \<Rightarrow> Some r)
      | _ \<Rightarrow> map_of out cid)"
proof (induction peer local out rule: Negotiate_loop.induct)
  case (1 local out)
  then show ?case by simp
next
  case (2 i p peer local out)
  have "map_of peer i = None"
    using "2.prems" by (simp add: map_of_eq_None_iff)
  with 2 show ?case
    by (auto simp: common_def Let_def update_conv' split: option.splits)
qed

lemma map_of_Negotiate:
  "wf_gomap peer \<Longrightarrow> map_of (Negotiate peer local) cid =
     (case (map_of peer cid, map_of local cid) of (Some p, Some l) \<Rightarrow> common p l | _ \<Rightarrow> None)"
  by (simp add: Negotiate_def map_of_Negotiate_loop split: option.splits)

text \<open>A peer supports a revision of a capability if its range holds it.\<close>

definition supports :: "AdvertisedCapabilities \<Rightarrow> CapabilityID \<Rightarrow> uint16 \<Rightarrow> bool" where
  "supports t cid r \<longleftrightarrow>
     (\<exists>s. map_of t cid = Some s \<and> MinRevision s \<le> r \<and> r \<le> MaxRevision s)"

lemma common_Some:
  "common p l = Some r \<longleftrightarrow>
     MinRevision p \<le> r \<and> MinRevision l \<le> r \<and> r = min (MaxRevision p) (MaxRevision l)"
  by (auto simp: common_def)

lemma Negotiate_supported:
  "wf_gomap peer \<Longrightarrow> map_of (Negotiate peer local) cid = Some r \<Longrightarrow>
     supports peer cid r \<and> supports local cid r"
  by (auto simp: map_of_Negotiate common_Some supports_def split: option.splits)

text \<open>
  C32. Negotiation picks the highest common revision: a capability is negotiated
  at revision \<open>r\<close> exactly when both tables support \<open>r\<close> and no revision that
  both support is higher.
\<close>

theorem Negotiate_highest_common:
  assumes "wf_gomap peer"
  shows "map_of (Negotiate peer local) cid = Some r \<longleftrightarrow>
    supports peer cid r \<and> supports local cid r
    \<and> (\<forall>r'. supports peer cid r' \<and> supports local cid r' \<longrightarrow> r' \<le> r)"
proof (cases "map_of peer cid"; cases "map_of local cid")
  fix p l
  assume pl: "map_of peer cid = Some p" "map_of local cid = Some l"
  let ?m = "min (MaxRevision p) (MaxRevision l)"
  have "common p l = Some r \<longleftrightarrow>
      (MinRevision p \<le> r \<and> r \<le> MaxRevision p) \<and> (MinRevision l \<le> r \<and> r \<le> MaxRevision l)
      \<and> (\<forall>r'. (MinRevision p \<le> r' \<and> r' \<le> MaxRevision p) \<and> (MinRevision l \<le> r' \<and> r' \<le> MaxRevision l) \<longrightarrow> r' \<le> r)"
    (is "_ \<longleftrightarrow> ?R")
  proof
    assume "common p l = Some r"
    then show ?R by (auto simp: common_Some)
  next
    assume R: ?R
    then have "MinRevision p \<le> ?m \<and> MinRevision l \<le> ?m"
      by (meson min.boundedI order.trans)
    with R have "?m \<le> r"
      by (meson min.cobounded1 min.cobounded2)
    with R show "common p l = Some r"
      by (auto simp: common_Some intro: order.antisym)
  qed
  then show ?thesis
    using assms pl by (simp add: map_of_Negotiate supports_def)
qed (use assms in \<open>simp_all add: map_of_Negotiate supports_def\<close>)

theorem Negotiate_highest_common_witness:
  "map_of (Negotiate DefaultCapabilities [(1, \<lparr>MinRevision = 2, MaxRevision = 9\<rparr>)]) 1 = Some 2
   \<and> supports DefaultCapabilities 1 2"
  using Negotiate_highest_common [of DefaultCapabilities "[(1, \<lparr>MinRevision = 2, MaxRevision = 9\<rparr>)]" 1 2]
  by (simp add: DefaultCapabilities_def Negotiate_def supports_def)

text \<open>
  Negotiation is symmetric: both peers, each taking the other's table as the
  peer's, compute the same set of capabilities and revisions.
\<close>

lemma Negotiate_symmetric:
  assumes "wf_gomap a" and "wf_gomap b"
  shows "map_of (Negotiate a b) = map_of (Negotiate b a)"
  using assms
  by (auto simp: map_of_Negotiate common_commute fun_eq_iff split: option.splits)

lemma Check_iff:
  "Check r n = None \<longleftrightarrow>
     (\<forall>(cid, minRev) \<in> set r. \<exists>rv. map_of n cid = Some rv \<and> minRev \<le> rv)"
  by (induction r n rule: Check.induct) (auto split: option.splits)

end
