(* ===== verification/Hello.thy ===== *)
theory Hello
  imports Capabilities "HOL-Library.Multiset"
begin

text \<open>
  The HELLO message of \<^verbatim>\<open>protocol/hello.go\<close>: roles, the capability
  list of the wire, its encoder and its strict decoder. The decoder is shown to
  accept exactly the layout of the negotiation document.
\<close>

section \<open>Data\<close>

type_synonym PeerRole = uint8

definition RoleUnknown :: PeerRole where
  [simp]: "RoleUnknown = 0"

definition RoleCore :: PeerRole where
  [simp]: "RoleCore = 1"

definition RoleVHandler :: PeerRole where
  [simp]: "RoleVHandler = 2"

definition maxHelloCapabilities :: nat where
  [simp]: "maxHelloCapabilities = 64"

definition maxHelloVersionLen :: nat where
  [simp]: "maxHelloVersionLen = 128"

record Capability =
  c_ID :: CapabilityID
  c_MinRevision :: uint16
  c_MaxRevision :: uint16

record Hello =
  h_Role :: PeerRole
  h_SoftwareVersion :: string
  h_Capabilities :: "Capability list"

section \<open>Building a HELLO and reading its table\<close>

text \<open>
  \<^verbatim>\<open>sort.Slice\<close> by ID: on distinct IDs, which a map and the decoder
  guarantee, the sorted list is unique. On a list with duplicates, which only a caller of the encoder can build, the source may order
  equal IDs in another way; no statement says in which.
\<close>

definition sort_by_ID :: "Capability list \<Rightarrow> Capability list" where
  "sort_by_ID cs = sort_key c_ID cs"

definition NewHello :: "PeerRole \<Rightarrow> string \<Rightarrow> AdvertisedCapabilities \<Rightarrow> Hello" where
  "NewHello role softwareVersion caps =
     (let cs = map (\<lambda>(cid, s). \<lparr>c_ID = cid, c_MinRevision = MinRevision s,
                 c_MaxRevision = MaxRevision s\<rparr>) caps
      in \<lparr>h_Role = role, h_SoftwareVersion = softwareVersion, h_Capabilities = sort_by_ID cs\<rparr>)"

fun advertised_loop :: "Capability list \<Rightarrow> AdvertisedCapabilities \<Rightarrow> AdvertisedCapabilities" where
  "advertised_loop [] out = out"
| "advertised_loop (c # cs) out =
     advertised_loop cs
       (AList.update (c_ID c) \<lparr>MinRevision = c_MinRevision c, MaxRevision = c_MaxRevision c\<rparr> out)"

definition advertised :: "Hello \<Rightarrow> AdvertisedCapabilities" where
  "advertised h = advertised_loop (h_Capabilities h) []"

section \<open>MarshalBinary\<close>

fun WriteCapabilities :: "Capability list \<Rightarrow> wop" where
  "WriteCapabilities [] = wdone"
| "WriteCapabilities (c # cs) =
     (if c_MinRevision c > c_MaxRevision c
      then (\<lambda>w. (Some (NewError (''mvcp: hello: capability 0x'' @ fmt_02X (unat (c_ID c)) @ '' min > max'')), w))
      else wthen (WriteUint8 (c_ID c)) (wthen (WriteUint16 (c_MinRevision c))
             (wthen (WriteUint16 (c_MaxRevision c)) (WriteCapabilities cs))))"

definition Hello_MarshalBinary :: "Hello \<Rightarrow> goerr + bytes" where
  "Hello_MarshalBinary h =
     (if h_Role h = RoleUnknown \<or> h_Role h > RoleVHandler
      then Inl (NewError (''mvcp: hello: invalid role '' @ fmt_d (unat (h_Role h))))
      else if length (h_SoftwareVersion h) > maxHelloVersionLen
      then Inl (NewError (''mvcp: hello: software version too long ('' @
             fmt_d (length (h_SoftwareVersion h)) @ '' bytes, max '' @ fmt_d maxHelloVersionLen @ '')''))
      else if length (h_Capabilities h) > maxHelloCapabilities
      then Inl (NewError (''mvcp: hello: too many capabilities ('' @
             fmt_d (length (h_Capabilities h)) @ '', max '' @ fmt_d maxHelloCapabilities @ '')''))
      else (let cs = sort_by_ID (h_Capabilities h) in
        Marshal (wthen (WriteUint8 (h_Role h)) (wthen (WriteString (h_SoftwareVersion h))
          (wthen (WriteUint16 (word_of_nat (length cs))) (WriteCapabilities cs))))))"

section \<open>UnmarshalBinary\<close>

text \<open>\<^verbatim>\<open>malformed(err)\<close> of a failed read, and the validation failures.\<close>

definition malformed :: "'a parser \<Rightarrow> 'a parser" where
  "malformed p r =
     (case p r of Inl e \<Rightarrow> Inl (Wrapv errMalformedHello (Error e)) | Inr y \<Rightarrow> Inr y)"

fun ReadCapabilities :: "nat \<Rightarrow> CapabilityID list \<Rightarrow> Capability list \<Rightarrow> Capability list parser" where
  "ReadCapabilities 0 seen cs = ret cs"
| "ReadCapabilities (Suc n) seen cs =
     rbind (malformed ReadUint8) (\<lambda>cid.
     rbind (malformed ReadUint16) (\<lambda>minRev.
     rbind (malformed ReadUint16) (\<lambda>maxRev.
       if cid \<in> set seen
       then raise (Wrapv errMalformedHello (''duplicate capability 0x'' @ fmt_02X (unat cid)))
       else if minRev > maxRev
       then raise (Wrapv errMalformedHello (''capability 0x'' @ fmt_02X (unat cid) @ '' min > max''))
       else ReadCapabilities n (cid # seen)
              (cs @ [\<lparr>c_ID = cid, c_MinRevision = minRev, c_MaxRevision = maxRev\<rparr>]))))"

definition ReadHello :: "Hello parser" where
  "ReadHello =
     rbind (malformed ReadUint8) (\<lambda>role.
       if role > RoleVHandler
       then raise (Wrapv errMalformedHello (''invalid role '' @ fmt_d (unat role)))
       else
     rbind (malformed ReadUint16) (\<lambda>verLen.
       if unat verLen > maxHelloVersionLen
       then raise (Wrapv errMalformedHello (''software version too long ('' @ fmt_d (unat verLen) @
              '' bytes, max '' @ fmt_d maxHelloVersionLen @ '')''))
       else
     rbind (malformed (io_ReadFull (unat verLen))) (\<lambda>verBuf.
     rbind (malformed ReadUint16) (\<lambda>count.
       if unat count > maxHelloCapabilities
       then raise (Wrapv errMalformedHello (''too many capabilities ('' @ fmt_d (unat count) @
              '', max '' @ fmt_d maxHelloCapabilities @ '')''))
       else
     rbind (ReadCapabilities (unat count) [] []) (\<lambda>cs r.
       if rd_Len r \<noteq> 0
       then Inl (Wrapv errMalformedHello (fmt_d (rd_Len r) @ '' trailing bytes''))
       else Inr (\<lparr>h_Role = role, h_SoftwareVersion = string_of_bytes verBuf, h_Capabilities = cs\<rparr>, r))))))"

definition Hello_UnmarshalBinary :: "bytes \<Rightarrow> goerr + Hello" where
  "Hello_UnmarshalBinary data = run_body ReadHello data"

section \<open>The layout and the well-formed HELLOs\<close>

definition enc_cap :: "Capability \<Rightarrow> bytes" where
  "enc_cap c = enc_u8 (c_ID c) @ enc_u16 (c_MinRevision c) @ enc_u16 (c_MaxRevision c)"

definition enc_hello :: "Hello \<Rightarrow> bytes" where
  "enc_hello h = enc_u8 (h_Role h) @ enc_string (h_SoftwareVersion h) @
     enc_u16 (word_of_nat (length (h_Capabilities h))) @ concat (map enc_cap (h_Capabilities h))"

definition wf_caps :: "Capability list \<Rightarrow> bool" where
  "wf_caps cs \<longleftrightarrow> distinct (map c_ID cs) \<and> (\<forall>c \<in> set cs. c_MinRevision c \<le> c_MaxRevision c)"

definition wf_hello :: "Hello \<Rightarrow> bool" where
  "wf_hello h \<longleftrightarrow> h_Role h \<le> RoleVHandler \<and> length (h_SoftwareVersion h) \<le> maxHelloVersionLen
     \<and> length (h_Capabilities h) \<le> maxHelloCapabilities \<and> wf_caps (h_Capabilities h)"

lemma malformed_eq_Inr [simp]: "malformed p r = Inr y \<longleftrightarrow> p r = Inr y"
  by (simp add: malformed_def split: sum.splits)

lemma malformed_Inr: "p r = Inr y \<Longrightarrow> malformed p r = Inr y"
  by simp

lemma cap_eta [simp]:
  "\<lparr>c_ID = c_ID c, c_MinRevision = c_MinRevision c, c_MaxRevision = c_MaxRevision c\<rparr> = c"
  by (cases c) simp

lemma hello_eta [simp]:
  "\<lparr>h_Role = h_Role h, h_SoftwareVersion = h_SoftwareVersion h, h_Capabilities = h_Capabilities h\<rparr> = h"
  by (cases h) simp

lemma ReadCapabilities_enc:
  assumes "distinct (map c_ID cs)" and "\<forall>c \<in> set cs. c_MinRevision c \<le> c_MaxRevision c"
    and "set seen \<inter> c_ID ` set cs = {}"
  shows "ReadCapabilities (length cs) seen acc (Reader (concat (map enc_cap cs) @ rest) e) =
    Inr (acc @ cs, Reader rest e)"
  using assms
proof (induction cs arbitrary: seen acc)
  case Nil
  then show ?case by simp
next
  case (Cons c cs)
  have "ReadCapabilities (length cs) (c_ID c # seen) (acc @ [c]) (Reader (concat (map enc_cap cs) @ rest) e)
      = Inr ((acc @ [c]) @ cs, Reader rest e)"
    using Cons.prems by (intro Cons.IH) auto
  moreover have "\<not> c_MaxRevision c < c_MinRevision c" "c_ID c \<notin> set seen"
    using Cons.prems by auto
  ultimately show ?case
    by (simp add: rbind_def malformed_def enc_cap_def [of c] wire_simps)
qed

lemma ReadCapabilities_exact:
  "ReadCapabilities n seen acc r = Inr (cs', r') \<Longrightarrow>
     \<exists>cs. cs' = acc @ cs \<and> length cs = n \<and> rd_data r = concat (map enc_cap cs) @ rd_data r'
       \<and> rd_end r' = rd_end r \<and> wf_caps cs \<and> set seen \<inter> c_ID ` set cs = {}"
proof (induction n seen acc arbitrary: r rule: ReadCapabilities.induct)
  case (1 seen cs)
  then show ?case by (auto simp: wf_caps_def)
next
  case (2 n seen acc)
  then obtain i lo hi r1 r2 r3 where
    rd: "ReadUint8 r = Inr (i, r1)" "ReadUint16 r1 = Inr (lo, r2)" "ReadUint16 r2 = Inr (hi, r3)"
    and ok: "i \<notin> set seen" "lo \<le> hi"
    and rest: "ReadCapabilities n (i # seen)
        (acc @ [\<lparr>c_ID = i, c_MinRevision = lo, c_MaxRevision = hi\<rparr>]) r3 = Inr (cs', r')"
    by (auto simp: rbind_eq_Inr split: if_splits)
  let ?c = "\<lparr>c_ID = i, c_MinRevision = lo, c_MaxRevision = hi\<rparr>"
  from ok have "\<not> (i \<in> set seen)" "\<not> lo > hi" by auto
  from "2.IH" [OF this rest] obtain cs where cs: "cs' = (acc @ [?c]) @ cs" "length cs = n"
    "rd_data r3 = concat (map enc_cap cs) @ rd_data r'" "rd_end r' = rd_end r3" "wf_caps cs"
    "set (i # seen) \<inter> c_ID ` set cs = {}"
    by blast
  have "rd_data r = enc_cap ?c @ rd_data r3 \<and> rd_end r3 = rd_end r"
    using u8c.dec_exact [OF rd(1)] u16c.dec_exact [OF rd(2)] u16c.dec_exact [OF rd(3)]
    by (simp add: enc_cap_def)
  with cs ok show ?case
    by (intro exI [of _ "?c # cs"]) (auto simp: wf_caps_def)
qed

lemma wf_hello_fits:
  "wf_hello h \<Longrightarrow> fits16 (h_SoftwareVersion h) \<and> fits16 (h_Capabilities h)"
  by (simp add: wf_hello_def fits16_def)

lemma ReadHello_enc:
  assumes "wf_hello h"
  shows "ReadHello (Reader (enc_hello h) e) = Inr (h, Reader [] e)"
proof -
  have caps: "ReadCapabilities (length (h_Capabilities h)) [] []
      (Reader (concat (map enc_cap (h_Capabilities h))) e) = Inr (h_Capabilities h, Reader [] e)"
    using ReadCapabilities_enc [of "h_Capabilities h" "[]" "[]" "[]" e] assms
    by (simp add: wf_hello_def wf_caps_def)
  have "\<not> h_Role h > RoleVHandler"
    using assms by (auto simp: wf_hello_def not_less)
  moreover have "\<not> length (h_SoftwareVersion h) > 128" "\<not> length (h_Capabilities h) > 64"
    using assms by (simp_all add: wf_hello_def)
  ultimately show ?thesis
    using wf_hello_fits [OF assms] caps
    by (simp add: ReadHello_def enc_hello_def enc_string_def rbind_def malformed_def rd_Len_def wire_simps)
qed

lemma ReadHello_exact:
  assumes "ReadHello r = Inr (h, r')"
  shows "rd_data r = enc_hello h \<and> wf_hello h"
proof -
  from assms obtain role n buf count cs r1 r2 r3 r4 where
    rd: "ReadUint8 r = Inr (role, r1)" "ReadUint16 r1 = Inr (n, r2)"
      "io_ReadFull (unat n) r2 = Inr (buf, r3)" "ReadUint16 r3 = Inr (count, r4)"
      "ReadCapabilities (unat count) [] [] r4 = Inr (cs, r')"
    and bounds: "role \<le> RoleVHandler" "unat n \<le> 128" "unat count \<le> 64" "rd_data r' = []"
    and h: "h = \<lparr>h_Role = role, h_SoftwareVersion = string_of_bytes buf, h_Capabilities = cs\<rparr>"
    by (auto simp: ReadHello_def rbind_eq_Inr rd_Len_def split: if_splits)
  from ReadCapabilities_exact [OF rd(5)] have
    "length cs = unat count" "rd_data r4 = concat (map enc_cap cs)" "wf_caps cs"
    using bounds(4) by auto
  moreover have "rd_data r2 = buf @ rd_data r3" "length buf = unat n"
    using rd(3) by (auto simp: io_ReadFull_eq_Inr)
  ultimately show ?thesis
    using u8c.dec_exact [OF rd(1)] u16c.dec_exact [OF rd(2)] u16c.dec_exact [OF rd(4)] bounds
    by (simp add: h enc_hello_def enc_string_def wf_hello_def)
qed

lemma Hello_UnmarshalBinary_iff:
  "Hello_UnmarshalBinary data = Inr h \<longleftrightarrow> data = enc_hello h \<and> wf_hello h"
  by (auto simp: Hello_UnmarshalBinary_def run_body_eq_Inr ReadHello_enc dest: ReadHello_exact)

text \<open>
  C6. The HELLO decoder is strict: it accepts a body exactly when the body is the
  wire layout of a HELLO with a role of the enumeration, a version of at most 128
  bytes, at most 64 capabilities with distinct IDs and non-empty revision ranges,
  and nothing after it.
\<close>

theorem Hello_UnmarshalBinary_exact:
  "Hello_UnmarshalBinary data = Inr h \<longleftrightarrow>
     data = enc_hello h \<and> h_Role h \<le> RoleVHandler
     \<and> length (h_SoftwareVersion h) \<le> maxHelloVersionLen
     \<and> length (h_Capabilities h) \<le> maxHelloCapabilities
     \<and> distinct (map c_ID (h_Capabilities h))
     \<and> list_all (\<lambda>c. c_MinRevision c \<le> c_MaxRevision c) (h_Capabilities h)"
  by (simp add: Hello_UnmarshalBinary_iff wf_hello_def wf_caps_def list_all_iff)

section \<open>Errors of the decoder\<close>

abbreviation "is_malformed \<equiv> \<lambda>e. errors_Is e errMalformedHello"

lemma fails_malformed [fails_intros]: "fails_only is_malformed (malformed p)"
  by (auto simp: fails_only_def malformed_def split: sum.splits)

lemma fails_ReadCapabilities [fails_intros]:
  "fails_only is_malformed (ReadCapabilities n seen cs)"
  by (induction n seen cs rule: ReadCapabilities.induct) (auto intro!: fails_intros)

lemma fails_trailing [fails_intros]:
  "fails_only is_malformed
     (\<lambda>r. if rd_Len r \<noteq> 0 then Inl (Wrapv errMalformedHello (t r)) else Inr (h, r))"
  by (simp add: fails_only_def)

lemma fails_ReadHello: "fails_only is_malformed ReadHello"
  unfolding ReadHello_def by (intro fails_intros) simp_all

text \<open>
  Every failure of the HELLO decoder, a short read or a failed validation, is
  an \<open>errMalformedHello\<close> in the sense of \<^verbatim>\<open>errors.Is\<close>, which is what
  the handshake relies on to answer with an ERROR frame.
\<close>

lemma Hello_UnmarshalBinary_error:
  assumes "Hello_UnmarshalBinary data = Inl e"
  shows "errors_Is e errMalformedHello"
  using assms run_body_fails [OF fails_ReadHello] by (simp add: Hello_UnmarshalBinary_def)

section \<open>The encoder\<close>

lemma WriteCapabilities_buffer:
  "wr_errs w = [] \<Longrightarrow> fst (WriteCapabilities cs w) = None \<longleftrightarrow>
     (\<forall>c \<in> set cs. c_MinRevision c \<le> c_MaxRevision c)"
  by (induction cs arbitrary: w)
    (auto simp: wdone_def wthen_alt WriteUint8_def WriteUint16_def io_Write_def not_less)

lemma emits_caps:
  "\<forall>c \<in> set cs. c_MinRevision c \<le> c_MaxRevision c \<Longrightarrow>
     emits (WriteCapabilities cs) (concat (map enc_cap cs))"
proof (induction cs)
  case Nil
  then show ?case by (simp add: emits_done)
next
  case (Cons c cs)
  then have "emits (WriteCapabilities cs) (concat (map enc_cap cs))" by simp
  then have "emits (WriteCapabilities (c # cs)) (enc_u8 (c_ID c) @ enc_u16 (c_MinRevision c) @
      enc_u16 (c_MaxRevision c) @ concat (map enc_cap cs))"
    using Cons.prems by (auto simp: not_less intro!: emits_intros)
  then show ?case by (simp add: enc_cap_def [of c])
qed

lemma set_sort_by_ID [simp]: "set (sort_by_ID cs) = set cs"
  by (simp add: sort_by_ID_def)

lemma length_sort_by_ID [simp]: "length (sort_by_ID cs) = length cs"
  by (simp add: sort_by_ID_def)

lemma distinct_sort_by_ID [simp]: "distinct (map c_ID (sort_by_ID cs)) \<longleftrightarrow> distinct (map c_ID cs)"
  by (metis mset_eq_imp_distinct_iff mset_map mset_sort sort_by_ID_def)

lemma sorted_sort_by_ID [simp]: "sorted (map c_ID (sort_by_ID cs))"
  by (simp add: sort_by_ID_def)

text \<open>The HELLO as it goes on the wire: the capabilities sorted.\<close>

definition sorted_hello :: "Hello \<Rightarrow> Hello" where
  "sorted_hello h = h\<lparr>h_Capabilities := sort_by_ID (h_Capabilities h)\<rparr>"

lemma Marshal_Inr_iff:
  "Hello_MarshalBinary h = Inr b \<longleftrightarrow>
     h_Role h \<noteq> RoleUnknown \<and> h_Role h \<le> RoleVHandler
     \<and> length (h_SoftwareVersion h) \<le> maxHelloVersionLen
     \<and> length (h_Capabilities h) \<le> maxHelloCapabilities
     \<and> (\<forall>c \<in> set (h_Capabilities h). c_MinRevision c \<le> c_MaxRevision c)
     \<and> b = enc_hello (sorted_hello h)"
proof (cases "\<forall>c \<in> set (h_Capabilities h). c_MinRevision c \<le> c_MaxRevision c")
  case True
  then have "emits (WriteCapabilities (sort_by_ID (h_Capabilities h)))
      (concat (map enc_cap (sort_by_ID (h_Capabilities h))))"
    by (intro emits_caps) simp
  then have "emits (wthen (WriteUint8 (h_Role h)) (wthen (WriteString (h_SoftwareVersion h))
      (wthen (WriteUint16 (word_of_nat (length (sort_by_ID (h_Capabilities h)))))
        (WriteCapabilities (sort_by_ID (h_Capabilities h)))))) (enc_hello (sorted_hello h))"
    unfolding enc_hello_def by (auto simp: sorted_hello_def intro!: emits_intros)
  from Marshal_emits [OF this] True show ?thesis
    by (auto simp: Hello_MarshalBinary_def Let_def not_less)
next
  case False
  let ?f = "wthen (WriteUint8 (h_Role h)) (wthen (WriteString (h_SoftwareVersion h))
      (wthen (WriteUint16 (word_of_nat (length (sort_by_ID (h_Capabilities h)))))
        (WriteCapabilities (sort_by_ID (h_Capabilities h)))))"
  have "fst (?f new_Buffer) \<noteq> None"
    using False WriteCapabilities_buffer [of _ "sort_by_ID (h_Capabilities h)"]
    by (simp add: wthen_alt WriteUint8_def WriteUint16_def WriteString_def io_Write_def new_Buffer_def)
  then have "Marshal ?f \<noteq> Inr b"
    by (auto simp: Marshal_def split: prod.splits option.splits)
  with False show ?thesis
    by (auto simp: Hello_MarshalBinary_def Let_def)
qed

lemma wf_sorted_hello:
  "Hello_MarshalBinary h = Inr b \<Longrightarrow> distinct (map c_ID (h_Capabilities h)) \<Longrightarrow>
     wf_hello (sorted_hello h) \<and> b = enc_hello (sorted_hello h)"
  by (simp add: Marshal_Inr_iff wf_hello_def wf_caps_def sorted_hello_def)

text \<open>
  C36. Whatever HELLO the encoder accepts, the decoder returns it with its
  capabilities sorted by ID, provided that the IDs are distinct.
\<close>

theorem Hello_roundtrip:
  assumes "Hello_MarshalBinary h = Inr b" and "distinct (map c_ID (h_Capabilities h))"
  shows "Hello_UnmarshalBinary b = Inr (h\<lparr>h_Capabilities := sort_by_ID (h_Capabilities h)\<rparr>)"
proof -
  have "wf_hello (sorted_hello h)" "b = enc_hello (sorted_hello h)"
    using assms by (simp_all add: Marshal_Inr_iff wf_hello_def wf_caps_def sorted_hello_def)
  then show ?thesis
    by (simp add: Hello_UnmarshalBinary_def run_body_eq_Inr ReadHello_enc flip: sorted_hello_def)
qed

theorem Hello_roundtrip_witness:
  "Hello_UnmarshalBinary [1, 0, 1, 0x39, 0, 1, 6, 0, 1, 0, 1] =
     Inr \<lparr>h_Role = 1, h_SoftwareVersion = ''9'',
          h_Capabilities = [\<lparr>c_ID = 6, c_MinRevision = 1, c_MaxRevision = 1\<rparr>]\<rparr>"
proof -
  let ?h = "\<lparr>h_Role = 1, h_SoftwareVersion = ''9'',
          h_Capabilities = [\<lparr>c_ID = 6, c_MinRevision = 1, c_MaxRevision = 1\<rparr>]\<rparr>"
  have "Hello_MarshalBinary ?h = Inr [1, 0, 1, 0x39, 0, 1, 6, 0, 1, 0, 1]"
    by code_simp
  moreover have "distinct (map c_ID (h_Capabilities ?h))"
    by simp
  ultimately show ?thesis
    by (drule_tac Hello_roundtrip) (simp_all add: sort_by_ID_def)
qed

section \<open>Tables and the HELLO built from them\<close>

definition cap_of :: "CapabilityID \<times> CapabilitySupport \<Rightarrow> Capability" where
  "cap_of p = \<lparr>c_ID = fst p, c_MinRevision = MinRevision (snd p), c_MaxRevision = MaxRevision (snd p)\<rparr>"

definition entry_of :: "Capability \<Rightarrow> CapabilityID \<times> CapabilitySupport" where
  "entry_of c = (c_ID c, \<lparr>MinRevision = c_MinRevision c, MaxRevision = c_MaxRevision c\<rparr>)"

lemma entry_cap [simp]: "entry_of (cap_of p) = p"
  by (cases p) (simp add: cap_of_def entry_of_def)

lemma c_ID_cap_of [simp]: "c_ID (cap_of p) = fst p"
  by (simp add: cap_of_def)

lemma fst_entry_of [simp]: "fst (entry_of c) = c_ID c"
  by (simp add: entry_of_def)

lemma NewHello_alt:
  "NewHello role v caps =
     \<lparr>h_Role = role, h_SoftwareVersion = v, h_Capabilities = sort_by_ID (map cap_of caps)\<rparr>"
  by (simp add: NewHello_def cap_of_def [abs_def] case_prod_beta')

lemma advertised_loop_distinct:
  "distinct (map fst out @ map c_ID cs) \<Longrightarrow> advertised_loop cs out = out @ map entry_of cs"
proof (induction cs arbitrary: out)
  case Nil
  then show ?case by simp
next
  case (Cons c cs)
  then have "AList.update (c_ID c) (snd (entry_of c)) out = out @ [entry_of c]"
    by (simp add: update_new entry_of_def)
  moreover have "advertised_loop cs (out @ [entry_of c]) = (out @ [entry_of c]) @ map entry_of cs"
    using Cons.prems by (intro Cons.IH) auto
  ultimately show ?case
    by (simp add: entry_of_def)
qed

lemma advertised_distinct:
  "distinct (map c_ID (h_Capabilities h)) \<Longrightarrow> advertised h = map entry_of (h_Capabilities h)"
  by (simp add: advertised_def advertised_loop_distinct)

lemma wf_advertised_loop: "wf_gomap out \<Longrightarrow> wf_gomap (advertised_loop cs out)"
  by (induction cs arbitrary: out) auto

lemma wf_advertised [simp]: "wf_gomap (advertised h)"
  by (simp add: advertised_def wf_advertised_loop)

lemma distinct_NewHello:
  "wf_gomap caps \<Longrightarrow> distinct (map c_ID (h_Capabilities (NewHello role v caps)))"
  by (simp add: NewHello_alt wf_gomap_def comp_def)

lemma map_of_advertised_NewHello:
  assumes "wf_gomap caps"
  shows "map_of (advertised (NewHello role v caps)) = map_of caps"
proof -
  have adv: "advertised (NewHello role v caps) = map entry_of (sort_by_ID (map cap_of caps))"
    using advertised_distinct [OF distinct_NewHello [OF assms]] by (simp add: NewHello_alt)
  have "set (map entry_of (sort_by_ID (map cap_of caps))) = set caps"
    by (simp add: image_image)
  moreover have "distinct (map fst (map entry_of (sort_by_ID (map cap_of caps))))"
    using distinct_NewHello [OF assms, of role v] by (simp add: NewHello_alt comp_def)
  moreover have "distinct (map fst caps)"
    using assms by (simp add: wf_gomap_def)
  ultimately show ?thesis
    unfolding adv by (subst map_of_inject_set) auto
qed

text \<open>
  C37. A HELLO built from a capability table is on the wire in one form only,
  whatever the iteration order of the map: two tables with the same entries give
  the same HELLO, sorted by ID, and the table read back from it is the original.
\<close>

theorem NewHello_deterministic:
  assumes "wf_gomap caps" and "wf_gomap caps'" and "set caps = set caps'"
  shows "NewHello role v caps = NewHello role v caps'
    \<and> sorted (map c_ID (h_Capabilities (NewHello role v caps)))
    \<and> map_of (advertised (NewHello role v caps)) = map_of caps"
proof -
  have "mset caps = mset caps'"
    using assms set_eq_iff_mset_eq_distinct [of caps caps']
    by (simp add: wf_gomap_def distinct_map)
  then have "mset (map cap_of caps) = mset (sort_by_ID (map cap_of caps'))"
    by (simp add: sort_by_ID_def)
  moreover have "inj_on c_ID (set (map cap_of caps))"
    using assms(1) by (force simp: wf_gomap_def distinct_map inj_on_def)
  ultimately have "sort_by_ID (map cap_of caps) = sort_by_ID (map cap_of caps')"
    unfolding sort_by_ID_def by (intro sort_key_inj_key_eq) simp_all
  then have "NewHello role v caps = NewHello role v caps'"
    by (simp add: NewHello_alt)
  moreover have "sorted (map c_ID (h_Capabilities (NewHello role v caps)))"
    by (simp add: NewHello_alt)
  ultimately show ?thesis
    using map_of_advertised_NewHello [OF assms(1), of role v] by blast
qed

theorem NewHello_deterministic_witness:
  "NewHello 1 ''x'' DefaultCapabilities = NewHello 1 ''x'' (rev DefaultCapabilities)"
proof -
  have "wf_gomap DefaultCapabilities"
    by (simp add: DefaultCapabilities_def)
  moreover from this have "wf_gomap (rev DefaultCapabilities)"
    by (simp add: wf_gomap_def rev_map [symmetric])
  ultimately show ?thesis
    using NewHello_deterministic [of DefaultCapabilities "rev DefaultCapabilities" 1 "''x''"] by simp
qed

end
