(* ===== verification/Handshake.thy ===== *)
theory Handshake
  imports Hello
begin

text \<open>
  The MVCP handshake of \<^verbatim>\<open>protocol/handshake.go\<close> and the console
  handshake of \<^verbatim>\<open>protocol/conn.go\<close>. A connection is its reader, its
  writer and its deadline; \<^verbatim>\<open>SetDeadline\<close> may be missing or fail. The
  theorems say that two peers that run the two sides against each other agree, that
  a wire-level failure is never answered with an ERROR frame, which ERROR frame
  each rejection sends, and that the handshake deadline is always cleared.
\<close>

section \<open>Connections\<close>

record Conn =
  cn_rd :: reader
  cn_wr :: writer
  cn_deadliner :: bool
  cn_dl_errs :: "goerr option list"
  cn_deadline :: "nat option"

definition SetDeadline :: "nat option \<Rightarrow> Conn \<Rightarrow> goerr option \<times> Conn" where
  "SetDeadline t c =
     (case cn_dl_errs c of
        [] \<Rightarrow> (None, c\<lparr>cn_deadline := t\<rparr>)
      | None # es \<Rightarrow> (None, c\<lparr>cn_deadline := t, cn_dl_errs := es\<rparr>)
      | Some e # es \<Rightarrow> (Some e, c\<lparr>cn_dl_errs := es\<rparr>))"

definition conn_write :: "wop \<Rightarrow> Conn \<Rightarrow> goerr option \<times> Conn" where
  "conn_write f c = (case f (cn_wr c) of (r, w) \<Rightarrow> (r, c\<lparr>cn_wr := w\<rparr>))"

definition conn_read :: "'a parser \<Rightarrow> Conn \<Rightarrow> (goerr + 'a) \<times> Conn" where
  "conn_read p c =
     (case p (cn_rd c) of Inl e \<Rightarrow> (Inl e, c) | Inr (x, r) \<Rightarrow> (Inr x, c\<lparr>cn_rd := r\<rparr>))"

section \<open>conn.go: the VPP handshake\<close>

definition VPPVersion :: uint8 where
  [simp]: "VPPVersion = 0x01"

definition vppMagicSize :: nat where
  [simp]: "vppMagicSize = 3"

definition vppMagic :: bytes where
  "vppMagic = bytes_of_string ''VPP''"

definition WriteVPPHandshake :: wop where
  "WriteVPPHandshake = io_Write (bytes_of_string ''VPP'' @ [VPPVersion])"

definition ValidateVPPHandshake :: "unit parser" where
  "ValidateVPPHandshake = rbind (io_ReadFull 4) (\<lambda>buf.
     if take vppMagicSize buf \<noteq> vppMagic \<or> buf ! vppMagicSize \<noteq> VPPVersion
     then raise ErrBadVPPHandshake else ret ())"

section \<open>The wire prefix\<close>

definition mvcpVersion :: uint8 where
  [simp]: "mvcpVersion = 0x01"

definition mvcpMagicSize :: nat where
  [simp]: "mvcpMagicSize = 4"

definition mvcpMagic :: bytes where
  "mvcpMagic = bytes_of_string ''MVCP''"

definition writeMVCPPrefix :: wop where
  "writeMVCPPrefix = io_Write (bytes_of_string ''MVCP'' @ [mvcpVersion])"

definition validateMVCPPrefix :: "unit parser" where
  "validateMVCPPrefix = rbind (io_ReadFull 5) (\<lambda>buf.
     if take mvcpMagicSize buf \<noteq> mvcpMagic then raise ErrBadMVCPMagic
     else if buf ! mvcpMagicSize \<noteq> mvcpVersion then raise ErrUnsupportedMVCPVersion
     else ret ())"

section \<open>Pieces of the handshake\<close>

definition writeHandshakeError :: "uint16 \<Rightarrow> string \<Rightarrow> wop" where
  "writeHandshakeError code message =
     (case Marshal (wthen (WriteUint16 code) (WriteString message)) of
        Inl e \<Rightarrow> (\<lambda>w. (Some e, w))
      | Inr body \<Rightarrow> WriteMVCPFrame \<lparr>f_Type = TypeERROR, f_Flags = FlagResponse, f_MsgID = 0, f_Body = body\<rparr>)"

text \<open>Two seconds, in nanoseconds as \<^verbatim>\<open>time.Duration\<close> counts.\<close>

definition HandshakeTimeout :: nat where
  "HandshakeTimeout = 2 * 1000000000"

definition withHandshakeDeadline :: "nat \<Rightarrow> Conn \<Rightarrow> goerr option \<times> Conn" where
  "withHandshakeDeadline now c =
     (if \<not> cn_deadliner c then (Some errHandshakeDeadlineRequired, c)
      else case SetDeadline (Some (now + HandshakeTimeout)) c of
             (Some e, c') \<Rightarrow> (Some (Errorw ''mvcp: set handshake deadline'' e), c')
           | (None, c') \<Rightarrow> (None, c'))"

text \<open>The clear function that the handshakes defer; its error is ignored.\<close>

definition clear :: "Conn \<Rightarrow> Conn" where
  "clear c = snd (SetDeadline None c)"

definition readPeerHello :: "Hello parser" where
  "readPeerHello =
     rbind validateMVCPPrefix (\<lambda>_.
     rbind ReadMVCPFrame (\<lambda>frame.
       if f_Type frame \<noteq> TypeHELLO
       then raise (Wrapv errMalformedHello (''expected HELLO, got 0x'' @ fmt_02X (unat (f_Type frame))))
       else case Hello_UnmarshalBinary (f_Body frame) of Inl e \<Rightarrow> raise e | Inr h \<Rightarrow> ret h))"

fun roleAccepted :: "PeerRole \<Rightarrow> PeerRole list \<Rightarrow> bool" where
  "roleAccepted role [] = False"
| "roleAccepted role (r # roles) = (if role = r then True else roleAccepted role roles)"

definition unexpected_role_msg :: "Hello \<Rightarrow> string" where
  "unexpected_role_msg peer = ''unexpected peer role '' @ fmt_d (unat (h_Role peer))"

definition hello_frame :: "bytes \<Rightarrow> Frame" where
  "hello_frame body = \<lparr>f_Type = TypeHELLO, f_Flags = 0, f_MsgID = 0, f_Body = body\<rparr>"

section \<open>ServerHandshake\<close>

text \<open>The exchange between arming the deadline and the deferred clear.\<close>

definition server_exchange ::
  "Conn \<Rightarrow> Hello \<Rightarrow> PeerRole list \<Rightarrow> Requirements \<Rightarrow> (goerr + (Hello \<times> NegotiatedCapabilities)) \<times> Conn"
where
  "server_exchange c local acceptRoles reqs =
     (case conn_write writeMVCPPrefix c of
        (Some e, c1) \<Rightarrow> (Inl (Errorw ''mvcp: server handshake: write prefix'' e), c1)
      | (None, c1) \<Rightarrow>
     (case Hello_MarshalBinary local of
        Inl e \<Rightarrow> (Inl (Errorw ''mvcp: server handshake: encode hello'' e), c1)
      | Inr body \<Rightarrow>
     (case conn_write (WriteMVCPFrame (hello_frame body)) c1 of
        (Some e, c2) \<Rightarrow> (Inl (Errorw ''mvcp: server handshake: write hello'' e), c2)
      | (None, c2) \<Rightarrow>
     (case conn_read readPeerHello c2 of
        (Inl e, c3) \<Rightarrow>
          (Inl (Errorw ''mvcp: server handshake: read peer hello'' e),
           if errors_Is e errMalformedHello
           then snd (conn_write (writeHandshakeError ErrorCodeBadPayload (Error e)) c3) else c3)
      | (Inr peer, c3) \<Rightarrow>
          if \<not> roleAccepted (h_Role peer) acceptRoles
          then (let msg = unexpected_role_msg peer in
                (Inl (HandshakeError ErrorCodeUnexpectedRole msg),
                 snd (conn_write (writeHandshakeError ErrorCodeUnexpectedRole msg) c3)))
          else (let negotiated = Negotiate (advertised peer) (advertised local) in
            case Check reqs negotiated of
              Some e \<Rightarrow> (Inl (HandshakeError ErrorCodeNoCommonCapability (Error e)),
                 snd (conn_write (writeHandshakeError ErrorCodeNoCommonCapability (Error e)) c3))
            | None \<Rightarrow> (Inr (peer, negotiated), c3))))))"

definition ServerHandshake ::
  "nat \<Rightarrow> Conn \<Rightarrow> Hello \<Rightarrow> PeerRole list \<Rightarrow> Requirements \<Rightarrow>
     (goerr + (Hello \<times> NegotiatedCapabilities)) \<times> Conn"
where
  "ServerHandshake now c local acceptRoles reqs =
     (case withHandshakeDeadline now c of
        (Some e, c0) \<Rightarrow> (Inl e, c0)
      | (None, c0) \<Rightarrow>
          (case server_exchange c0 local acceptRoles reqs of (res, c') \<Rightarrow> (res, clear c')))"

section \<open>ClientHandshake\<close>

definition client_exchange ::
  "Conn \<Rightarrow> Hello \<Rightarrow> PeerRole list \<Rightarrow> Requirements \<Rightarrow> (goerr + (Hello \<times> NegotiatedCapabilities)) \<times> Conn"
where
  "client_exchange c local expectRoles reqs =
     (case conn_read readPeerHello c of
        (Inl e, c1) \<Rightarrow> (Inl (Errorw ''mvcp: client handshake: read peer hello'' e), c1)
      | (Inr peer, c1) \<Rightarrow>
          if \<not> roleAccepted (h_Role peer) expectRoles
          then (Inl (HandshakeError ErrorCodeUnexpectedRole (unexpected_role_msg peer)), c1)
          else
     (case conn_write writeMVCPPrefix c1 of
        (Some e, c2) \<Rightarrow> (Inl (Errorw ''mvcp: client handshake: write prefix'' e), c2)
      | (None, c2) \<Rightarrow>
     (case Hello_MarshalBinary local of
        Inl e \<Rightarrow> (Inl (Errorw ''mvcp: client handshake: encode hello'' e), c2)
      | Inr body \<Rightarrow>
     (case conn_write (WriteMVCPFrame (hello_frame body)) c2 of
        (Some e, c3) \<Rightarrow> (Inl (Errorw ''mvcp: client handshake: write hello'' e), c3)
      | (None, c3) \<Rightarrow>
          (let negotiated = Negotiate (advertised peer) (advertised local) in
            case Check reqs negotiated of
              Some e \<Rightarrow> (Inl (HandshakeError ErrorCodeNoCommonCapability (Error e)),
                 snd (conn_write (writeHandshakeError ErrorCodeNoCommonCapability (Error e)) c3))
            | None \<Rightarrow> (Inr (peer, negotiated), c3))))))"

definition ClientHandshake ::
  "nat \<Rightarrow> Conn \<Rightarrow> Hello \<Rightarrow> PeerRole list \<Rightarrow> Requirements \<Rightarrow>
     (goerr + (Hello \<times> NegotiatedCapabilities)) \<times> Conn"
where
  "ClientHandshake now c local expectRoles reqs =
     (case withHandshakeDeadline now c of
        (Some e, c0) \<Rightarrow> (Inl e, c0)
      | (None, c0) \<Rightarrow>
          (case client_exchange c0 local expectRoles reqs of (res, c') \<Rightarrow> (res, clear c')))"

section \<open>Basic facts\<close>

lemma roleAccepted_iff [simp]: "roleAccepted role roles \<longleftrightarrow> role \<in> set roles"
  by (induction roles) auto

text \<open>What a side puts on the wire to introduce itself.\<close>

definition prefix_bytes :: bytes where
  "prefix_bytes = bytes_of_string ''MVCP'' @ [mvcpVersion]"

definition intro_writes :: "bytes \<Rightarrow> bytes list" where
  "intro_writes body = [prefix_bytes, EncodeMVCPFrame (hello_frame body)]"

lemma length_prefix [simp]: "length prefix_bytes = 5"
  by (simp add: prefix_bytes_def)

lemma validate_prefix [simp]:
  "validateMVCPPrefix (Reader (prefix_bytes @ rest) e) = Inr ((), Reader rest e)"
  by (simp add: validateMVCPPrefix_def rbind_def io_ReadFull_append)
    (simp add: prefix_bytes_def mvcpMagic_def nth_append)

lemma validate_prefix_exact:
  assumes "validateMVCPPrefix r = Inr (u, r')"
  shows "rd_data r = prefix_bytes @ rd_data r' \<and> rd_end r' = rd_end r"
proof -
  from assms obtain buf where buf: "length buf = 5" "rd_data r = buf @ rd_data r'" "rd_end r' = rd_end r"
    and magic: "take 4 buf = mvcpMagic" "buf ! 4 = 1"
    by (auto simp: validateMVCPPrefix_def rbind_eq_Inr io_ReadFull_eq_Inr split: if_splits)
  have "buf = take 4 buf @ [buf ! 4]"
    using buf(1) by (metis append_take_drop_id drop_eq_Nil2 id_take_nth_drop lessI
        numeral_plus_one semiring_norm(5) Suc_eq_plus1 order_refl append.right_neutral)
  then have "buf = prefix_bytes"
    using magic by (simp add: prefix_bytes_def mvcpMagic_def)
  with buf show ?thesis by simp
qed

definition error_frame :: "uint16 \<Rightarrow> string \<Rightarrow> Frame" where
  "error_frame code message =
     \<lparr>f_Type = TypeERROR, f_Flags = FlagResponse, f_MsgID = 0, f_Body = enc_u16 code @ enc_string message\<rparr>"

lemma writeHandshakeError_frame: "writeHandshakeError code m = WriteMVCPFrame (error_frame code m)"
proof -
  have "Marshal (wthen (WriteUint16 code) (WriteString m)) = Inr (enc_u16 code @ enc_string m)"
    by (intro Marshal_emits emits_intros)
  then show ?thesis
    by (simp add: writeHandshakeError_def error_frame_def)
qed

lemma conn_write_good [simp]:
  "wr_errs (cn_wr c) = [] \<Longrightarrow>
     conn_write (io_Write b) c = (None, c\<lparr>cn_wr := Writer (wr_log (cn_wr c) @ [b]) []\<rparr>)"
  by (simp add: conn_write_def io_Write_def)

lemma length_enc_cap: "length (concat (map enc_cap cs)) = 5 * length cs"
  by (induction cs) (simp_all add: enc_cap_def)

lemma wf_hello_frame: "wf_hello h \<Longrightarrow> wf_frame (hello_frame (enc_hello h))"
  by (simp add: wf_hello_def wf_frame_def hello_frame_def enc_hello_def length_enc_cap)

lemma readPeerHello_intro:
  assumes "wf_hello h"
  shows "readPeerHello (Reader (concat (intro_writes (enc_hello h)) @ rest) e) = Inr (h, Reader rest e)"
proof -
  have "Hello_UnmarshalBinary (enc_hello h) = Inr h"
    using assms by (simp add: Hello_UnmarshalBinary_def run_body_eq_Inr ReadHello_enc)
  then show ?thesis
    using mvcpf.dec_enc [OF wf_hello_frame [OF assms], of rest e]
    by (simp add: readPeerHello_def intro_writes_def rbind_def) (simp add: hello_frame_def)
qed

section \<open>What each side decides and answers\<close>

text \<open>
  The abstract view of the two sides: from the outcome of reading the peer's
  introduction, the result of the handshake and the ERROR frames sent back.
\<close>

definition verdict ::
  "Hello \<Rightarrow> PeerRole list \<Rightarrow> Requirements \<Rightarrow> Hello \<Rightarrow> (goerr + (Hello \<times> NegotiatedCapabilities)) \<times> Frame list"
where
  "verdict local roles reqs peer =
     (if h_Role peer \<notin> set roles
      then (Inl (HandshakeError ErrorCodeUnexpectedRole (unexpected_role_msg peer)),
            [error_frame ErrorCodeUnexpectedRole (unexpected_role_msg peer)])
      else case Check reqs (Negotiate (advertised peer) (advertised local)) of
             Some e \<Rightarrow> (Inl (HandshakeError ErrorCodeNoCommonCapability (Error e)),
                        [error_frame ErrorCodeNoCommonCapability (Error e)])
           | None \<Rightarrow> (Inr (peer, Negotiate (advertised peer) (advertised local)), []))"

definition server_answer ::
  "Hello \<Rightarrow> PeerRole list \<Rightarrow> Requirements \<Rightarrow> goerr + (Hello \<times> reader) \<Rightarrow>
     (goerr + (Hello \<times> NegotiatedCapabilities)) \<times> Frame list"
where
  "server_answer local roles reqs x =
     (case x of
        Inl e \<Rightarrow> (Inl (Errorw ''mvcp: server handshake: read peer hello'' e),
                  if errors_Is e errMalformedHello then [error_frame ErrorCodeBadPayload (Error e)] else [])
      | Inr (peer, r) \<Rightarrow> verdict local roles reqs peer)"

text \<open>A connection whose writes and deadlines work.\<close>

definition good_conn :: "Conn \<Rightarrow> bool" where
  "good_conn c \<longleftrightarrow> wr_errs (cn_wr c) = [] \<and> cn_deadliner c \<and> cn_dl_errs c = []"

definition reader_after :: "reader \<Rightarrow> goerr + ('a \<times> reader) \<Rightarrow> reader" where
  "reader_after r x = (case x of Inl e \<Rightarrow> r | Inr (y, r') \<Rightarrow> r')"

lemma with_deadline_good:
  "good_conn c \<Longrightarrow> withHandshakeDeadline now c = (None, c\<lparr>cn_deadline := Some (now + HandshakeTimeout)\<rparr>)"
  by (simp add: good_conn_def withHandshakeDeadline_def SetDeadline_def)

lemma ServerHandshake_eq:
  assumes "good_conn c" and "Hello_MarshalBinary local = Inr body"
  shows "ServerHandshake now c local roles reqs =
    (let x = readPeerHello (cn_rd c); (res, fs) = server_answer local roles reqs x in
     (res, c\<lparr>cn_rd := reader_after (cn_rd c) x,
            cn_wr := Writer (wr_log (cn_wr c) @ intro_writes body @ map EncodeMVCPFrame fs) [],
            cn_deadline := None\<rparr>))"
proof -
  have [simp]: "wr_errs (cn_wr c) = []" "cn_dl_errs c = []"
    using assms(1) by (simp_all add: good_conn_def)
  show ?thesis
    by (cases "readPeerHello (cn_rd c)")
      (auto simp: ServerHandshake_def with_deadline_good assms server_exchange_def writeMVCPPrefix_def
        WriteMVCPFrame_def conn_read_def clear_def SetDeadline_def Let_def server_answer_def verdict_def
        writeHandshakeError_frame intro_writes_def prefix_bytes_def reader_after_def
        split: option.splits)
qed

definition client_answer ::
  "Hello \<Rightarrow> PeerRole list \<Rightarrow> Requirements \<Rightarrow> bytes \<Rightarrow> goerr + (Hello \<times> reader) \<Rightarrow>
     (goerr + (Hello \<times> NegotiatedCapabilities)) \<times> bytes list"
where
  "client_answer local roles reqs body x =
     (case x of
        Inl e \<Rightarrow> (Inl (Errorw ''mvcp: client handshake: read peer hello'' e), [])
      | Inr (peer, r) \<Rightarrow>
          (case verdict local roles reqs peer of (res, fs) \<Rightarrow>
             (res, if h_Role peer \<in> set roles then intro_writes body @ map EncodeMVCPFrame fs else [])))"

lemma ClientHandshake_eq:
  assumes "good_conn c" and "Hello_MarshalBinary local = Inr body"
  shows "ClientHandshake now c local roles reqs =
    (let x = readPeerHello (cn_rd c); (res, ws) = client_answer local roles reqs body x in
     (res, c\<lparr>cn_rd := reader_after (cn_rd c) x, cn_wr := Writer (wr_log (cn_wr c) @ ws) [],
            cn_deadline := None\<rparr>))"
proof -
  have [simp]: "wr_errs (cn_wr c) = []" "cn_dl_errs c = []"
    using assms(1) by (simp_all add: good_conn_def)
  have w: "Writer (wr_log (cn_wr c)) [] = cn_wr c"
    by (cases "cn_wr c") (metis \<open>wr_errs (cn_wr c) = []\<close> writer.sel)
  show ?thesis
    by (cases "readPeerHello (cn_rd c)")
      (auto simp: ClientHandshake_def with_deadline_good assms client_exchange_def writeMVCPPrefix_def
        WriteMVCPFrame_def conn_read_def clear_def SetDeadline_def Let_def client_answer_def verdict_def
        writeHandshakeError_frame intro_writes_def prefix_bytes_def reader_after_def w
        split: option.splits)
qed

section \<open>Two peers against each other\<close>

lemma Check_cong: "map_of n = map_of n' \<Longrightarrow> Check reqs n = Check reqs n'"
  by (induction reqs n rule: Check.induct) (simp split: option.split)+

lemma map_of_advertised_sorted:
  assumes "distinct (map c_ID (h_Capabilities h))"
  shows "map_of (advertised (sorted_hello h)) = map_of (advertised h)"
proof -
  have "set (advertised (sorted_hello h)) = set (advertised h)"
    using assms by (simp add: advertised_distinct sorted_hello_def)
  then show ?thesis
    using map_of_inject_set wf_advertised unfolding wf_gomap_def by blast
qed

lemma map_of_Negotiate_cong:
  "wf_gomap p \<Longrightarrow> wf_gomap p' \<Longrightarrow> map_of p = map_of p' \<Longrightarrow> map_of l = map_of l' \<Longrightarrow>
     map_of (Negotiate p l) = map_of (Negotiate p' l')"
  by (rule ext) (simp add: map_of_Negotiate)

lemma verdict_ok:
  assumes "h_Role peer \<in> set roles" and "distinct (map c_ID (h_Capabilities peer))"
    and "Check reqs (Negotiate (advertised peer) (advertised local)) = None"
  shows "verdict local roles reqs (sorted_hello peer) =
    (Inr (sorted_hello peer, Negotiate (advertised (sorted_hello peer)) (advertised local)), [])"
proof -
  have "map_of (Negotiate (advertised (sorted_hello peer)) (advertised local)) =
      map_of (Negotiate (advertised peer) (advertised local))"
    by (intro map_of_Negotiate_cong) (simp_all add: map_of_advertised_sorted [OF assms(2)])
  from Check_cong [OF this] assms show ?thesis
    by (simp add: verdict_def sorted_hello_def)
qed

text \<open>A fresh connection that delivers the given bytes and then the given error.\<close>

definition fresh_conn :: "bytes \<Rightarrow> goerr \<Rightarrow> Conn" where
  "fresh_conn input e =
     \<lparr>cn_rd = Reader input e, cn_wr = Writer [] [], cn_deadliner = True, cn_dl_errs = [], cn_deadline = None\<rparr>"

lemma good_fresh [simp]: "good_conn (fresh_conn input e)"
  by (simp add: good_conn_def fresh_conn_def)

lemma server_speaks_first:
  assumes "Hello_MarshalBinary ls = Inr sb"
  shows "\<exists>extra. wr_bytes (cn_wr (snd (ServerHandshake t (fresh_conn input e) ls roles reqs)))
    = concat (intro_writes sb) @ extra"
  by (simp add: ServerHandshake_eq [OF good_fresh assms] Let_def wr_bytes_def split: prod.split)
    (simp add: fresh_conn_def)

lemma client_accepts:
  assumes "Hello_MarshalBinary ls = Inr sb" and "distinct (map c_ID (h_Capabilities ls))"
    and "Hello_MarshalBinary lc = Inr cb" and "h_Role ls \<in> set roles"
    and "Check reqs (Negotiate (advertised ls) (advertised lc)) = None"
  shows "ClientHandshake t (fresh_conn (concat (intro_writes sb) @ extra) e) lc roles reqs =
    (Inr (sorted_hello ls, Negotiate (advertised (sorted_hello ls)) (advertised lc)),
     \<lparr>cn_rd = Reader extra e, cn_wr = Writer (intro_writes cb) [], cn_deadliner = True,
      cn_dl_errs = [], cn_deadline = None\<rparr>)"
proof -
  have "readPeerHello (Reader (concat (intro_writes sb) @ extra) e) = Inr (sorted_hello ls, Reader extra e)"
    using wf_sorted_hello [OF assms(1,2)] readPeerHello_intro by simp
  then show ?thesis
    using verdict_ok [OF assms(4,2,5)] assms(4)
    unfolding ClientHandshake_eq [OF good_fresh assms(3)]
    by (simp add: fresh_conn_def client_answer_def reader_after_def) (simp add: sorted_hello_def)
qed

lemma server_accepts:
  assumes "Hello_MarshalBinary ls = Inr sb" and "Hello_MarshalBinary lc = Inr cb"
    and "distinct (map c_ID (h_Capabilities lc))" and "h_Role lc \<in> set roles"
    and "Check reqs (Negotiate (advertised lc) (advertised ls)) = None"
  shows "ServerHandshake t (fresh_conn (concat (intro_writes cb)) e) ls roles reqs =
    (Inr (sorted_hello lc, Negotiate (advertised (sorted_hello lc)) (advertised ls)),
     \<lparr>cn_rd = Reader [] e, cn_wr = Writer (intro_writes sb) [], cn_deadliner = True,
      cn_dl_errs = [], cn_deadline = None\<rparr>)"
proof -
  have "readPeerHello (Reader (concat (intro_writes cb)) e) = Inr (sorted_hello lc, Reader [] e)"
    using wf_sorted_hello [OF assms(2,3)] readPeerHello_intro [of _ "[]"] by simp
  then show ?thesis
    using verdict_ok [OF assms(4,3,5)]
    unfolding ServerHandshake_eq [OF good_fresh assms(1)]
    by (simp add: fresh_conn_def server_answer_def reader_after_def)
qed

text \<open>
  C1. Agreement: run the two sides against each other, each reading exactly what
  the other wrote. If both HELLOs can be encoded and have distinct capability IDs, each side accepts the other's
  role, and each side's requirements hold for the common capabilities, then both
  handshakes succeed, each side gets the other's HELLO, both hold the same
  negotiated capabilities, nothing is left unread, and both deadlines are cleared.
\<close>

theorem handshake_agreement:
  assumes hello: "Hello_MarshalBinary ls = Inr sb" "distinct (map c_ID (h_Capabilities ls))"
      "Hello_MarshalBinary lc = Inr cb" "distinct (map c_ID (h_Capabilities lc))"
    and roles: "h_Role lc \<in> set acceptRoles" "h_Role ls \<in> set expectRoles"
    and reqs: "Check sreqs (Negotiate (advertised lc) (advertised ls)) = None"
      "Check creqs (Negotiate (advertised ls) (advertised lc)) = None"
    and server: "ServerHandshake t1 (fresh_conn (wr_bytes (cn_wr cc')) e1) ls acceptRoles sreqs = (rs, cs')"
    and client: "ClientHandshake t2 (fresh_conn (wr_bytes (cn_wr cs')) e2) lc expectRoles creqs = (rc, cc')"
  shows "\<exists>ns nc. rs = Inr (sorted_hello lc, ns) \<and> rc = Inr (sorted_hello ls, nc)
    \<and> map_of ns = map_of nc
    \<and> rd_data (cn_rd cs') = [] \<and> rd_data (cn_rd cc') = []
    \<and> cn_deadline cs' = None \<and> cn_deadline cc' = None"
proof -
  obtain extra where extra: "wr_bytes (cn_wr cs') = concat (intro_writes sb) @ extra"
    using server_speaks_first [OF hello(1)] server by (metis snd_conv)
  note C = client_accepts [OF hello(1,2,3) roles(2) reqs(2), of t2 extra e2]
  have cc': "wr_bytes (cn_wr cc') = concat (intro_writes cb)"
    using client C extra by (auto simp: wr_bytes_def)
  note S = server_accepts [OF hello(1,3,4) roles(1) reqs(1), of t1 e1]
  have cs': "wr_bytes (cn_wr cs') = concat (intro_writes sb)"
    using server S cc' by (auto simp: wr_bytes_def)
  with extra have [simp]: "extra = []" by simp
  have "map_of (Negotiate (advertised (sorted_hello lc)) (advertised ls)) =
      map_of (Negotiate (advertised lc) (advertised ls))"
    by (intro map_of_Negotiate_cong) (simp_all add: map_of_advertised_sorted hello)
  also have "\<dots> = map_of (Negotiate (advertised ls) (advertised lc))"
    by (auto simp: map_of_Negotiate common_commute split: option.splits)
  also have "\<dots> = map_of (Negotiate (advertised (sorted_hello ls)) (advertised lc))"
    by (intro map_of_Negotiate_cong) (simp_all add: map_of_advertised_sorted hello)
  finally show ?thesis
    using server client S C cc' cs' by auto
qed

text \<open>Two concrete peers, for the instances below.\<close>

definition demo_host :: Hello where
  "demo_host = \<lparr>h_Role = 1, h_SoftwareVersion = ''h1'',
     h_Capabilities = [\<lparr>c_ID = 7, c_MinRevision = 1, c_MaxRevision = 3\<rparr>, \<lparr>c_ID = 2, c_MinRevision = 1, c_MaxRevision = 1\<rparr>]\<rparr>"

definition demo_guest :: Hello where
  "demo_guest = \<lparr>h_Role = 2, h_SoftwareVersion = ''g'',
     h_Capabilities = [\<lparr>c_ID = 7, c_MinRevision = 2, c_MaxRevision = 5\<rparr>]\<rparr>"

definition demo_server :: "(goerr + (Hello \<times> NegotiatedCapabilities)) \<times> Conn" where
  "demo_server = ServerHandshake 0 (fresh_conn (concat (intro_writes (enc_hello demo_guest))) EOF)
     demo_host [2] [(7, 3)]"

definition demo_client :: "(goerr + (Hello \<times> NegotiatedCapabilities)) \<times> Conn" where
  "demo_client = ClientHandshake 5 (fresh_conn (concat (intro_writes (enc_hello (sorted_hello demo_host)))) EOF)
     demo_guest [1] [(7, 2)]"

lemma demo_hello:
  "Hello_MarshalBinary demo_host = Inr (enc_hello (sorted_hello demo_host))"
  "Hello_MarshalBinary demo_guest = Inr (enc_hello demo_guest)"
  "distinct (map c_ID (h_Capabilities demo_host))" "distinct (map c_ID (h_Capabilities demo_guest))"
  "h_Role demo_guest \<in> set [2]" "h_Role demo_host \<in> set [1]"
  "Check [(7, 3)] (Negotiate (advertised demo_guest) (advertised demo_host)) = None"
  "Check [(7, 2)] (Negotiate (advertised demo_host) (advertised demo_guest)) = None"
  by code_simp+

lemmas demo_server_eq =
  server_accepts [OF demo_hello(1,2,4,5,7), of 0 EOF, folded demo_server_def]

lemmas demo_client_eq =
  client_accepts [OF demo_hello(1,3,2,6,8), of 5 "[]" EOF, unfolded append_Nil2, folded demo_client_def]

theorem handshake_agreement_witness:
  "\<exists>ns nc. fst demo_server = Inr (sorted_hello demo_guest, ns) \<and> fst demo_client = Inr (sorted_hello demo_host, nc)
    \<and> map_of ns = map_of nc
    \<and> rd_data (cn_rd (snd demo_server)) = [] \<and> rd_data (cn_rd (snd demo_client)) = []
    \<and> cn_deadline (snd demo_server) = None \<and> cn_deadline (snd demo_client) = None"
proof (rule handshake_agreement [OF demo_hello(1,3,2,4,5,6,7,8)])
  show "ServerHandshake 0 (fresh_conn (wr_bytes (cn_wr (snd demo_client))) EOF) demo_host [2] [(7, 3)]
      = (fst demo_server, snd demo_server)"
    unfolding demo_client_eq by (simp add: demo_server_def wr_bytes_def)
  show "ClientHandshake 5 (fresh_conn (wr_bytes (cn_wr (snd demo_server))) EOF) demo_guest [1] [(7, 2)]
      = (fst demo_client, snd demo_client)"
    unfolding demo_server_eq by (simp add: demo_client_def wr_bytes_def)
qed

section \<open>Failures\<close>

lemma prefix_error:
  "validateMVCPPrefix r = Inl e \<Longrightarrow> \<not> errors_Is (rd_end r) errMalformedHello \<Longrightarrow> \<not> errors_Is e errMalformedHello"
  by (cases r) (auto simp: validateMVCPPrefix_def rbind_def io_ReadFull_def raise_def ret_def split: if_splits)

lemma readPeerHello_prefix_error:
  "validateMVCPPrefix r = Inl e \<Longrightarrow> readPeerHello r = Inl e"
  by (simp add: readPeerHello_def rbind_def)

text \<open>
  C34. A peer that does not speak the protocol is not answered. If the five bytes of
  the prefix are missing, cut short, or carry another magic or version, and the
  connection's own read error is not a malformed-HELLO error, then the server has
  written its own introduction and nothing else, and the client has written nothing
  at all; both return the wrapped error.
\<close>

theorem bad_prefix_not_answered:
  assumes "good_conn c" and "Hello_MarshalBinary local = Inr body"
    and "validateMVCPPrefix (cn_rd c) = Inl e"
    and "\<not> errors_Is (rd_end (cn_rd c)) errMalformedHello"
  shows "ServerHandshake t c local roles reqs =
      (Inl (Errorw ''mvcp: server handshake: read peer hello'' e),
       c\<lparr>cn_wr := Writer (wr_log (cn_wr c) @ intro_writes body) [], cn_deadline := None\<rparr>)
    \<and> ClientHandshake t c local roles reqs =
      (Inl (Errorw ''mvcp: client handshake: read peer hello'' e),
       c\<lparr>cn_wr := Writer (wr_log (cn_wr c)) [], cn_deadline := None\<rparr>)"
  by (simp add: ServerHandshake_eq [OF assms(1,2)] ClientHandshake_eq [OF assms(1,2)]
      readPeerHello_prefix_error [OF assms(3)] server_answer_def client_answer_def reader_after_def
      prefix_error [OF assms(3,4)])

theorem bad_prefix_not_answered_witness:
  "ServerHandshake 0 (fresh_conn (bytes_of_string ''HTTP/1'') EOF) demo_host [2] [] =
     (Inl (Errorw ''mvcp: server handshake: read peer hello'' ErrBadMVCPMagic),
      fresh_conn (bytes_of_string ''HTTP/1'') EOF
        \<lparr>cn_wr := Writer (intro_writes (enc_hello (sorted_hello demo_host))) []\<rparr>)
   \<and> fst (ClientHandshake 0 (fresh_conn (bytes_of_string ''HTTP/1'') EOF) demo_guest [1] []) =
     Inl (Errorw ''mvcp: client handshake: read peer hello'' ErrBadMVCPMagic)"
proof -
  let ?c = "fresh_conn (bytes_of_string ''HTTP/1'') EOF"
  have v: "validateMVCPPrefix (cn_rd ?c) = Inl ErrBadMVCPMagic" by code_simp
  have e: "\<not> errors_Is (rd_end (cn_rd ?c)) errMalformedHello" by code_simp
  show ?thesis
    using bad_prefix_not_answered [OF good_fresh demo_hello(1) v e, of 0 "[2]" "[]"]
      bad_prefix_not_answered [OF good_fresh demo_hello(2) v e, of 0 "[1]" "[]"]
    by (simp add: fresh_conn_def)
qed

text \<open>
  C33. The peer learns the reason of a rejection. When the server returns a
  HandshakeError, the last frame it wrote is an ERROR response with msg_id 0 that
  carries exactly the same code and message, after its own introduction; and the
  body of that frame is decodable by the reading primitives.
\<close>

theorem rejection_is_reported:
  assumes "good_conn c" and "Hello_MarshalBinary local = Inr body"
    and "ServerHandshake t c local roles reqs = (Inl (HandshakeError code m), c')"
    and "fits16 m"
  shows "wr_log (cn_wr c') = wr_log (cn_wr c) @ intro_writes body @ [EncodeMVCPFrame (error_frame code m)]
    \<and> code \<in> {ErrorCodeUnexpectedRole, ErrorCodeNoCommonCapability}
    \<and> rbind ReadUint16 (\<lambda>x. rbind ReadString (\<lambda>y. ret (x, y))) (bytes_NewReader (f_Body (error_frame code m)))
        = Inr ((code, m), bytes_NewReader [])"
  using assms(3,4)
  by (auto simp: ServerHandshake_eq [OF assms(1,2)] Let_def server_answer_def verdict_def error_frame_def
      rbind_def ret_def bytes_NewReader_def wire_simps
      split: sum.splits prod.splits if_splits option.splits)

theorem rejection_is_reported_witness:
  "let m = ''unexpected peer role 2'';
       c' = snd (ServerHandshake 0 (fresh_conn (concat (intro_writes (enc_hello demo_guest))) EOF) demo_host [3] []) in
   wr_log (cn_wr c') = intro_writes (enc_hello (sorted_hello demo_host))
     @ [EncodeMVCPFrame (error_frame ErrorCodeUnexpectedRole m)]"
proof -
  let ?c = "fresh_conn (concat (intro_writes (enc_hello demo_guest))) EOF"
  let ?m = "''unexpected peer role 2''"
  have "wf_hello demo_guest" by code_simp
  then have "readPeerHello (cn_rd ?c) = Inr (demo_guest, Reader [] EOF)"
    using readPeerHello_intro [of demo_guest "[]" EOF] by (simp add: fresh_conn_def)
  moreover have "verdict demo_host [3] [] demo_guest =
      (Inl (HandshakeError ErrorCodeUnexpectedRole ?m), [error_frame ErrorCodeUnexpectedRole ?m])"
    by code_simp
  ultimately have "fst (ServerHandshake 0 ?c demo_host [3] []) = Inl (HandshakeError ErrorCodeUnexpectedRole ?m)"
    by (simp add: ServerHandshake_eq [OF good_fresh demo_hello(1)] server_answer_def)
  then have r: "ServerHandshake 0 ?c demo_host [3] [] =
      (Inl (HandshakeError ErrorCodeUnexpectedRole ?m), snd (ServerHandshake 0 ?c demo_host [3] []))"
    by (metis prod.collapse)
  have "fits16 ?m" by (simp add: fits16_def)
  from rejection_is_reported [OF good_fresh demo_hello(1) r this, THEN conjunct1] show ?thesis
    by (simp add: fresh_conn_def)
qed

section \<open>What success means\<close>

lemma readPeerHello_exact:
  assumes "readPeerHello r = Inr (h, r')"
  shows "wf_hello h \<and> (\<exists>flags mid. rd_data r = prefix_bytes
      @ EncodeMVCPFrame \<lparr>f_Type = TypeHELLO, f_Flags = flags, f_MsgID = mid, f_Body = enc_hello h\<rparr> @ rd_data r')"
proof -
  from assms obtain u r1 f where v: "validateMVCPPrefix r = Inr (u, r1)"
    and f: "ReadMVCPFrame r1 = Inr (f, r')" "f_Type f = TypeHELLO" "Hello_UnmarshalBinary (f_Body f) = Inr h"
    by (auto simp: readPeerHello_def rbind_eq_Inr raise_def ret_def split: if_splits sum.splits)
  have "f = \<lparr>f_Type = TypeHELLO, f_Flags = f_Flags f, f_MsgID = f_MsgID f, f_Body = enc_hello h\<rparr>"
    using f by (simp add: Hello_UnmarshalBinary_iff)
  moreover have "rd_data r1 = EncodeMVCPFrame f @ rd_data r'"
    using f(1) mvcpf.dec_iff by blast
  ultimately show ?thesis
    using validate_prefix_exact [OF v] f(3) by (metis Hello_UnmarshalBinary_iff)
qed

lemma conn_write_rd: "conn_write f c = (x, c') \<Longrightarrow> cn_rd c' = cn_rd c"
  by (auto simp: conn_write_def split: prod.splits)

lemma SetDeadline_rd: "SetDeadline t c = (x, c') \<Longrightarrow> cn_rd c' = cn_rd c"
  by (auto simp: SetDeadline_def split: list.splits option.splits)

lemma clear_rd [simp]: "cn_rd (clear c) = cn_rd c"
  using SetDeadline_rd [of None c] by (cases "SetDeadline None c") (simp add: clear_def)

lemma withHandshakeDeadline_rd: "withHandshakeDeadline t c = (x, c') \<Longrightarrow> cn_rd c' = cn_rd c"
  by (auto simp: withHandshakeDeadline_def split: if_splits prod.splits option.splits dest: SetDeadline_rd)

lemma exchange_success:
  assumes "server_exchange c local roles reqs = (Inr (peer, n), c') \<or>
    client_exchange c local roles reqs = (Inr (peer, n), c')"
  shows "readPeerHello (cn_rd c) = Inr (peer, cn_rd c') \<and> h_Role peer \<in> set roles
    \<and> n = Negotiate (advertised peer) (advertised local) \<and> Check reqs n = None"
  using assms
  by (auto simp: server_exchange_def client_exchange_def conn_read_def Let_def
      split: prod.splits option.splits sum.splits if_splits dest!: conn_write_rd)

lemma handshake_success:
  assumes "ServerHandshake t c local roles reqs = (Inr (peer, n), c') \<or>
    ClientHandshake t c local roles reqs = (Inr (peer, n), c')"
  shows "readPeerHello (cn_rd c) = Inr (peer, cn_rd c') \<and> h_Role peer \<in> set roles
    \<and> n = Negotiate (advertised peer) (advertised local) \<and> Check reqs n = None"
proof -
  from assms obtain c0 c1 where "withHandshakeDeadline t c = (None, c0)" and c': "c' = clear c1"
    and "server_exchange c0 local roles reqs = (Inr (peer, n), c1) \<or>
      client_exchange c0 local roles reqs = (Inr (peer, n), c1)"
    by (auto simp: ServerHandshake_def ClientHandshake_def split: prod.splits option.splits)
  from exchange_success [OF this(3)] show ?thesis
    unfolding withHandshakeDeadline_rd [OF \<open>withHandshakeDeadline t c = (None, c0)\<close>] c' clear_rd .
qed

text \<open>
  C2. Success is never granted wrongly, on any connection. If either side of the
  handshake returns a peer and negotiated capabilities, then the bytes it consumed
  are exactly the prefix and one HELLO frame that encodes this peer, the peer's
  role is one of the accepted ones, every required capability is negotiated at the
  required revision or above, and every negotiated revision lies in the ranges of
  both sides. (The flags and the msg_id of the HELLO frame are not constrained.)
\<close>

theorem handshake_success_sound:
  assumes "ServerHandshake t c local roles reqs = (Inr (peer, n), c') \<or>
    ClientHandshake t c local roles reqs = (Inr (peer, n), c')"
  shows "(\<exists>flags mid. rd_data (cn_rd c) = prefix_bytes
        @ EncodeMVCPFrame \<lparr>f_Type = TypeHELLO, f_Flags = flags, f_MsgID = mid, f_Body = enc_hello peer\<rparr>
        @ rd_data (cn_rd c'))
    \<and> h_Role peer \<in> set roles
    \<and> (\<forall>(cid, rv) \<in> set reqs. \<exists>x. map_of n cid = Some x \<and> rv \<le> x)
    \<and> (\<forall>cid x. map_of n cid = Some x \<longrightarrow>
         supports (advertised peer) cid x \<and> supports (advertised local) cid x)"
proof -
  note s = handshake_success [OF assms]
  have "map_of n cid = Some x \<Longrightarrow>
      supports (advertised peer) cid x \<and> supports (advertised local) cid x" for cid x
    using s Negotiate_supported [OF wf_advertised] by metis
  moreover have "\<forall>(cid, rv) \<in> set reqs. \<exists>x. map_of n cid = Some x \<and> rv \<le> x"
    using s Check_iff by blast
  ultimately show ?thesis
    using s readPeerHello_exact [of "cn_rd c" peer "cn_rd c'"] by blast
qed

theorem handshake_success_sound_witness:
  "h_Role demo_guest \<in> set [2] \<and> (\<exists>x. map_of (Negotiate (advertised demo_guest) (advertised demo_host)) 7 = Some x \<and> 3 \<le> x)"
proof -
  have "sorted_hello demo_guest = demo_guest"
    by (simp add: sorted_hello_def demo_guest_def sort_by_ID_def)
  then have "demo_server = (Inr (demo_guest, Negotiate (advertised demo_guest) (advertised demo_host)), snd demo_server)"
    by (subst demo_server_eq) (simp add: demo_server_eq)
  then have "ServerHandshake 0 (fresh_conn (concat (intro_writes (enc_hello demo_guest))) EOF) demo_host [2] [(7, 3)]
      = (Inr (demo_guest, Negotiate (advertised demo_guest) (advertised demo_host)), snd demo_server)"
    by (subst (asm) (1) demo_server_def)
  from handshake_success_sound [OF disjI1 [OF this]] show ?thesis
    by simp
qed

section \<open>The deadline\<close>

lemma conn_write_dl:
  "conn_write f c = (x, c') \<Longrightarrow> cn_dl_errs c' = cn_dl_errs c"
  by (auto simp: conn_write_def split: prod.splits)

lemma conn_read_dl:
  "conn_read p c = (x, c') \<Longrightarrow> cn_dl_errs c' = cn_dl_errs c"
  by (auto simp: conn_read_def split: prod.splits sum.splits)

lemma snd_conn_write_dl [simp]: "cn_dl_errs (snd (conn_write f c)) = cn_dl_errs c"
  by (simp add: conn_write_def split: prod.split)

lemma server_exchange_dl: "cn_dl_errs (snd (server_exchange c local roles reqs)) = cn_dl_errs c"
  by (auto simp: server_exchange_def Let_def split: prod.splits option.splits sum.splits
      dest!: conn_write_dl conn_read_dl)

lemma client_exchange_dl: "cn_dl_errs (snd (client_exchange c local roles reqs)) = cn_dl_errs c"
  by (auto simp: client_exchange_def Let_def split: prod.splits option.splits sum.splits
      dest!: conn_write_dl conn_read_dl)

lemma clear_deadline: "cn_dl_errs c = [] \<Longrightarrow> cn_deadline (clear c) = None"
  by (simp add: clear_def SetDeadline_def)

text \<open>
  C35. The deadline discipline. Without deadline support both sides refuse to start
  and leave the connection untouched. With it, and as long as setting deadlines
  works, no deadline is left armed when they return, on success and on every
  error, whatever the reads and writes did.
\<close>

theorem handshake_deadline:
  "(\<not> cn_deadliner c \<longrightarrow>
     ServerHandshake t c local roles reqs = (Inl errHandshakeDeadlineRequired, c)
     \<and> ClientHandshake t c local roles reqs = (Inl errHandshakeDeadlineRequired, c))
   \<and> (cn_deadliner c \<and> cn_dl_errs c = [] \<longrightarrow>
     cn_deadline (snd (ServerHandshake t c local roles reqs)) = None
     \<and> cn_deadline (snd (ClientHandshake t c local roles reqs)) = None)"
  using server_exchange_dl [of "c\<lparr>cn_deadline := Some (t + HandshakeTimeout)\<rparr>" local roles reqs]
    client_exchange_dl [of "c\<lparr>cn_deadline := Some (t + HandshakeTimeout)\<rparr>" local roles reqs]
  by (auto simp: ServerHandshake_def ClientHandshake_def withHandshakeDeadline_def SetDeadline_def
      clear_deadline split: prod.split)

theorem handshake_deadline_witness:
  "cn_deadline (snd (ServerHandshake 9 ((fresh_conn [] EOF)\<lparr>cn_wr := Writer [] [Some EOF]\<rparr>) demo_host [] [])) = None
   \<and> fst (ClientHandshake 9 ((fresh_conn [] EOF)\<lparr>cn_deadliner := False\<rparr>) demo_host [] [])
      = Inl errHandshakeDeadlineRequired"
  using handshake_deadline [of "(fresh_conn [] EOF)\<lparr>cn_deadliner := False\<rparr>"]
    handshake_deadline [of "(fresh_conn [] EOF)\<lparr>cn_wr := Writer [] [Some EOF]\<rparr>"]
  by (simp add: fresh_conn_def)

end
