(* ===== verification/VPP.thy ===== *)
theory VPP
  imports Handshake
begin

text \<open>
  The console protocol: the handshake of \<^verbatim>\<open>protocol/conn.go\<close> (its
  definitions are in \<open>Handshake\<close>), the frames of \<^verbatim>\<open>protocol/vpp/vpp.go\<close> and the
  messages of \<^verbatim>\<open>protocol/vpp/types.go\<close>. The frame layer is an instance of
  \<open>exact_codec\<close>; the messages round trip, and the additive tail field of the
  attach message is compatible with peers that do not know it.
\<close>

section \<open>vpp.go\<close>

definition TypeDATA :: uint8 where [simp]: "TypeDATA = 0x00"
definition TypeWINCH :: uint8 where [simp]: "TypeWINCH = 0x01"
definition TypeDETACH :: uint8 where [simp]: "TypeDETACH = 0x02"
definition TypeATTACH :: uint8 where [simp]: "TypeATTACH = 0x03"
definition TypeSESSION :: uint8 where [simp]: "TypeSESSION = 0x04"
definition TypeKILL :: uint8 where [simp]: "TypeKILL = 0x05"

definition vpp_MaxFrameSize :: nat where
  [simp]: "vpp_MaxFrameSize = 64 * 1024"

definition ExitInitFailed :: uint32 where [simp]: "ExitInitFailed = 124"
definition ExitOverloaded :: uint32 where [simp]: "ExitOverloaded = 125"
definition ExitKilled :: uint32 where [simp]: "ExitKilled = 137"

record vpp_Frame =
  vf_Type :: uint8
  vf_Body :: bytes

definition vpp_ReadFrame :: "vpp_Frame parser" where
  "vpp_ReadFrame = rbind ReadFrame (\<lambda>payload.
     if length payload < 1 then raise ErrUnexpectedEOF
     else if length payload > vpp_MaxFrameSize then raise ErrVPPFrameTooLarge
     else ret \<lparr>vf_Type = hd payload, vf_Body = tl payload\<rparr>)"

definition vpp_WriteFrame :: "vpp_Frame \<Rightarrow> wop" where
  "vpp_WriteFrame f =
     (if length (vf_Body f) + 1 > vpp_MaxFrameSize then (\<lambda>w. (Some ErrVPPFrameTooLarge, w))
      else WriteFrame (vf_Type f # vf_Body f))"

section \<open>types.go\<close>

record AttachMsg =
  at_Term :: string
  at_Cols :: uint16
  at_Rows :: uint16
  at_SessionID :: uint32

definition AttachMsg_Encode :: "AttachMsg \<Rightarrow> bytes" where
  "AttachMsg_Encode m = wr_bytes (snd (
     wseq (WriteString (at_Term m))
    (wseq (WriteUint16 (at_Cols m))
    (wseq (WriteUint16 (at_Rows m))
          (WriteUint32 (at_SessionID m)))) new_Buffer))"

definition AttachMsg_Decode :: "bytes \<Rightarrow> goerr + AttachMsg" where
  "AttachMsg_Decode = run_body (
     rbind (errw ''vpp attach: read term'' ReadString) (\<lambda>trm.
     rbind (errw ''vpp attach: read cols'' ReadUint16) (\<lambda>cols.
     rbind (errw ''vpp attach: read rows'' ReadUint16) (\<lambda>rows.
       let m = \<lparr>at_Term = trm, at_Cols = cols, at_Rows = rows, at_SessionID = 0\<rparr> in
       (\<lambda>r. if rd_Len r \<ge> 4
            then rbind (errw ''vpp attach: read session_id'' ReadUint32) (\<lambda>sid. ret (m\<lparr>at_SessionID := sid\<rparr>)) r
            else ret m r)))))"

record SessionMsg =
  ss_SessionID :: uint32
  ss_PID :: uint32
  ss_Cols :: uint16
  ss_Rows :: uint16

definition SessionMsg_Encode :: "SessionMsg \<Rightarrow> bytes" where
  "SessionMsg_Encode m = wr_bytes (snd (
     wseq (WriteUint32 (ss_SessionID m))
    (wseq (WriteUint32 (ss_PID m))
    (wseq (WriteUint16 (ss_Cols m))
          (WriteUint16 (ss_Rows m)))) new_Buffer))"

definition SessionMsg_Decode :: "bytes \<Rightarrow> goerr + SessionMsg" where
  "SessionMsg_Decode = run_body (
     rbind (errw ''vpp session: read session_id'' ReadUint32) (\<lambda>sid.
     rbind (errw ''vpp session: read pid'' ReadUint32) (\<lambda>pid.
     rbind (errw ''vpp session: read cols'' ReadUint16) (\<lambda>cols.
     rbind (errw ''vpp session: read rows'' ReadUint16) (\<lambda>rows.
       ret \<lparr>ss_SessionID = sid, ss_PID = pid, ss_Cols = cols, ss_Rows = rows\<rparr>)))))"

record WinchMsg =
  wn_Cols :: uint16
  wn_Rows :: uint16

definition WinchMsg_Encode :: "WinchMsg \<Rightarrow> bytes" where
  "WinchMsg_Encode m = wr_bytes (snd (
     wseq (WriteUint16 (wn_Cols m)) (WriteUint16 (wn_Rows m)) new_Buffer))"

definition WinchMsg_Decode :: "bytes \<Rightarrow> goerr + WinchMsg" where
  "WinchMsg_Decode = run_body (
     rbind (errw ''vpp winch: read cols'' ReadUint16) (\<lambda>cols.
     rbind (errw ''vpp winch: read rows'' ReadUint16) (\<lambda>rows.
       ret \<lparr>wn_Cols = cols, wn_Rows = rows\<rparr>)))"

record DetachMsg =
  dt_ExitCode :: uint32

definition DetachMsg_Encode :: "DetachMsg \<Rightarrow> bytes" where
  "DetachMsg_Encode m = wr_bytes (snd (WriteUint32 (dt_ExitCode m) new_Buffer))"

definition DetachMsg_Decode :: "bytes \<Rightarrow> goerr + DetachMsg" where
  "DetachMsg_Decode = run_body (
     rbind (errw ''vpp detach: read exit_code'' ReadUint32) (\<lambda>code. ret \<lparr>dt_ExitCode = code\<rparr>))"

section \<open>The frame layer\<close>

definition enc_vpp_frame :: "vpp_Frame \<Rightarrow> bytes" where
  "enc_vpp_frame f = enc_frame (vf_Type f # vf_Body f)"

definition wf_vpp_frame :: "vpp_Frame \<Rightarrow> bool" where
  "wf_vpp_frame f \<longleftrightarrow> length (vf_Body f) + 1 \<le> vpp_MaxFrameSize"

lemma wf_vpp_payload: "wf_vpp_frame f \<Longrightarrow> wf_payload (vf_Type f # vf_Body f)"
  by (simp add: wf_vpp_frame_def wf_payload_def)

interpretation vppf: exact_codec enc_vpp_frame vpp_ReadFrame wf_vpp_frame
proof unfold_locales
  fix f rest e
  assume wf: "wf_vpp_frame f"
  from transport.dec_enc [OF wf_vpp_payload [OF wf], of rest e] wf
  show "vpp_ReadFrame (Reader (enc_vpp_frame f @ rest) e) = Inr (f, Reader rest e)"
    by (simp add: vpp_ReadFrame_def enc_vpp_frame_def rbind_def wf_vpp_frame_def)
next
  fix r f r'
  assume "vpp_ReadFrame r = Inr (f, r')"
  then obtain p where p: "ReadFrame r = Inr (p, r')" "p \<noteq> []" "length p \<le> vpp_MaxFrameSize"
    and f: "f = \<lparr>vf_Type = hd p, vf_Body = tl p\<rparr>"
    by (auto simp: vpp_ReadFrame_def rbind_eq_Inr split: if_splits)
  from p(2) f have "p = vf_Type f # vf_Body f" by simp
  then show "rd_data r = enc_vpp_frame f @ rd_data r' \<and> rd_end r' = rd_end r \<and> wf_vpp_frame f"
    using transport.dec_exact [OF p(1)] p(3) by (simp add: enc_vpp_frame_def wf_vpp_frame_def)
qed

primrec vpp_WriteFrames :: "vpp_Frame list \<Rightarrow> wop" where
  "vpp_WriteFrames [] = wdone"
| "vpp_WriteFrames (f # fs) = wthen (vpp_WriteFrame f) (vpp_WriteFrames fs)"

lemma emits_vpp_frame: "wf_vpp_frame f \<Longrightarrow> emits (vpp_WriteFrame f) (enc_vpp_frame f)"
  by (simp add: vpp_WriteFrame_def wf_vpp_frame_def WriteFrame_enc enc_vpp_frame_def emits_Write)

lemma emits_vpp_frames:
  "list_all wf_vpp_frame fs \<Longrightarrow> emits (vpp_WriteFrames fs) (concat (map enc_vpp_frame fs))"
  by (induction fs) (auto intro: emits_intros emits_vpp_frame)

lemma validate_vpp:
  "ValidateVPPHandshake (Reader (bytes_of_string ''VPP'' @ [VPPVersion] @ rest) e) = Inr ((), Reader rest e)"
  by (simp add: ValidateVPPHandshake_def rbind_def io_ReadFull_def vppMagic_def bytes_of_string_def)

text \<open>
  C39. A console connection is read back as it was written. One side writes the
  console handshake and then frames that fit the 64 KB limit; the other side
  validates the handshake and gets back exactly these frames, and nothing is left
  over. A frame above the limit is refused by the writer before anything is
  written.
\<close>

theorem console_roundtrip:
  assumes "list_all wf_vpp_frame fs"
  shows "rbind ValidateVPPHandshake (\<lambda>_. rtimes (length fs) vpp_ReadFrame)
      (Reader (wr_bytes (snd (wthen WriteVPPHandshake (vpp_WriteFrames fs) new_Buffer))) e)
    = Inr (fs, Reader [] e)
    \<and> (\<not> wf_vpp_frame f \<longrightarrow> vpp_WriteFrame f w = (Some ErrVPPFrameTooLarge, w))"
proof -
  have "emits (wthen WriteVPPHandshake (vpp_WriteFrames fs))
      ((bytes_of_string ''VPP'' @ [VPPVersion]) @ concat (map enc_vpp_frame fs))"
    unfolding WriteVPPHandshake_def by (intro emits_intros emits_vpp_frames assms)
  from emits_bytes_eq [OF this] vppf.rtimes_enc [OF assms, of "[]" e] show ?thesis
    by (auto simp: rbind_def validate_vpp [simplified] vpp_WriteFrame_def wf_vpp_frame_def)
qed

theorem console_roundtrip_witness:
  "rbind ValidateVPPHandshake (\<lambda>_. rtimes (length [\<lparr>vf_Type = TypeKILL, vf_Body = []\<rparr>]) vpp_ReadFrame)
      (Reader (wr_bytes (snd (wthen WriteVPPHandshake
        (vpp_WriteFrames [\<lparr>vf_Type = TypeKILL, vf_Body = []\<rparr>]) new_Buffer))) EOF)
    = Inr ([\<lparr>vf_Type = TypeKILL, vf_Body = []\<rparr>], Reader [] EOF)
   \<and> vpp_WriteFrame \<lparr>vf_Type = TypeDATA, vf_Body = replicate 65536 0\<rparr> new_Buffer
      = (Some ErrVPPFrameTooLarge, new_Buffer)"
proof -
  have "list_all wf_vpp_frame [\<lparr>vf_Type = TypeKILL, vf_Body = []\<rparr>]"
    and "\<not> wf_vpp_frame \<lparr>vf_Type = TypeDATA, vf_Body = replicate 65536 0\<rparr>"
    by (simp_all add: wf_vpp_frame_def)
  then show ?thesis
    using console_roundtrip [of "[\<lparr>vf_Type = TypeKILL, vf_Body = []\<rparr>]" EOF
        "\<lparr>vf_Type = TypeDATA, vf_Body = replicate 65536 0\<rparr>" new_Buffer]
    by blast
qed

section \<open>The messages\<close>

lemma AttachMsg_Encode_eq:
  "AttachMsg_Encode m = enc_string (at_Term m) @ enc_u16 (at_Cols m) @ enc_u16 (at_Rows m) @ enc_u32 (at_SessionID m)"
  unfolding AttachMsg_Encode_def by (intro emits_bytes_eq emits_intros)

lemma AttachMsg_Decode_tail:
  assumes "fits16 t"
  shows "AttachMsg_Decode (enc_string t @ enc_u16 c @ enc_u16 r @ tl_bytes) =
    (if length tl_bytes < 4 then Inr \<lparr>at_Term = t, at_Cols = c, at_Rows = r, at_SessionID = 0\<rparr>
     else Inr \<lparr>at_Term = t, at_Cols = c, at_Rows = r, at_SessionID = word_of_nat (be_val (take 4 tl_bytes))\<rparr>)"
  using assms
  by (simp add: AttachMsg_Decode_def run_body_def bytes_NewReader_def rbind_def errw_def wire_simps
      Let_def rd_Len_def ReadUint32_def io_ReadFull_def)

text \<open>
  C40. The attach message is compatible with peers that do not know its session
  field. What is encoded decodes to the same message, also when a newer peer
  appends more bytes; a body without the field, as an older host sends it, decodes
  with session id 0; and the bytes in front of the field are the older format.
\<close>

theorem attach_tail_compatible:
  assumes "fits16 (at_Term m)"
  shows "AttachMsg_Decode (AttachMsg_Encode m @ newer) = Inr m
    \<and> AttachMsg_Decode (take (length (AttachMsg_Encode m) - 4) (AttachMsg_Encode m)) = Inr (m\<lparr>at_SessionID := 0\<rparr>)"
proof
  have "word_of_nat (be_val (enc_u32 (at_SessionID m))) = at_SessionID m"
    using unsigned_less [of "at_SessionID m", where ?'a = nat] by (simp add: enc_u32_def be_val_bytes)
  then show "AttachMsg_Decode (AttachMsg_Encode m @ newer) = Inr m"
    using AttachMsg_Decode_tail [OF assms, of "at_Cols m" "at_Rows m" "enc_u32 (at_SessionID m) @ newer"]
    by (simp add: AttachMsg_Encode_eq)
  show "AttachMsg_Decode (take (length (AttachMsg_Encode m) - 4) (AttachMsg_Encode m)) = Inr (m\<lparr>at_SessionID := 0\<rparr>)"
    using AttachMsg_Decode_tail [OF assms, of "at_Cols m" "at_Rows m" "[]"]
    by (simp add: AttachMsg_Encode_eq)
qed

theorem attach_tail_compatible_witness:
  "AttachMsg_Decode (AttachMsg_Encode \<lparr>at_Term = ''vt'', at_Cols = 80, at_Rows = 24, at_SessionID = 5\<rparr> @ [1, 2])
     = Inr \<lparr>at_Term = ''vt'', at_Cols = 80, at_Rows = 24, at_SessionID = 5\<rparr>"
  using attach_tail_compatible [of "\<lparr>at_Term = ''vt'', at_Cols = 80, at_Rows = 24, at_SessionID = 5\<rparr>" "[1, 2]"]
  by (simp add: fits16_def)

lemma vpp_Encode_eq:
  "SessionMsg_Encode s = enc_u32 (ss_SessionID s) @ enc_u32 (ss_PID s) @ enc_u16 (ss_Cols s) @ enc_u16 (ss_Rows s)"
  "WinchMsg_Encode w = enc_u16 (wn_Cols w) @ enc_u16 (wn_Rows w)"
  "DetachMsg_Encode d = enc_u32 (dt_ExitCode d)"
  unfolding SessionMsg_Encode_def WinchMsg_Encode_def DetachMsg_Encode_def
  by (intro emits_bytes_eq emits_intros)+

text \<open>
  The other console messages (session, window size, detach) decode to what was
  encoded, whatever bytes follow in the body.
\<close>

lemma console_messages_roundtrip:
  "SessionMsg_Decode (SessionMsg_Encode s @ newer) = Inr s
   \<and> WinchMsg_Decode (WinchMsg_Encode w @ newer) = Inr w
   \<and> DetachMsg_Decode (DetachMsg_Encode d @ newer) = Inr d"
  by (simp add: vpp_Encode_eq SessionMsg_Decode_def WinchMsg_Decode_def DetachMsg_Decode_def
      run_body_def bytes_NewReader_def rbind_def errw_def wire_simps)

end
