(* ===== verification/Message.thy ===== *)
theory Message
  imports Frame
begin

text \<open>
  The \<^verbatim>\<open>Message\<close> interface of \<^verbatim>\<open>protocol/message.go\<close> as locales: what every
  message type promises about its \<open>MarshalBinary\<close>, its \<open>UnmarshalBinary\<close> and the
  decoder it registers. \<open>layout\<close> is the documented byte layout of a message and
  \<open>fits\<close> says that its variable parts fit their length prefixes. Most messages
  are lenient (bytes after the known fields are ignored, which leaves room for
  additive fields); the messages of the app channel are strict.
\<close>

section \<open>Shared pieces of the decoders\<close>

text \<open>The check on \<^verbatim>\<open>r.Len()\<close> at the end of a strict decoder.\<close>

definition no_trailing :: "string \<Rightarrow> unit parser" where
  "no_trailing name r =
     (if rd_Len r \<noteq> 0 then Inl (NewError (name @ '': '' @ fmt_d (rd_Len r) @ '' trailing bytes'')) else Inr ((), r))"

lemma no_trailing_eq_Inr [simp]: "no_trailing name r = Inr (u, r') \<longleftrightarrow> rd_data r = [] \<and> r' = r"
  by (auto simp: no_trailing_def rd_Len_def)

lemma no_trailing_ok [simp]: "no_trailing name (Reader [] e) = Inr ((), Reader [] e)"
  by simp

section \<open>The contract of a message type\<close>

locale message_codec =
  fixes layout :: "'m \<Rightarrow> bytes"
    and fits :: "'m \<Rightarrow> bool"
    and MarshalBinary :: "'m \<Rightarrow> goerr + bytes"
    and UnmarshalBinary :: "bytes \<Rightarrow> goerr + 'm"
  assumes marshal: "MarshalBinary m = Inr b \<Longrightarrow> b = layout m"
    and unmarshal: "fits m \<Longrightarrow> UnmarshalBinary (layout m) = Inr m"
begin

lemma roundtrip: "MarshalBinary m = Inr b \<Longrightarrow> fits m \<Longrightarrow> UnmarshalBinary b = Inr m"
  using marshal unmarshal by blast

lemma marshal_inj:
  "MarshalBinary m = Inr b \<Longrightarrow> MarshalBinary m' = Inr b \<Longrightarrow> fits m \<Longrightarrow> fits m' \<Longrightarrow> m = m'"
  by (metis roundtrip sum.inject(2))

end

text \<open>The registered decoder accepts the same bodies with the same result.\<close>

locale registered_message = message_codec +
  fixes decode :: "'a parser"
  assumes decode_agrees: "run_body decode b = Inr m \<longleftrightarrow> UnmarshalBinary b = Inr m"
begin

lemma decode_roundtrip: "MarshalBinary m = Inr b \<Longrightarrow> fits m \<Longrightarrow> run_body decode b = Inr m"
  by (simp add: decode_agrees roundtrip)

end

locale lenient_message = registered_message +
  assumes additive: "fits m \<Longrightarrow> UnmarshalBinary (layout m @ newer) = Inr m"
begin

lemma decode_additive: "fits m \<Longrightarrow> run_body decode (layout m @ newer) = Inr m"
  by (simp add: decode_agrees additive)

end

locale strict_message = registered_message +
  assumes exact: "UnmarshalBinary b = Inr m \<Longrightarrow> b = layout m \<and> fits m"
begin

lemma unmarshal_iff: "UnmarshalBinary b = Inr m \<longleftrightarrow> b = layout m \<and> fits m"
  using exact unmarshal by blast

end

section \<open>Proof support\<close>

text \<open>The readers of the decoders, solved for their input.\<close>

lemmas dec_iffs =
  u8c.dec_iff u16c.dec_iff u32c.dec_iff u64c.dec_iff i32c.dec_iff i64c.dec_iff
  stringc.dec_iff bytesc.dec_iff stringsc.dec_iff

lemmas body_simps = run_body_def bytes_NewReader_def rbind_def errw_def

lemma Marshal_out: "Marshal f = Inr b \<Longrightarrow> emits f bs \<Longrightarrow> b = bs"
  by (simp add: Marshal_emits)

lemma Marshal_unchecked_out: "Marshal_unchecked f = Inr b \<Longrightarrow> emits f bs \<Longrightarrow> b = bs"
  by (simp add: Marshal_unchecked_emits)

end
