(* ===== verification/Messages_App.thy ===== *)
theory Messages_App
  imports Message
begin

text \<open>
  The messages of the app channel, \<^verbatim>\<open>protocol/messages/app.go\<close>. Every decoder is
  strict: it accepts exactly the documented layout and rejects any byte after it.
\<close>

section \<open>Messages\<close>

definition decodeApp :: "(bytes \<Rightarrow> goerr + 'm) \<Rightarrow> 'm parser" where
  "decodeApp um = rbind io_ReadAll (\<lambda>data. case um data of Inl e \<Rightarrow> raise e | Inr m \<Rightarrow> ret m)"

subsection \<open>AppOpen\<close>

record AppOpen =
  ao_StreamID :: uint32
  ao_Service :: string
  ao_Meta :: bytes

definition AppOpen_MarshalBinary :: "AppOpen \<Rightarrow> goerr + bytes" where
  "AppOpen_MarshalBinary m =
     (if length (ao_Meta m) > AppMaxMetaBytes
      then Inl (NewError (''app_open: meta too large ('' @ fmt_d (length (ao_Meta m)) @ '' bytes)''))
      else Marshal (wthen (WriteUint32 (ao_StreamID m))
    (wthen (WriteString (ao_Service m)) (WriteBytes (ao_Meta m)))))"

definition AppOpen_UnmarshalBinary :: "bytes \<Rightarrow> goerr + AppOpen" where
  "AppOpen_UnmarshalBinary = run_body (
     rbind (errw ''app_open: read stream_id'' ReadUint32) (\<lambda>sid.
     rbind (errw ''app_open: read service'' ReadString) (\<lambda>service.
     rbind (errw ''app_open: read meta'' ReadBytes) (\<lambda>meta.
     rbind (no_trailing ''app_open'') (\<lambda>_.
       ret \<lparr>ao_StreamID = sid, ao_Service = service, ao_Meta = meta\<rparr>)))))"

definition decode_AppOpen :: "AppOpen parser" where
  "decode_AppOpen = decodeApp AppOpen_UnmarshalBinary"

subsection \<open>AppAccept\<close>

record AppAccept =
  aa_StreamID :: uint32
  aa_Meta :: bytes
  aa_Grant :: uint32

definition AppAccept_MarshalBinary :: "AppAccept \<Rightarrow> goerr + bytes" where
  "AppAccept_MarshalBinary m =
     (if length (aa_Meta m) > AppMaxMetaBytes
      then Inl (NewError (''app_accept: meta too large ('' @ fmt_d (length (aa_Meta m)) @ '' bytes)''))
      else Marshal_unchecked (wseq (WriteUint32 (aa_StreamID m))
    (wseq (WriteBytes (aa_Meta m)) (WriteUint32 (aa_Grant m)))))"

definition AppAccept_UnmarshalBinary :: "bytes \<Rightarrow> goerr + AppAccept" where
  "AppAccept_UnmarshalBinary = run_body (
     rbind (errw ''app_accept: read stream_id'' ReadUint32) (\<lambda>sid.
     rbind (errw ''app_accept: read meta'' ReadBytes) (\<lambda>meta.
     rbind (errw ''app_accept: read grant'' ReadUint32) (\<lambda>grant.
     rbind (no_trailing ''app_accept'') (\<lambda>_.
       ret \<lparr>aa_StreamID = sid, aa_Meta = meta, aa_Grant = grant\<rparr>)))))"

definition decode_AppAccept :: "AppAccept parser" where
  "decode_AppAccept = decodeApp AppAccept_UnmarshalBinary"

subsection \<open>AppReject\<close>

record AppReject =
  aj_StreamID :: uint32
  aj_Code :: uint16
  aj_Message :: string

definition AppReject_MarshalBinary :: "AppReject \<Rightarrow> goerr + bytes" where
  "AppReject_MarshalBinary m =
     Marshal_unchecked (wseq (WriteUint32 (aj_StreamID m))
    (wseq (WriteUint16 (aj_Code m)) (WriteString (aj_Message m))))"

definition AppReject_UnmarshalBinary :: "bytes \<Rightarrow> goerr + AppReject" where
  "AppReject_UnmarshalBinary = run_body (
     rbind (errw ''app_reject: read stream_id'' ReadUint32) (\<lambda>sid.
     rbind (errw ''app_reject: read code'' ReadUint16) (\<lambda>code.
     rbind (errw ''app_reject: read message'' ReadString) (\<lambda>msg.
     rbind (no_trailing ''app_reject'') (\<lambda>_.
       ret \<lparr>aj_StreamID = sid, aj_Code = code, aj_Message = msg\<rparr>)))))"

definition decode_AppReject :: "AppReject parser" where
  "decode_AppReject = decodeApp AppReject_UnmarshalBinary"

subsection \<open>AppData\<close>

record AppData =
  ad_StreamID :: uint32
  ad_Data :: bytes

definition AppData_MarshalBinary :: "AppData \<Rightarrow> goerr + bytes" where
  "AppData_MarshalBinary m =
     (if length (ad_Data m) > AppMaxDataBytes
      then Inl (NewError (''app_data: data too large ('' @ fmt_d (length (ad_Data m)) @ '' bytes)''))
      else Marshal_unchecked (wseq (WriteUint32 (ad_StreamID m)) (WriteBytes (ad_Data m))))"

definition AppData_UnmarshalBinary :: "bytes \<Rightarrow> goerr + AppData" where
  "AppData_UnmarshalBinary = run_body (
     rbind (errw ''app_data: read stream_id'' ReadUint32) (\<lambda>sid.
     rbind (errw ''app_data: read data'' ReadBytes) (\<lambda>d.
     rbind (no_trailing ''app_data'') (\<lambda>_.
       ret \<lparr>ad_StreamID = sid, ad_Data = d\<rparr>))))"

definition decode_AppData :: "AppData parser" where
  "decode_AppData = decodeApp AppData_UnmarshalBinary"

subsection \<open>AppCredit\<close>

record AppCredit =
  ac_StreamID :: uint32
  ac_Bytes :: uint32

definition AppCredit_MarshalBinary :: "AppCredit \<Rightarrow> goerr + bytes" where
  "AppCredit_MarshalBinary m =
     Marshal_unchecked (wseq (WriteUint32 (ac_StreamID m)) (WriteUint32 (ac_Bytes m)))"

definition AppCredit_UnmarshalBinary :: "bytes \<Rightarrow> goerr + AppCredit" where
  "AppCredit_UnmarshalBinary = run_body (
     rbind (errw ''app_credit: read stream_id'' ReadUint32) (\<lambda>sid.
     rbind (errw ''app_credit: read bytes'' ReadUint32) (\<lambda>n.
     rbind (no_trailing ''app_credit'') (\<lambda>_.
       ret \<lparr>ac_StreamID = sid, ac_Bytes = n\<rparr>))))"

definition decode_AppCredit :: "AppCredit parser" where
  "decode_AppCredit = decodeApp AppCredit_UnmarshalBinary"

subsection \<open>AppClose\<close>

record AppClose =
  al_StreamID :: uint32

definition AppClose_MarshalBinary :: "AppClose \<Rightarrow> goerr + bytes" where
  "AppClose_MarshalBinary m =
     Marshal_unchecked (WriteUint32 (al_StreamID m))"

definition AppClose_UnmarshalBinary :: "bytes \<Rightarrow> goerr + AppClose" where
  "AppClose_UnmarshalBinary = run_body (
     rbind (errw ''app_close: read stream_id'' ReadUint32) (\<lambda>sid.
     rbind (no_trailing ''app_close'') (\<lambda>_.
       ret \<lparr>al_StreamID = sid\<rparr>)))"

definition decode_AppClose :: "AppClose parser" where
  "decode_AppClose = decodeApp AppClose_UnmarshalBinary"

subsection \<open>AppReset\<close>

record AppReset =
  ar_StreamID :: uint32
  ar_Code :: uint16
  ar_Message :: string

definition AppReset_MarshalBinary :: "AppReset \<Rightarrow> goerr + bytes" where
  "AppReset_MarshalBinary m =
     Marshal_unchecked (wseq (WriteUint32 (ar_StreamID m))
    (wseq (WriteUint16 (ar_Code m)) (WriteString (ar_Message m))))"

definition AppReset_UnmarshalBinary :: "bytes \<Rightarrow> goerr + AppReset" where
  "AppReset_UnmarshalBinary = run_body (
     rbind (errw ''app_reset: read stream_id'' ReadUint32) (\<lambda>sid.
     rbind (errw ''app_reset: read code'' ReadUint16) (\<lambda>code.
     rbind (errw ''app_reset: read message'' ReadString) (\<lambda>msg.
     rbind (no_trailing ''app_reset'') (\<lambda>_.
       ret \<lparr>ar_StreamID = sid, ar_Code = code, ar_Message = msg\<rparr>)))))"

definition decode_AppReset :: "AppReset parser" where
  "decode_AppReset = decodeApp AppReset_UnmarshalBinary"

section \<open>Layouts\<close>

definition layout_AppOpen :: "AppOpen \<Rightarrow> bytes" where
  "layout_AppOpen m = enc_u32 (ao_StreamID m) @ enc_string (ao_Service m) @ enc_bytes (ao_Meta m)"

definition fits_AppOpen :: "AppOpen \<Rightarrow> bool" where
  "fits_AppOpen m \<longleftrightarrow> fits16 (ao_Service m) \<and> fits32 (ao_Meta m)"

definition layout_AppAccept :: "AppAccept \<Rightarrow> bytes" where
  "layout_AppAccept m = enc_u32 (aa_StreamID m) @ enc_bytes (aa_Meta m) @ enc_u32 (aa_Grant m)"

definition fits_AppAccept :: "AppAccept \<Rightarrow> bool" where
  "fits_AppAccept m \<longleftrightarrow> fits32 (aa_Meta m)"

definition layout_AppReject :: "AppReject \<Rightarrow> bytes" where
  "layout_AppReject m = enc_u32 (aj_StreamID m) @ enc_u16 (aj_Code m) @ enc_string (aj_Message m)"

definition fits_AppReject :: "AppReject \<Rightarrow> bool" where
  "fits_AppReject m \<longleftrightarrow> fits16 (aj_Message m)"

definition layout_AppData :: "AppData \<Rightarrow> bytes" where
  "layout_AppData m = enc_u32 (ad_StreamID m) @ enc_bytes (ad_Data m)"

definition fits_AppData :: "AppData \<Rightarrow> bool" where
  "fits_AppData m \<longleftrightarrow> fits32 (ad_Data m)"

definition layout_AppCredit :: "AppCredit \<Rightarrow> bytes" where
  "layout_AppCredit m = enc_u32 (ac_StreamID m) @ enc_u32 (ac_Bytes m)"

definition fits_AppCredit :: "AppCredit \<Rightarrow> bool" where
  "fits_AppCredit m \<longleftrightarrow> True"

definition layout_AppClose :: "AppClose \<Rightarrow> bytes" where
  "layout_AppClose m = enc_u32 (al_StreamID m)"

definition fits_AppClose :: "AppClose \<Rightarrow> bool" where
  "fits_AppClose m \<longleftrightarrow> True"

definition layout_AppReset :: "AppReset \<Rightarrow> bytes" where
  "layout_AppReset m = enc_u32 (ar_StreamID m) @ enc_u16 (ar_Code m) @ enc_string (ar_Message m)"

definition fits_AppReset :: "AppReset \<Rightarrow> bool" where
  "fits_AppReset m \<longleftrightarrow> fits16 (ar_Message m)"

section \<open>Every decoder is strict\<close>

lemma run_decodeApp [simp]: "run_body (decodeApp um) b = um b"
  by (simp add: run_body_def decodeApp_def rbind_def io_ReadAll_def bytes_NewReader_def split: sum.split)

interpretation appOpen: strict_message layout_AppOpen fits_AppOpen AppOpen_MarshalBinary AppOpen_UnmarshalBinary decode_AppOpen
proof unfold_locales
  show "AppOpen_MarshalBinary m = Inr b \<Longrightarrow> b = layout_AppOpen m" for m b
    by (auto simp: AppOpen_MarshalBinary_def layout_AppOpen_def split: if_splits elim!: Marshal_out intro!: emits_intros)
  show "fits_AppOpen m \<Longrightarrow> AppOpen_UnmarshalBinary (layout_AppOpen m) = Inr m" for m
    by (simp add: AppOpen_UnmarshalBinary_def layout_AppOpen_def fits_AppOpen_def body_simps wire_simps)
  show "run_body decode_AppOpen b = Inr m \<longleftrightarrow> AppOpen_UnmarshalBinary b = Inr m" for b m
    by (simp add: decode_AppOpen_def)
  show "AppOpen_UnmarshalBinary b = Inr m \<Longrightarrow> b = layout_AppOpen m \<and> fits_AppOpen m" for b m
    by (auto simp: AppOpen_UnmarshalBinary_def layout_AppOpen_def fits_AppOpen_def run_body_eq_Inr rbind_eq_Inr dec_iffs)
qed

interpretation appAccept: strict_message layout_AppAccept fits_AppAccept AppAccept_MarshalBinary AppAccept_UnmarshalBinary decode_AppAccept
proof unfold_locales
  show "AppAccept_MarshalBinary m = Inr b \<Longrightarrow> b = layout_AppAccept m" for m b
    by (auto simp: AppAccept_MarshalBinary_def layout_AppAccept_def split: if_splits elim!: Marshal_unchecked_out intro!: emits_intros)
  show "fits_AppAccept m \<Longrightarrow> AppAccept_UnmarshalBinary (layout_AppAccept m) = Inr m" for m
    by (simp add: AppAccept_UnmarshalBinary_def layout_AppAccept_def fits_AppAccept_def body_simps wire_simps)
  show "run_body decode_AppAccept b = Inr m \<longleftrightarrow> AppAccept_UnmarshalBinary b = Inr m" for b m
    by (simp add: decode_AppAccept_def)
  show "AppAccept_UnmarshalBinary b = Inr m \<Longrightarrow> b = layout_AppAccept m \<and> fits_AppAccept m" for b m
    by (auto simp: AppAccept_UnmarshalBinary_def layout_AppAccept_def fits_AppAccept_def run_body_eq_Inr rbind_eq_Inr dec_iffs)
qed

interpretation appReject: strict_message layout_AppReject fits_AppReject AppReject_MarshalBinary AppReject_UnmarshalBinary decode_AppReject
proof unfold_locales
  show "AppReject_MarshalBinary m = Inr b \<Longrightarrow> b = layout_AppReject m" for m b
    by (auto simp: AppReject_MarshalBinary_def layout_AppReject_def split: if_splits elim!: Marshal_unchecked_out intro!: emits_intros)
  show "fits_AppReject m \<Longrightarrow> AppReject_UnmarshalBinary (layout_AppReject m) = Inr m" for m
    by (simp add: AppReject_UnmarshalBinary_def layout_AppReject_def fits_AppReject_def body_simps wire_simps)
  show "run_body decode_AppReject b = Inr m \<longleftrightarrow> AppReject_UnmarshalBinary b = Inr m" for b m
    by (simp add: decode_AppReject_def)
  show "AppReject_UnmarshalBinary b = Inr m \<Longrightarrow> b = layout_AppReject m \<and> fits_AppReject m" for b m
    by (auto simp: AppReject_UnmarshalBinary_def layout_AppReject_def fits_AppReject_def run_body_eq_Inr rbind_eq_Inr dec_iffs)
qed

interpretation appData: strict_message layout_AppData fits_AppData AppData_MarshalBinary AppData_UnmarshalBinary decode_AppData
proof unfold_locales
  show "AppData_MarshalBinary m = Inr b \<Longrightarrow> b = layout_AppData m" for m b
    by (auto simp: AppData_MarshalBinary_def layout_AppData_def split: if_splits elim!: Marshal_unchecked_out intro!: emits_intros)
  show "fits_AppData m \<Longrightarrow> AppData_UnmarshalBinary (layout_AppData m) = Inr m" for m
    by (simp add: AppData_UnmarshalBinary_def layout_AppData_def fits_AppData_def body_simps wire_simps)
  show "run_body decode_AppData b = Inr m \<longleftrightarrow> AppData_UnmarshalBinary b = Inr m" for b m
    by (simp add: decode_AppData_def)
  show "AppData_UnmarshalBinary b = Inr m \<Longrightarrow> b = layout_AppData m \<and> fits_AppData m" for b m
    by (auto simp: AppData_UnmarshalBinary_def layout_AppData_def fits_AppData_def run_body_eq_Inr rbind_eq_Inr dec_iffs)
qed

interpretation appCredit: strict_message layout_AppCredit fits_AppCredit AppCredit_MarshalBinary AppCredit_UnmarshalBinary decode_AppCredit
proof unfold_locales
  show "AppCredit_MarshalBinary m = Inr b \<Longrightarrow> b = layout_AppCredit m" for m b
    by (auto simp: AppCredit_MarshalBinary_def layout_AppCredit_def split: if_splits elim!: Marshal_unchecked_out intro!: emits_intros)
  show "fits_AppCredit m \<Longrightarrow> AppCredit_UnmarshalBinary (layout_AppCredit m) = Inr m" for m
    by (simp add: AppCredit_UnmarshalBinary_def layout_AppCredit_def fits_AppCredit_def body_simps wire_simps)
  show "run_body decode_AppCredit b = Inr m \<longleftrightarrow> AppCredit_UnmarshalBinary b = Inr m" for b m
    by (simp add: decode_AppCredit_def)
  show "AppCredit_UnmarshalBinary b = Inr m \<Longrightarrow> b = layout_AppCredit m \<and> fits_AppCredit m" for b m
    by (auto simp: AppCredit_UnmarshalBinary_def layout_AppCredit_def fits_AppCredit_def run_body_eq_Inr rbind_eq_Inr dec_iffs)
qed

interpretation appClose: strict_message layout_AppClose fits_AppClose AppClose_MarshalBinary AppClose_UnmarshalBinary decode_AppClose
proof unfold_locales
  show "AppClose_MarshalBinary m = Inr b \<Longrightarrow> b = layout_AppClose m" for m b
    by (auto simp: AppClose_MarshalBinary_def layout_AppClose_def split: if_splits elim!: Marshal_unchecked_out intro!: emits_intros)
  show "fits_AppClose m \<Longrightarrow> AppClose_UnmarshalBinary (layout_AppClose m) = Inr m" for m
    by (simp add: AppClose_UnmarshalBinary_def layout_AppClose_def fits_AppClose_def body_simps wire_simps)
  show "run_body decode_AppClose b = Inr m \<longleftrightarrow> AppClose_UnmarshalBinary b = Inr m" for b m
    by (simp add: decode_AppClose_def)
  show "AppClose_UnmarshalBinary b = Inr m \<Longrightarrow> b = layout_AppClose m \<and> fits_AppClose m" for b m
    by (auto simp: AppClose_UnmarshalBinary_def layout_AppClose_def fits_AppClose_def run_body_eq_Inr rbind_eq_Inr dec_iffs)
qed

interpretation appReset: strict_message layout_AppReset fits_AppReset AppReset_MarshalBinary AppReset_UnmarshalBinary decode_AppReset
proof unfold_locales
  show "AppReset_MarshalBinary m = Inr b \<Longrightarrow> b = layout_AppReset m" for m b
    by (auto simp: AppReset_MarshalBinary_def layout_AppReset_def split: if_splits elim!: Marshal_unchecked_out intro!: emits_intros)
  show "fits_AppReset m \<Longrightarrow> AppReset_UnmarshalBinary (layout_AppReset m) = Inr m" for m
    by (simp add: AppReset_UnmarshalBinary_def layout_AppReset_def fits_AppReset_def body_simps wire_simps)
  show "run_body decode_AppReset b = Inr m \<longleftrightarrow> AppReset_UnmarshalBinary b = Inr m" for b m
    by (simp add: decode_AppReset_def)
  show "AppReset_UnmarshalBinary b = Inr m \<Longrightarrow> b = layout_AppReset m \<and> fits_AppReset m" for b m
    by (auto simp: AppReset_UnmarshalBinary_def layout_AppReset_def fits_AppReset_def run_body_eq_Inr rbind_eq_Inr dec_iffs)
qed

text \<open>
  C16. The app channel decoders are strict and canonical: each of the seven accepts a
  body exactly when the body is the layout of the decoded message, with no byte
  missing and none after it, and its strings and byte fields fit their prefixes.
\<close>

theorem app_messages_strict:
  "(run_body decode_AppOpen b = Inr m1 \<longleftrightarrow> b = layout_AppOpen m1 \<and> fits_AppOpen m1)
   \<and> (run_body decode_AppAccept b = Inr m2 \<longleftrightarrow> b = layout_AppAccept m2 \<and> fits_AppAccept m2)
   \<and> (run_body decode_AppReject b = Inr m3 \<longleftrightarrow> b = layout_AppReject m3 \<and> fits_AppReject m3)
   \<and> (run_body decode_AppData b = Inr m4 \<longleftrightarrow> b = layout_AppData m4 \<and> fits_AppData m4)
   \<and> (run_body decode_AppCredit b = Inr m5 \<longleftrightarrow> b = layout_AppCredit m5 \<and> fits_AppCredit m5)
   \<and> (run_body decode_AppClose b = Inr m6 \<longleftrightarrow> b = layout_AppClose m6 \<and> fits_AppClose m6)
   \<and> (run_body decode_AppReset b = Inr m7 \<longleftrightarrow> b = layout_AppReset m7 \<and> fits_AppReset m7)"
  by (simp only: appOpen.decode_agrees appOpen.unmarshal_iff appAccept.decode_agrees appAccept.unmarshal_iff appReject.decode_agrees appReject.unmarshal_iff appData.decode_agrees appData.unmarshal_iff appCredit.decode_agrees appCredit.unmarshal_iff appClose.decode_agrees appClose.unmarshal_iff appReset.decode_agrees appReset.unmarshal_iff)

end
