(* ===== verification/Messages_Control.thy ===== *)
theory Messages_Control
  imports Message
begin

text \<open>
  The control messages of \<^verbatim>\<open>protocol/messages/control.go\<close> with STARTED and ERROR
  (\<^verbatim>\<open>started.go\<close>, \<^verbatim>\<open>error.go\<close>). The two sync messages are strict: any payload is
  an error.
\<close>

section \<open>Messages without a body\<close>

definition decodeEmptyControlMessage :: "(bytes \<Rightarrow> goerr + 'm) \<Rightarrow> 'm parser" where
  "decodeEmptyControlMessage um =
     rbind io_ReadAll (\<lambda>body. case um body of Inl e \<Rightarrow> raise e | Inr m \<Rightarrow> ret m)"

datatype PingMsg = PingMsg

definition PingMsg_MarshalBinary :: "PingMsg \<Rightarrow> goerr + bytes" where
  "PingMsg_MarshalBinary m = Inr []"

definition PingMsg_UnmarshalBinary :: "bytes \<Rightarrow> goerr + PingMsg" where
  "PingMsg_UnmarshalBinary data = Inr PingMsg"

definition decode_PingMsg :: "PingMsg parser" where
  "decode_PingMsg = ret PingMsg"

datatype PongMsg = PongMsg

definition PongMsg_MarshalBinary :: "PongMsg \<Rightarrow> goerr + bytes" where
  "PongMsg_MarshalBinary m = Inr []"

definition PongMsg_UnmarshalBinary :: "bytes \<Rightarrow> goerr + PongMsg" where
  "PongMsg_UnmarshalBinary data = Inr PongMsg"

definition decode_PongMsg :: "PongMsg parser" where
  "decode_PongMsg = ret PongMsg"

datatype ShutdownMsg = ShutdownMsg

definition ShutdownMsg_MarshalBinary :: "ShutdownMsg \<Rightarrow> goerr + bytes" where
  "ShutdownMsg_MarshalBinary m = Inr []"

definition ShutdownMsg_UnmarshalBinary :: "bytes \<Rightarrow> goerr + ShutdownMsg" where
  "ShutdownMsg_UnmarshalBinary data = Inr ShutdownMsg"

definition decode_ShutdownMsg :: "ShutdownMsg parser" where
  "decode_ShutdownMsg = ret ShutdownMsg"

datatype ShutdownAckMsg = ShutdownAckMsg

definition ShutdownAckMsg_MarshalBinary :: "ShutdownAckMsg \<Rightarrow> goerr + bytes" where
  "ShutdownAckMsg_MarshalBinary m = Inr []"

definition ShutdownAckMsg_UnmarshalBinary :: "bytes \<Rightarrow> goerr + ShutdownAckMsg" where
  "ShutdownAckMsg_UnmarshalBinary data = Inr ShutdownAckMsg"

definition decode_ShutdownAckMsg :: "ShutdownAckMsg parser" where
  "decode_ShutdownAckMsg = ret ShutdownAckMsg"

datatype SyncFilesystemsMsg = SyncFilesystemsMsg

definition SyncFilesystemsMsg_MarshalBinary :: "SyncFilesystemsMsg \<Rightarrow> goerr + bytes" where
  "SyncFilesystemsMsg_MarshalBinary m = Inr []"

definition SyncFilesystemsMsg_UnmarshalBinary :: "bytes \<Rightarrow> goerr + SyncFilesystemsMsg" where
  "SyncFilesystemsMsg_UnmarshalBinary data = (if length data \<noteq> 0 then Inl (NewError ''sync_filesystems: unexpected payload'') else Inr SyncFilesystemsMsg)"

definition decode_SyncFilesystemsMsg :: "SyncFilesystemsMsg parser" where
  "decode_SyncFilesystemsMsg = decodeEmptyControlMessage SyncFilesystemsMsg_UnmarshalBinary"

datatype SyncFilesystemsAckMsg = SyncFilesystemsAckMsg

definition SyncFilesystemsAckMsg_MarshalBinary :: "SyncFilesystemsAckMsg \<Rightarrow> goerr + bytes" where
  "SyncFilesystemsAckMsg_MarshalBinary m = Inr []"

definition SyncFilesystemsAckMsg_UnmarshalBinary :: "bytes \<Rightarrow> goerr + SyncFilesystemsAckMsg" where
  "SyncFilesystemsAckMsg_UnmarshalBinary data = (if length data \<noteq> 0 then Inl (NewError ''sync_filesystems_ack: unexpected payload'') else Inr SyncFilesystemsAckMsg)"

definition decode_SyncFilesystemsAckMsg :: "SyncFilesystemsAckMsg parser" where
  "decode_SyncFilesystemsAckMsg = decodeEmptyControlMessage SyncFilesystemsAckMsg_UnmarshalBinary"

lemma run_decodeEmptyControlMessage [simp]: "run_body (decodeEmptyControlMessage um) b = um b"
  by (simp add: run_body_def decodeEmptyControlMessage_def rbind_def io_ReadAll_def bytes_NewReader_def
      split: sum.split)

lemma PingMsg_single: "PingMsg = m"
  by (cases m) simp

interpretation pingMsg: lenient_message "\<lambda>_. []" "\<lambda>_. True" PingMsg_MarshalBinary PingMsg_UnmarshalBinary decode_PingMsg
  by unfold_locales (auto simp: PingMsg_MarshalBinary_def PingMsg_UnmarshalBinary_def decode_PingMsg_def
      intro: PingMsg_single split: if_splits)

lemma PongMsg_single: "PongMsg = m"
  by (cases m) simp

interpretation pongMsg: lenient_message "\<lambda>_. []" "\<lambda>_. True" PongMsg_MarshalBinary PongMsg_UnmarshalBinary decode_PongMsg
  by unfold_locales (auto simp: PongMsg_MarshalBinary_def PongMsg_UnmarshalBinary_def decode_PongMsg_def
      intro: PongMsg_single split: if_splits)

lemma ShutdownMsg_single: "ShutdownMsg = m"
  by (cases m) simp

interpretation shutdownMsg: lenient_message "\<lambda>_. []" "\<lambda>_. True" ShutdownMsg_MarshalBinary ShutdownMsg_UnmarshalBinary decode_ShutdownMsg
  by unfold_locales (auto simp: ShutdownMsg_MarshalBinary_def ShutdownMsg_UnmarshalBinary_def decode_ShutdownMsg_def
      intro: ShutdownMsg_single split: if_splits)

lemma ShutdownAckMsg_single: "ShutdownAckMsg = m"
  by (cases m) simp

interpretation shutdownAckMsg: lenient_message "\<lambda>_. []" "\<lambda>_. True" ShutdownAckMsg_MarshalBinary ShutdownAckMsg_UnmarshalBinary decode_ShutdownAckMsg
  by unfold_locales (auto simp: ShutdownAckMsg_MarshalBinary_def ShutdownAckMsg_UnmarshalBinary_def decode_ShutdownAckMsg_def
      intro: ShutdownAckMsg_single split: if_splits)

lemma SyncFilesystemsMsg_single: "SyncFilesystemsMsg = m"
  by (cases m) simp

interpretation syncFilesystemsMsg: strict_message "\<lambda>_. []" "\<lambda>_. True" SyncFilesystemsMsg_MarshalBinary SyncFilesystemsMsg_UnmarshalBinary decode_SyncFilesystemsMsg
  by unfold_locales (auto simp: SyncFilesystemsMsg_MarshalBinary_def SyncFilesystemsMsg_UnmarshalBinary_def decode_SyncFilesystemsMsg_def
      intro: SyncFilesystemsMsg_single split: if_splits)

lemma SyncFilesystemsAckMsg_single: "SyncFilesystemsAckMsg = m"
  by (cases m) simp

interpretation syncFilesystemsAckMsg: strict_message "\<lambda>_. []" "\<lambda>_. True" SyncFilesystemsAckMsg_MarshalBinary SyncFilesystemsAckMsg_UnmarshalBinary decode_SyncFilesystemsAckMsg
  by unfold_locales (auto simp: SyncFilesystemsAckMsg_MarshalBinary_def SyncFilesystemsAckMsg_UnmarshalBinary_def decode_SyncFilesystemsAckMsg_def
      intro: SyncFilesystemsAckMsg_single split: if_splits)

section \<open>Messages\<close>

subsection \<open>StartedMsg\<close>

record StartedMsg =
  st_Stream :: bool

definition StartedMsg_MarshalBinary :: "StartedMsg \<Rightarrow> goerr + bytes" where
  "StartedMsg_MarshalBinary m =
     Marshal_unchecked (WriteBool (st_Stream m))"

definition StartedMsg_UnmarshalBinary :: "bytes \<Rightarrow> goerr + StartedMsg" where
  "StartedMsg_UnmarshalBinary = run_body (
     rbind (errw ''started: read stream'' ReadBool) (\<lambda>stream.
       ret \<lparr>st_Stream = stream\<rparr>))"

definition decode_StartedMsg :: "StartedMsg parser" where
  "decode_StartedMsg =
     rbind (errw ''started: read stream'' ReadBool) (\<lambda>stream.
       ret \<lparr>st_Stream = stream\<rparr>)"

subsection \<open>ErrorMsg\<close>

record ErrorMsg =
  er_Code :: uint16
  er_Message :: string

definition ErrorMsg_MarshalBinary :: "ErrorMsg \<Rightarrow> goerr + bytes" where
  "ErrorMsg_MarshalBinary m =
     Marshal_unchecked (wseq (WriteUint16 (er_Code m)) (WriteString (er_Message m)))"

definition ErrorMsg_UnmarshalBinary :: "bytes \<Rightarrow> goerr + ErrorMsg" where
  "ErrorMsg_UnmarshalBinary = run_body (
     rbind (errw ''error: read code'' ReadUint16) (\<lambda>code.
     rbind (errw ''error: read message'' ReadString) (\<lambda>msg.
       ret \<lparr>er_Code = code, er_Message = msg\<rparr>)))"

definition decode_ErrorMsg :: "ErrorMsg parser" where
  "decode_ErrorMsg =
     rbind (errw ''error: read code'' ReadUint16) (\<lambda>code.
     rbind (errw ''error: read message'' ReadString) (\<lambda>msg.
       ret \<lparr>er_Code = code, er_Message = msg\<rparr>))"

section \<open>Layouts\<close>

definition layout_StartedMsg :: "StartedMsg \<Rightarrow> bytes" where
  "layout_StartedMsg m = enc_bool (st_Stream m)"

definition fits_StartedMsg :: "StartedMsg \<Rightarrow> bool" where
  "fits_StartedMsg m \<longleftrightarrow> True"

definition layout_ErrorMsg :: "ErrorMsg \<Rightarrow> bytes" where
  "layout_ErrorMsg m = enc_u16 (er_Code m) @ enc_string (er_Message m)"

definition fits_ErrorMsg :: "ErrorMsg \<Rightarrow> bool" where
  "fits_ErrorMsg m \<longleftrightarrow> fits16 (er_Message m)"

section \<open>Contracts\<close>

interpretation startedMsg: lenient_message layout_StartedMsg fits_StartedMsg StartedMsg_MarshalBinary StartedMsg_UnmarshalBinary decode_StartedMsg
proof unfold_locales
  show "StartedMsg_MarshalBinary m = Inr b \<Longrightarrow> b = layout_StartedMsg m" for m b
    by (auto simp: StartedMsg_MarshalBinary_def layout_StartedMsg_def split: if_splits elim!: Marshal_unchecked_out intro!: emits_intros)
  show "fits_StartedMsg m \<Longrightarrow> StartedMsg_UnmarshalBinary (layout_StartedMsg m) = Inr m" for m
    by (simp add: StartedMsg_UnmarshalBinary_def layout_StartedMsg_def fits_StartedMsg_def body_simps wire_simps)
  show "run_body decode_StartedMsg b = Inr m \<longleftrightarrow> StartedMsg_UnmarshalBinary b = Inr m" for b m
    by (simp add: decode_StartedMsg_def StartedMsg_UnmarshalBinary_def run_body_eq_Inr rbind_eq_Inr)
  show "fits_StartedMsg m \<Longrightarrow> StartedMsg_UnmarshalBinary (layout_StartedMsg m @ newer) = Inr m" for m newer
    by (simp add: StartedMsg_UnmarshalBinary_def layout_StartedMsg_def fits_StartedMsg_def body_simps wire_simps)
qed

interpretation errorMsg: lenient_message layout_ErrorMsg fits_ErrorMsg ErrorMsg_MarshalBinary ErrorMsg_UnmarshalBinary decode_ErrorMsg
proof unfold_locales
  show "ErrorMsg_MarshalBinary m = Inr b \<Longrightarrow> b = layout_ErrorMsg m" for m b
    by (auto simp: ErrorMsg_MarshalBinary_def layout_ErrorMsg_def split: if_splits elim!: Marshal_unchecked_out intro!: emits_intros)
  show "fits_ErrorMsg m \<Longrightarrow> ErrorMsg_UnmarshalBinary (layout_ErrorMsg m) = Inr m" for m
    by (simp add: ErrorMsg_UnmarshalBinary_def layout_ErrorMsg_def fits_ErrorMsg_def body_simps wire_simps)
  show "run_body decode_ErrorMsg b = Inr m \<longleftrightarrow> ErrorMsg_UnmarshalBinary b = Inr m" for b m
    by (simp add: decode_ErrorMsg_def ErrorMsg_UnmarshalBinary_def run_body_eq_Inr rbind_eq_Inr)
  show "fits_ErrorMsg m \<Longrightarrow> ErrorMsg_UnmarshalBinary (layout_ErrorMsg m @ newer) = Inr m" for m newer
    by (simp add: ErrorMsg_UnmarshalBinary_def layout_ErrorMsg_def fits_ErrorMsg_def body_simps wire_simps)
qed

end
