(* ===== verification/Messages_Events.thy ===== *)
theory Messages_Events
  imports Message
begin

text \<open>
  The guest's events, \<^verbatim>\<open>protocol/messages/events.go\<close>.
\<close>

section \<open>Messages\<close>

subsection \<open>EventReady\<close>

record EventReady =
  ev_Version :: string

definition EventReady_MarshalBinary :: "EventReady \<Rightarrow> goerr + bytes" where
  "EventReady_MarshalBinary m =
     Marshal_unchecked (WriteString (ev_Version m))"

definition EventReady_UnmarshalBinary :: "bytes \<Rightarrow> goerr + EventReady" where
  "EventReady_UnmarshalBinary = run_body (
     rbind (errw ''event_ready: read version'' ReadString) (\<lambda>ver.
       ret \<lparr>ev_Version = ver\<rparr>))"

definition decode_EventReady :: "EventReady parser" where
  "decode_EventReady =
     rbind (errw ''event_ready'' ReadString) (\<lambda>ver.
       ret \<lparr>ev_Version = ver\<rparr>)"

subsection \<open>EventFileReceived\<close>

record EventFileReceived =
  ef_Path :: string
  ef_Size :: uint64

definition EventFileReceived_MarshalBinary :: "EventFileReceived \<Rightarrow> goerr + bytes" where
  "EventFileReceived_MarshalBinary m =
     Marshal_unchecked (wseq (WriteString (ef_Path m)) (WriteUint64 (ef_Size m)))"

definition EventFileReceived_UnmarshalBinary :: "bytes \<Rightarrow> goerr + EventFileReceived" where
  "EventFileReceived_UnmarshalBinary = run_body (
     rbind (errw ''event_file_received: read path'' ReadString) (\<lambda>path.
     rbind (errw ''event_file_received: read size'' ReadUint64) (\<lambda>sz.
       ret \<lparr>ef_Path = path, ef_Size = sz\<rparr>)))"

definition decode_EventFileReceived :: "EventFileReceived parser" where
  "decode_EventFileReceived =
     rbind (errw ''event_file_received'' ReadString) (\<lambda>path.
     rbind (errw ''event_file_received'' ReadUint64) (\<lambda>sz.
       ret \<lparr>ef_Path = path, ef_Size = sz\<rparr>))"

subsection \<open>EventMount\<close>

record EventMount =
  em_Path :: string
  em_FsType :: string

definition EventMount_MarshalBinary :: "EventMount \<Rightarrow> goerr + bytes" where
  "EventMount_MarshalBinary m =
     Marshal_unchecked (wseq (WriteString (em_Path m)) (WriteString (em_FsType m)))"

definition EventMount_UnmarshalBinary :: "bytes \<Rightarrow> goerr + EventMount" where
  "EventMount_UnmarshalBinary = run_body (
     rbind (errw ''event_mount: read path'' ReadString) (\<lambda>path.
     rbind (errw ''event_mount: read fstype'' ReadString) (\<lambda>fstype.
       ret \<lparr>em_Path = path, em_FsType = fstype\<rparr>)))"

definition decode_EventMount :: "EventMount parser" where
  "decode_EventMount =
     rbind (errw ''event_mount'' ReadString) (\<lambda>path.
     rbind (errw ''event_mount'' ReadString) (\<lambda>fstype.
       ret \<lparr>em_Path = path, em_FsType = fstype\<rparr>))"

subsection \<open>EventErrorMsg\<close>

record EventErrorMsg =
  ee_Code :: uint16
  ee_Message :: string

definition EventErrorMsg_MarshalBinary :: "EventErrorMsg \<Rightarrow> goerr + bytes" where
  "EventErrorMsg_MarshalBinary m =
     Marshal_unchecked (wseq (WriteUint16 (ee_Code m)) (WriteString (ee_Message m)))"

definition EventErrorMsg_UnmarshalBinary :: "bytes \<Rightarrow> goerr + EventErrorMsg" where
  "EventErrorMsg_UnmarshalBinary = run_body (
     rbind (errw ''event_error: read code'' ReadUint16) (\<lambda>code.
     rbind (errw ''event_error: read message'' ReadString) (\<lambda>msg.
       ret \<lparr>ee_Code = code, ee_Message = msg\<rparr>)))"

definition decode_EventErrorMsg :: "EventErrorMsg parser" where
  "decode_EventErrorMsg =
     rbind (errw ''event_error'' ReadUint16) (\<lambda>code.
     rbind (errw ''event_error'' ReadString) (\<lambda>msg.
       ret \<lparr>ee_Code = code, ee_Message = msg\<rparr>))"

subsection \<open>EventLog\<close>

record EventLog =
  el_Level :: uint8
  el_Message :: string
  el_TSNs :: uint64

definition EventLog_MarshalBinary :: "EventLog \<Rightarrow> goerr + bytes" where
  "EventLog_MarshalBinary m =
     Marshal_unchecked (wseq (WriteUint8 (el_Level m))
    (wseq (WriteString (el_Message m)) (WriteUint64 (el_TSNs m))))"

definition EventLog_UnmarshalBinary :: "bytes \<Rightarrow> goerr + EventLog" where
  "EventLog_UnmarshalBinary = run_body (
     rbind (errw ''event_log: read level'' ReadUint8) (\<lambda>lvl.
     rbind (errw ''event_log: read message'' ReadString) (\<lambda>msg.
     rbind (errw ''event_log: read ts_ns'' ReadUint64) (\<lambda>ts.
       ret \<lparr>el_Level = lvl, el_Message = msg, el_TSNs = ts\<rparr>))))"

definition decode_EventLog :: "EventLog parser" where
  "decode_EventLog =
     rbind (errw ''event_log'' ReadUint8) (\<lambda>lvl.
     rbind (errw ''event_log'' ReadString) (\<lambda>msg.
     rbind (errw ''event_log'' ReadUint64) (\<lambda>ts.
       ret \<lparr>el_Level = lvl, el_Message = msg, el_TSNs = ts\<rparr>)))"

subsection \<open>EventInitFailed\<close>

record EventInitFailed =
  ei_Version :: string
  ei_Reason :: string

definition EventInitFailed_MarshalBinary :: "EventInitFailed \<Rightarrow> goerr + bytes" where
  "EventInitFailed_MarshalBinary m =
     Marshal (wthen (WriteString (ei_Version m)) (WriteString (ei_Reason m)))"

definition EventInitFailed_UnmarshalBinary :: "bytes \<Rightarrow> goerr + EventInitFailed" where
  "EventInitFailed_UnmarshalBinary = run_body (
     rbind (errw ''event_init_failed: read version'' ReadString) (\<lambda>ver.
     rbind (errw ''event_init_failed: read reason'' ReadString) (\<lambda>reason.
       ret \<lparr>ei_Version = ver, ei_Reason = reason\<rparr>)))"

definition decode_EventInitFailed :: "EventInitFailed parser" where
  "decode_EventInitFailed =
     rbind (errw ''event_init_failed: read version'' ReadString) (\<lambda>ver.
     rbind (errw ''event_init_failed: read reason'' ReadString) (\<lambda>reason.
       ret \<lparr>ei_Version = ver, ei_Reason = reason\<rparr>))"

section \<open>Layouts\<close>

definition layout_EventReady :: "EventReady \<Rightarrow> bytes" where
  "layout_EventReady m = enc_string (ev_Version m)"

definition fits_EventReady :: "EventReady \<Rightarrow> bool" where
  "fits_EventReady m \<longleftrightarrow> fits16 (ev_Version m)"

definition layout_EventFileReceived :: "EventFileReceived \<Rightarrow> bytes" where
  "layout_EventFileReceived m = enc_string (ef_Path m) @ enc_u64 (ef_Size m)"

definition fits_EventFileReceived :: "EventFileReceived \<Rightarrow> bool" where
  "fits_EventFileReceived m \<longleftrightarrow> fits16 (ef_Path m)"

definition layout_EventMount :: "EventMount \<Rightarrow> bytes" where
  "layout_EventMount m = enc_string (em_Path m) @ enc_string (em_FsType m)"

definition fits_EventMount :: "EventMount \<Rightarrow> bool" where
  "fits_EventMount m \<longleftrightarrow> fits16 (em_Path m) \<and> fits16 (em_FsType m)"

definition layout_EventErrorMsg :: "EventErrorMsg \<Rightarrow> bytes" where
  "layout_EventErrorMsg m = enc_u16 (ee_Code m) @ enc_string (ee_Message m)"

definition fits_EventErrorMsg :: "EventErrorMsg \<Rightarrow> bool" where
  "fits_EventErrorMsg m \<longleftrightarrow> fits16 (ee_Message m)"

definition layout_EventLog :: "EventLog \<Rightarrow> bytes" where
  "layout_EventLog m = enc_u8 (el_Level m) @ enc_string (el_Message m) @ enc_u64 (el_TSNs m)"

definition fits_EventLog :: "EventLog \<Rightarrow> bool" where
  "fits_EventLog m \<longleftrightarrow> fits16 (el_Message m)"

definition layout_EventInitFailed :: "EventInitFailed \<Rightarrow> bytes" where
  "layout_EventInitFailed m = enc_string (ei_Version m) @ enc_string (ei_Reason m)"

definition fits_EventInitFailed :: "EventInitFailed \<Rightarrow> bool" where
  "fits_EventInitFailed m \<longleftrightarrow> fits16 (ei_Version m) \<and> fits16 (ei_Reason m)"

section \<open>Contracts\<close>

interpretation eventReady: lenient_message layout_EventReady fits_EventReady EventReady_MarshalBinary EventReady_UnmarshalBinary decode_EventReady
proof unfold_locales
  show "EventReady_MarshalBinary m = Inr b \<Longrightarrow> b = layout_EventReady m" for m b
    by (auto simp: EventReady_MarshalBinary_def layout_EventReady_def split: if_splits elim!: Marshal_unchecked_out intro!: emits_intros)
  show "fits_EventReady m \<Longrightarrow> EventReady_UnmarshalBinary (layout_EventReady m) = Inr m" for m
    by (simp add: EventReady_UnmarshalBinary_def layout_EventReady_def fits_EventReady_def body_simps wire_simps)
  show "run_body decode_EventReady b = Inr m \<longleftrightarrow> EventReady_UnmarshalBinary b = Inr m" for b m
    by (simp add: decode_EventReady_def EventReady_UnmarshalBinary_def run_body_eq_Inr rbind_eq_Inr)
  show "fits_EventReady m \<Longrightarrow> EventReady_UnmarshalBinary (layout_EventReady m @ newer) = Inr m" for m newer
    by (simp add: EventReady_UnmarshalBinary_def layout_EventReady_def fits_EventReady_def body_simps wire_simps)
qed

interpretation eventFileReceived: lenient_message layout_EventFileReceived fits_EventFileReceived EventFileReceived_MarshalBinary EventFileReceived_UnmarshalBinary decode_EventFileReceived
proof unfold_locales
  show "EventFileReceived_MarshalBinary m = Inr b \<Longrightarrow> b = layout_EventFileReceived m" for m b
    by (auto simp: EventFileReceived_MarshalBinary_def layout_EventFileReceived_def split: if_splits elim!: Marshal_unchecked_out intro!: emits_intros)
  show "fits_EventFileReceived m \<Longrightarrow> EventFileReceived_UnmarshalBinary (layout_EventFileReceived m) = Inr m" for m
    by (simp add: EventFileReceived_UnmarshalBinary_def layout_EventFileReceived_def fits_EventFileReceived_def body_simps wire_simps)
  show "run_body decode_EventFileReceived b = Inr m \<longleftrightarrow> EventFileReceived_UnmarshalBinary b = Inr m" for b m
    by (simp add: decode_EventFileReceived_def EventFileReceived_UnmarshalBinary_def run_body_eq_Inr rbind_eq_Inr)
  show "fits_EventFileReceived m \<Longrightarrow> EventFileReceived_UnmarshalBinary (layout_EventFileReceived m @ newer) = Inr m" for m newer
    by (simp add: EventFileReceived_UnmarshalBinary_def layout_EventFileReceived_def fits_EventFileReceived_def body_simps wire_simps)
qed

interpretation eventMount: lenient_message layout_EventMount fits_EventMount EventMount_MarshalBinary EventMount_UnmarshalBinary decode_EventMount
proof unfold_locales
  show "EventMount_MarshalBinary m = Inr b \<Longrightarrow> b = layout_EventMount m" for m b
    by (auto simp: EventMount_MarshalBinary_def layout_EventMount_def split: if_splits elim!: Marshal_unchecked_out intro!: emits_intros)
  show "fits_EventMount m \<Longrightarrow> EventMount_UnmarshalBinary (layout_EventMount m) = Inr m" for m
    by (simp add: EventMount_UnmarshalBinary_def layout_EventMount_def fits_EventMount_def body_simps wire_simps)
  show "run_body decode_EventMount b = Inr m \<longleftrightarrow> EventMount_UnmarshalBinary b = Inr m" for b m
    by (simp add: decode_EventMount_def EventMount_UnmarshalBinary_def run_body_eq_Inr rbind_eq_Inr)
  show "fits_EventMount m \<Longrightarrow> EventMount_UnmarshalBinary (layout_EventMount m @ newer) = Inr m" for m newer
    by (simp add: EventMount_UnmarshalBinary_def layout_EventMount_def fits_EventMount_def body_simps wire_simps)
qed

interpretation eventErrorMsg: lenient_message layout_EventErrorMsg fits_EventErrorMsg EventErrorMsg_MarshalBinary EventErrorMsg_UnmarshalBinary decode_EventErrorMsg
proof unfold_locales
  show "EventErrorMsg_MarshalBinary m = Inr b \<Longrightarrow> b = layout_EventErrorMsg m" for m b
    by (auto simp: EventErrorMsg_MarshalBinary_def layout_EventErrorMsg_def split: if_splits elim!: Marshal_unchecked_out intro!: emits_intros)
  show "fits_EventErrorMsg m \<Longrightarrow> EventErrorMsg_UnmarshalBinary (layout_EventErrorMsg m) = Inr m" for m
    by (simp add: EventErrorMsg_UnmarshalBinary_def layout_EventErrorMsg_def fits_EventErrorMsg_def body_simps wire_simps)
  show "run_body decode_EventErrorMsg b = Inr m \<longleftrightarrow> EventErrorMsg_UnmarshalBinary b = Inr m" for b m
    by (simp add: decode_EventErrorMsg_def EventErrorMsg_UnmarshalBinary_def run_body_eq_Inr rbind_eq_Inr)
  show "fits_EventErrorMsg m \<Longrightarrow> EventErrorMsg_UnmarshalBinary (layout_EventErrorMsg m @ newer) = Inr m" for m newer
    by (simp add: EventErrorMsg_UnmarshalBinary_def layout_EventErrorMsg_def fits_EventErrorMsg_def body_simps wire_simps)
qed

interpretation eventLog: lenient_message layout_EventLog fits_EventLog EventLog_MarshalBinary EventLog_UnmarshalBinary decode_EventLog
proof unfold_locales
  show "EventLog_MarshalBinary m = Inr b \<Longrightarrow> b = layout_EventLog m" for m b
    by (auto simp: EventLog_MarshalBinary_def layout_EventLog_def split: if_splits elim!: Marshal_unchecked_out intro!: emits_intros)
  show "fits_EventLog m \<Longrightarrow> EventLog_UnmarshalBinary (layout_EventLog m) = Inr m" for m
    by (simp add: EventLog_UnmarshalBinary_def layout_EventLog_def fits_EventLog_def body_simps wire_simps)
  show "run_body decode_EventLog b = Inr m \<longleftrightarrow> EventLog_UnmarshalBinary b = Inr m" for b m
    by (simp add: decode_EventLog_def EventLog_UnmarshalBinary_def run_body_eq_Inr rbind_eq_Inr)
  show "fits_EventLog m \<Longrightarrow> EventLog_UnmarshalBinary (layout_EventLog m @ newer) = Inr m" for m newer
    by (simp add: EventLog_UnmarshalBinary_def layout_EventLog_def fits_EventLog_def body_simps wire_simps)
qed

interpretation eventInitFailed: lenient_message layout_EventInitFailed fits_EventInitFailed EventInitFailed_MarshalBinary EventInitFailed_UnmarshalBinary decode_EventInitFailed
proof unfold_locales
  show "EventInitFailed_MarshalBinary m = Inr b \<Longrightarrow> b = layout_EventInitFailed m" for m b
    by (auto simp: EventInitFailed_MarshalBinary_def layout_EventInitFailed_def split: if_splits elim!: Marshal_out intro!: emits_intros)
  show "fits_EventInitFailed m \<Longrightarrow> EventInitFailed_UnmarshalBinary (layout_EventInitFailed m) = Inr m" for m
    by (simp add: EventInitFailed_UnmarshalBinary_def layout_EventInitFailed_def fits_EventInitFailed_def body_simps wire_simps)
  show "run_body decode_EventInitFailed b = Inr m \<longleftrightarrow> EventInitFailed_UnmarshalBinary b = Inr m" for b m
    by (simp add: decode_EventInitFailed_def EventInitFailed_UnmarshalBinary_def run_body_eq_Inr rbind_eq_Inr)
  show "fits_EventInitFailed m \<Longrightarrow> EventInitFailed_UnmarshalBinary (layout_EventInitFailed m @ newer) = Inr m" for m newer
    by (simp add: EventInitFailed_UnmarshalBinary_def layout_EventInitFailed_def fits_EventInitFailed_def body_simps wire_simps)
qed

end
