(* ===== verification/Messages_Exec.thy ===== *)
theory Messages_Exec
  imports Message
begin

text \<open>
  The exec messages, \<^verbatim>\<open>protocol/messages/exec.go\<close>, with the validation of
  a command and the \<^verbatim>\<open>path.Clean\<close> it relies on.
\<close>

section \<open>path.Clean\<close>

text \<open>
  The standard library's \<^verbatim>\<open>path.Clean\<close>: one pass over the path with an output
  buffer; \<open>dotdot\<close> is where backtracking over \<^verbatim>\<open>..\<close> must stop.
\<close>

fun backtrack :: "nat \<Rightarrow> string \<Rightarrow> nat \<Rightarrow> string" where
  "backtrack dotdot buf w =
     (if w > dotdot \<and> buf ! w \<noteq> CHR ''/'' then backtrack dotdot buf (w - 1) else take w buf)"

declare backtrack.simps [simp del]

function clean_loop :: "bool \<Rightarrow> string \<Rightarrow> nat \<Rightarrow> string \<Rightarrow> string" where
  "clean_loop rooted [] dotdot out = out"
| "clean_loop rooted (c # r) dotdot out =
     (if c = CHR ''/'' then clean_loop rooted r dotdot out
      else if c = CHR ''.'' \<and> (r = [] \<or> hd r = CHR ''/'') then clean_loop rooted r dotdot out
      else if c = CHR ''.'' \<and> hd r = CHR ''.'' \<and> (tl r = [] \<or> hd (tl r) = CHR ''/'') then
        (if length out > dotdot then clean_loop rooted (tl r) dotdot (backtrack dotdot out (length out - 1))
         else if \<not> rooted then
           (let out = (if length out > 0 then out @ ''/'' else out) @ ''..'' in
            clean_loop rooted (tl r) (length out) out)
         else clean_loop rooted (tl r) dotdot out)
      else
        (let out = (if rooted \<and> length out \<noteq> 1 \<or> \<not> rooted \<and> length out \<noteq> 0 then out @ ''/'' else out) in
         clean_loop rooted (dropWhile (\<lambda>x. x \<noteq> CHR ''/'') (c # r)) dotdot
           (out @ takeWhile (\<lambda>x. x \<noteq> CHR ''/'') (c # r))))"
  by pat_completeness auto

termination clean_loop
  by (relation "measure (\<lambda>(rooted, p, dotdot, out). length p)") (auto intro: le_imp_less_Suc length_dropWhile_le)

definition path_Clean :: "string \<Rightarrow> string" where
  "path_Clean path =
     (if path = [] then ''.''
      else
        (let rooted = (hd path = CHR ''/'');
             out = (if rooted then clean_loop rooted (tl path) 1 ''/'' else clean_loop rooted path 0 []) in
         if out = [] then ''.'' else out))"

definition path_IsAbs :: "string \<Rightarrow> bool" where
  "path_IsAbs path \<longleftrightarrow> path \<noteq> [] \<and> hd path = CHR ''/''"

section \<open>ExecCmd\<close>

record ExecCmd =
  xm_Command :: string
  xm_Workdir :: string
  xm_Env :: "(string, string) gomap"
  xm_TimeoutMs :: "int64 option"
  xm_Spec :: bytes

text \<open>
  The body of a command is JSON. The decoder of the standard library is a parameter
  here: \<open>json_Decode\<close> is \<^verbatim>\<open>Decode\<close> with unknown fields disallowed, applied to a
  zero command, with the unread input as second result; \<open>json_More\<close> is
  \<^verbatim>\<open>More\<close> on that input; \<open>json_Marshal\<close> is \<^verbatim>\<open>json.Marshal\<close>.
\<close>

definition zero_ExecCmd :: ExecCmd where
  "zero_ExecCmd = \<lparr>xm_Command = [], xm_Workdir = [], xm_Env = [], xm_TimeoutMs = None, xm_Spec = []\<rparr>"

definition ExecCmd_MarshalBinary :: "(ExecCmd \<Rightarrow> goerr + bytes) \<Rightarrow> ExecCmd \<Rightarrow> goerr + bytes" where
  "ExecCmd_MarshalBinary json_Marshal m = json_Marshal m"

definition ExecCmd_UnmarshalBinary ::
  "(bytes \<Rightarrow> goerr + (ExecCmd \<times> bytes)) \<Rightarrow> (bytes \<Rightarrow> bool) \<Rightarrow> bytes \<Rightarrow> goerr + ExecCmd"
where
  "ExecCmd_UnmarshalBinary json_Decode json_More data =
     (case json_Decode data of
        Inl err \<Rightarrow>
          if errors_Is err EOF then Inr zero_ExecCmd else Inl (Errorw ''exec: decode body'' err)
      | Inr (m, unread) \<Rightarrow>
          if json_More unread then Inl (NewError ''exec: trailing data after body'') else Inr m)"

definition decode_ExecCmd ::
  "(bytes \<Rightarrow> goerr + (ExecCmd \<times> bytes)) \<Rightarrow> (bytes \<Rightarrow> bool) \<Rightarrow> ExecCmd parser"
where
  "decode_ExecCmd json_Decode json_More =
     rbind (errw ''exec: read body'' io_ReadAll) (\<lambda>data.
       case ExecCmd_UnmarshalBinary json_Decode json_More data of Inl e \<Rightarrow> raise e | Inr m \<Rightarrow> ret m)"

definition ExecCmd_Validate :: "ExecCmd \<Rightarrow> goerr option" where
  "ExecCmd_Validate m =
     (if xm_Command m = [] then Some (NewError ''command is required'')
      else if xm_Workdir m = [] then Some (NewError ''workdir is required'')
      else if \<not> path_IsAbs (xm_Workdir m) then Some (NewError ''workdir must be absolute'')
      else if path_Clean (xm_Workdir m) \<noteq> xm_Workdir m then Some (NewError ''workdir must be clean (no . or ..)'')
      else if CHR 0x00 \<in> set (xm_Workdir m) then Some (NewError ''workdir contains NUL'')
      else case xm_TimeoutMs m of
             Some t \<Rightarrow> if sint t \<le> 0 then Some (NewError ''timeout_ms must be positive'') else None
           | None \<Rightarrow> None)"

text \<open>
  \<^verbatim>\<open>bytes.TrimSpace\<close> of the standard library: \<open>white_space\<close> are the UTF-8 forms of the characters
  that \<^verbatim>\<open>unicode.IsSpace\<close> accepts, and \<open>strip\<close> removes them from the front.
\<close>

definition white_space :: "bytes list" where
  "white_space =
     [[0x09], [0x0A], [0x0B], [0x0C], [0x0D], [0x20], [0xC2, 0x85], [0xC2, 0xA0], [0xE1, 0x9A, 0x80]]
     @ map (\<lambda>i. [0xE2, 0x80, 0x80 + word_of_nat i]) [0..<11]
     @ [[0xE2, 0x80, 0xA8], [0xE2, 0x80, 0xA9], [0xE2, 0x80, 0xAF], [0xE2, 0x81, 0x9F], [0xE3, 0x80, 0x80]]"

function strip :: "bytes list \<Rightarrow> bytes \<Rightarrow> bytes" where
  "strip ws b =
     (case find (\<lambda>w. w \<noteq> [] \<and> take (length w) b = w) ws of None \<Rightarrow> b | Some w \<Rightarrow> strip ws (drop (length w) b))"
  by pat_completeness auto

termination strip
proof (relation "measure (\<lambda>(ws, b). length b)")
  fix ws b w
  assume "find (\<lambda>w. w \<noteq> [] \<and> take (length w) b = w) ws = Some w"
  then have "w \<noteq> []" "take (length w) b = w"
    by (auto simp: find_Some_iff)
  then have "0 < length w" "b \<noteq> []"
    by auto
  then show "((ws, drop (length w) b), (ws, b)) \<in> measure (\<lambda>(ws, b). length b)"
    by simp
qed simp

declare strip.simps [simp del]

definition bytes_TrimSpace :: "bytes \<Rightarrow> bytes" where
  "bytes_TrimSpace s = rev (strip (map rev white_space) (rev (strip white_space s)))"

definition ExecCmd_HasSpec :: "ExecCmd \<Rightarrow> bool" where
  "ExecCmd_HasSpec m \<longleftrightarrow>
     (let s = bytes_TrimSpace (xm_Spec m) in length s > 0 \<and> s \<noteq> bytes_of_string ''null'')"

lemma strip_space:
  assumes "b \<in> {0x09, 0x0A, 0x0B, 0x0C, 0x0D, 0x20}"
  shows "strip white_space (b # r) = strip white_space r"
    and "strip (map rev white_space) (b # r) = strip (map rev white_space) r"
  using assms by (auto simp: strip.simps [of _ "b # r"] white_space_def)

lemma strip_spaces:
  assumes "set xs \<subseteq> {0x09, 0x0A, 0x0B, 0x0C, 0x0D, 0x20}"
  shows "strip white_space (xs @ r) = strip white_space r"
    and "strip (map rev white_space) (xs @ r) = strip (map rev white_space) r"
  using assms by (induction xs) (auto simp: strip_space)

text \<open>An absent payload, \<^verbatim>\<open>null\<close>, and either with ASCII white space around it, are no payload.\<close>

lemma HasSpec_none:
  assumes "set xs \<subseteq> {0x09, 0x0A, 0x0B, 0x0C, 0x0D, 0x20}" and "set ys \<subseteq> {0x09, 0x0A, 0x0B, 0x0C, 0x0D, 0x20}"
    and "xm_Spec m = xs @ s @ ys" and "s = [] \<or> s = bytes_of_string ''null''"
  shows "\<not> ExecCmd_HasSpec m"
proof -
  have null: "bytes_of_string ''null'' = [0x6E, 0x75, 0x6C, 0x6C]"
    by (simp add: bytes_of_string_def byte_of_char_def)
  have ends: "strip white_space [] = []" "strip (map rev white_space) [] = []"
    "strip white_space (0x6E # r) = 0x6E # r" "strip (map rev white_space) (0x6C # r) = 0x6C # r" for r
    by (simp_all add: strip.simps white_space_def upt_rec)
  have rev: "set (rev ys) \<subseteq> {0x09, 0x0A, 0x0B, 0x0C, 0x0D, 0x20}"
    using assms(2) by simp
  have "bytes_TrimSpace (xm_Spec m) = s"
    using assms(4) strip_spaces(1) [OF assms(1)] strip_spaces [OF assms(2), of "[]"] strip_spaces(2) [OF rev]
    by (auto simp: bytes_TrimSpace_def assms(3) null ends)
  with assms(4) show ?thesis
    by (auto simp: ExecCmd_HasSpec_def Let_def)
qed

section \<open>Messages\<close>

subsection \<open>ExecResult\<close>

record ExecResult =
  xr_ExitCode :: int32
  xr_Stdout :: bytes
  xr_Stderr :: bytes
  xr_DurationMs :: uint32

definition ExecResult_MarshalBinary :: "ExecResult \<Rightarrow> goerr + bytes" where
  "ExecResult_MarshalBinary m =
     Marshal (wthen (WriteInt32 (xr_ExitCode m))
    (wthen (WriteBytes (xr_Stdout m))
    (wthen (WriteBytes (xr_Stderr m)) (WriteUint32 (xr_DurationMs m)))))"

definition ExecResult_UnmarshalBinary :: "bytes \<Rightarrow> goerr + ExecResult" where
  "ExecResult_UnmarshalBinary = run_body (
     rbind (errw ''exec_result: read exit_code'' ReadInt32) (\<lambda>exit.
     rbind (errw ''exec_result: read stdout'' ReadBytes) (\<lambda>stdout.
     rbind (errw ''exec_result: read stderr'' ReadBytes) (\<lambda>stderr.
     rbind (errw ''exec_result: read duration'' ReadUint32) (\<lambda>dur.
       ret \<lparr>xr_ExitCode = exit, xr_Stdout = stdout, xr_Stderr = stderr, xr_DurationMs = dur\<rparr>)))))"

definition decode_ExecResult :: "ExecResult parser" where
  "decode_ExecResult =
     rbind (errw ''exec_result: read exit_code'' ReadInt32) (\<lambda>exit.
     rbind (errw ''exec_result: read stdout'' ReadBytes) (\<lambda>stdout.
     rbind (errw ''exec_result: read stderr'' ReadBytes) (\<lambda>stderr.
     rbind (errw ''exec_result: read duration'' ReadUint32) (\<lambda>dur.
       ret \<lparr>xr_ExitCode = exit, xr_Stdout = stdout, xr_Stderr = stderr, xr_DurationMs = dur\<rparr>))))"

subsection \<open>ExecStream\<close>

record ExecStream =
  xs_Channel :: uint8
  xs_Sequence :: uint32
  xs_Data :: bytes

definition ExecStream_MarshalBinary :: "ExecStream \<Rightarrow> goerr + bytes" where
  "ExecStream_MarshalBinary m =
     Marshal (wthen (WriteUint8 (xs_Channel m))
    (wthen (WriteUint32 (xs_Sequence m)) (WriteBytes (xs_Data m))))"

definition ExecStream_UnmarshalBinary :: "bytes \<Rightarrow> goerr + ExecStream" where
  "ExecStream_UnmarshalBinary = run_body (
     rbind (errw ''exec_stream: read channel'' ReadUint8) (\<lambda>ch.
     rbind (errw ''exec_stream: read sequence'' ReadUint32) (\<lambda>sq.
     rbind (errw ''exec_stream: read data'' ReadBytes) (\<lambda>d.
       ret \<lparr>xs_Channel = ch, xs_Sequence = sq, xs_Data = d\<rparr>))))"

definition decode_ExecStream :: "ExecStream parser" where
  "decode_ExecStream =
     rbind (errw ''exec_stream: read channel'' ReadUint8) (\<lambda>ch.
     rbind (errw ''exec_stream: read sequence'' ReadUint32) (\<lambda>sq.
     rbind (errw ''exec_stream: read data'' ReadBytes) (\<lambda>d.
       ret \<lparr>xs_Channel = ch, xs_Sequence = sq, xs_Data = d\<rparr>)))"

section \<open>Layouts\<close>

definition layout_ExecResult :: "ExecResult \<Rightarrow> bytes" where
  "layout_ExecResult m = enc_u32 (xr_ExitCode m) @ enc_bytes (xr_Stdout m) @ enc_bytes (xr_Stderr m) @ enc_u32 (xr_DurationMs m)"

definition fits_ExecResult :: "ExecResult \<Rightarrow> bool" where
  "fits_ExecResult m \<longleftrightarrow> fits32 (xr_Stdout m) \<and> fits32 (xr_Stderr m)"

definition layout_ExecStream :: "ExecStream \<Rightarrow> bytes" where
  "layout_ExecStream m = enc_u8 (xs_Channel m) @ enc_u32 (xs_Sequence m) @ enc_bytes (xs_Data m)"

definition fits_ExecStream :: "ExecStream \<Rightarrow> bool" where
  "fits_ExecStream m \<longleftrightarrow> fits32 (xs_Data m)"

section \<open>Contracts\<close>

interpretation execResult: lenient_message layout_ExecResult fits_ExecResult ExecResult_MarshalBinary ExecResult_UnmarshalBinary decode_ExecResult
proof unfold_locales
  show "ExecResult_MarshalBinary m = Inr b \<Longrightarrow> b = layout_ExecResult m" for m b
    by (auto simp: ExecResult_MarshalBinary_def layout_ExecResult_def split: if_splits elim!: Marshal_out intro!: emits_intros)
  show "fits_ExecResult m \<Longrightarrow> ExecResult_UnmarshalBinary (layout_ExecResult m) = Inr m" for m
    by (simp add: ExecResult_UnmarshalBinary_def layout_ExecResult_def fits_ExecResult_def body_simps wire_simps)
  show "run_body decode_ExecResult b = Inr m \<longleftrightarrow> ExecResult_UnmarshalBinary b = Inr m" for b m
    by (simp add: decode_ExecResult_def ExecResult_UnmarshalBinary_def run_body_eq_Inr rbind_eq_Inr)
  show "fits_ExecResult m \<Longrightarrow> ExecResult_UnmarshalBinary (layout_ExecResult m @ newer) = Inr m" for m newer
    by (simp add: ExecResult_UnmarshalBinary_def layout_ExecResult_def fits_ExecResult_def body_simps wire_simps)
qed

interpretation execStream: lenient_message layout_ExecStream fits_ExecStream ExecStream_MarshalBinary ExecStream_UnmarshalBinary decode_ExecStream
proof unfold_locales
  show "ExecStream_MarshalBinary m = Inr b \<Longrightarrow> b = layout_ExecStream m" for m b
    by (auto simp: ExecStream_MarshalBinary_def layout_ExecStream_def split: if_splits elim!: Marshal_out intro!: emits_intros)
  show "fits_ExecStream m \<Longrightarrow> ExecStream_UnmarshalBinary (layout_ExecStream m) = Inr m" for m
    by (simp add: ExecStream_UnmarshalBinary_def layout_ExecStream_def fits_ExecStream_def body_simps wire_simps)
  show "run_body decode_ExecStream b = Inr m \<longleftrightarrow> ExecStream_UnmarshalBinary b = Inr m" for b m
    by (simp add: decode_ExecStream_def ExecStream_UnmarshalBinary_def run_body_eq_Inr rbind_eq_Inr)
  show "fits_ExecStream m \<Longrightarrow> ExecStream_UnmarshalBinary (layout_ExecStream m @ newer) = Inr m" for m newer
    by (simp add: ExecStream_UnmarshalBinary_def layout_ExecStream_def fits_ExecStream_def body_simps wire_simps)
qed

section \<open>What a valid working directory is\<close>

text \<open>
  The meaning of the check: a path given by its segments, none of which is empty,
  holds a slash or is a dot segment.
\<close>

definition good_segment :: "string \<Rightarrow> bool" where
  "good_segment s \<longleftrightarrow> s \<noteq> [] \<and> CHR ''/'' \<notin> set s \<and> s \<noteq> ''.'' \<and> s \<noteq> ''..''"

definition render :: "string list \<Rightarrow> string" where
  "render segs = (if segs = [] then ''/'' else concat (map (\<lambda>s. CHR ''/'' # s) segs))"

lemma render_snoc [simp]:
  "render (segs @ [s]) = (if segs = [] then ''/'' @ s else render segs @ ''/'' @ s)"
  by (simp add: render_def)

lemma length_render: "list_all good_segment segs \<Longrightarrow> length (render segs) = 1 \<longleftrightarrow> segs = []"
  by (cases segs) (auto simp: render_def good_segment_def)

lemma backtrack_to:
  assumes "dotdot \<le> k" and "k \<le> w" and "k = dotdot \<or> buf ! k = CHR ''/''"
    and "\<And>i. k < i \<Longrightarrow> i \<le> w \<Longrightarrow> buf ! i \<noteq> CHR ''/''"
  shows "backtrack dotdot buf w = take k buf"
  using assms(2,4)
proof (induction w)
  case 0
  then show ?case by (subst backtrack.simps) simp
next
  case (Suc w)
  show ?case
  proof (cases "k = Suc w")
    case True
    then show ?thesis using assms(3) by (subst backtrack.simps) auto
  next
    case False
    then have "backtrack dotdot buf w = take k buf"
      using Suc by simp
    with False Suc.prems assms(1) show ?thesis
      by (subst backtrack.simps) simp
  qed
qed

lemma backtrack_render:
  assumes "list_all good_segment (segs @ [s])"
  shows "backtrack 1 (render (segs @ [s])) (length (render (segs @ [s])) - 1) = render segs"
proof -
  have noslash: "i < length s \<Longrightarrow> s ! i \<noteq> CHR ''/''" for i
    using assms by (auto simp: good_segment_def) (metis nth_mem)
  have ne: "s \<noteq> []"
    using assms by (simp add: good_segment_def)
  show ?thesis
  proof (cases "segs = []")
    case True
    have "backtrack 1 (''/'' @ s) (length s) = take 1 (''/'' @ s)"
      using noslash ne by (intro backtrack_to) (auto simp: nth_Cons' Suc_le_eq)
    then show ?thesis
      using True by (simp add: render_def)
  next
    case False
    let ?p = "render segs"
    have p: "1 < length ?p"
      using False assms by (cases segs) (auto simp: render_def good_segment_def Suc_le_eq)
    have "backtrack 1 (?p @ ''/'' @ s) (length ?p + length s) = take (length ?p) (?p @ ''/'' @ s)"
      using noslash ne p by (intro backtrack_to) (auto simp: nth_append nth_Cons')
    then show ?thesis
      using False by simp
  qed
qed

lemma takeWhile_segment:
  assumes "c \<noteq> CHR ''/''" and "\<not> (c = CHR ''.'' \<and> (r = [] \<or> hd r = CHR ''/''))"
    and "\<not> (c = CHR ''.'' \<and> hd r = CHR ''.'' \<and> (tl r = [] \<or> hd (tl r) = CHR ''/''))"
  shows "good_segment (takeWhile (\<lambda>x. x \<noteq> CHR ''/'') (c # r))"
  unfolding good_segment_def
proof (intro conjI)
  show "CHR ''/'' \<notin> set (takeWhile (\<lambda>x. x \<noteq> CHR ''/'') (c # r))"
    using set_takeWhileD [of "CHR ''/''" "\<lambda>x. x \<noteq> CHR ''/''" "c # r"] by blast
  show "takeWhile (\<lambda>x. x \<noteq> CHR ''/'') (c # r) \<noteq> ''.''"
    using assms(1,2) by (cases r) auto
  show "takeWhile (\<lambda>x. x \<noteq> CHR ''/'') (c # r) \<noteq> ''..''"
  proof (cases r)
    case (Cons d r')
    with assms show ?thesis by (cases r') auto
  qed (use assms(1) in simp)
qed (use assms(1) in simp)

lemma clean_loop_render:
  "list_all good_segment segs \<Longrightarrow>
     \<exists>segs'. list_all good_segment segs' \<and> clean_loop True p 1 (render segs) = render segs'"
proof (induction p arbitrary: segs rule: length_induct)
  case (1 p)
  show ?case
  proof (cases p)
    case Nil
    then show ?thesis using "1.prems" by auto
  next
    case (Cons c r)
    let ?ss = "c = CHR ''/''"
    let ?dot = "c = CHR ''.'' \<and> (r = [] \<or> hd r = CHR ''/'')"
    let ?dots = "c = CHR ''.'' \<and> hd r = CHR ''.'' \<and> (tl r = [] \<or> hd (tl r) = CHR ''/'')"
    consider "?ss \<or> ?dot" | "\<not> ?ss" "\<not> ?dot" "?dots" | "\<not> ?ss" "\<not> ?dot" "\<not> ?dots"
      by blast
    then show ?thesis
    proof cases
      case 1
      then show ?thesis
        using "1.IH" "1.prems" Cons by auto
    next
      case 2
      have IH: "\<exists>segs'. list_all good_segment segs' \<and> clean_loop True (tl r) 1 (render ss) = render segs'"
        if "list_all good_segment ss" for ss
        using "1.IH" that Cons by simp
      show ?thesis
      proof (cases segs rule: rev_cases)
        case Nil
        then show ?thesis
          using 2 Cons IH [of "[]"] by (simp add: render_def)
      next
        case (snoc ss s)
        moreover have "1 < length (render (ss @ [s]))"
          using "1.prems" snoc by (auto simp: good_segment_def render_def)
        ultimately show ?thesis
          using 2 Cons IH [of ss] "1.prems" backtrack_render [of ss s] by simp
      qed
    next
      case 3
      let ?seg = "takeWhile (\<lambda>x. x \<noteq> CHR ''/'') (c # r)"
      let ?rest = "dropWhile (\<lambda>x. x \<noteq> CHR ''/'') (c # r)"
      have "list_all good_segment (segs @ [?seg])"
        using "1.prems" takeWhile_segment [OF 3] by simp
      moreover have "length ?rest < length p"
        using 3(1) Cons length_dropWhile_le [of "\<lambda>x. x \<noteq> CHR ''/''" r] by simp
      ultimately obtain segs' where "list_all good_segment segs'"
        and "clean_loop True ?rest 1 (render (segs @ [?seg])) = render segs'"
        using "1.IH" by blast
      moreover have "clean_loop True p 1 (render segs) = clean_loop True ?rest 1 (render (segs @ [?seg]))"
        using 3 Cons length_render [OF "1.prems"] by (auto simp: Let_def render_def simp del: render_snoc)
      ultimately show ?thesis by auto
    qed
  qed
qed

lemma takeWhile_good:
  "good_segment s \<Longrightarrow> takeWhile (\<lambda>x. x \<noteq> CHR ''/'') (s @ concat (map (\<lambda>s. CHR ''/'' # s) rest)) = s"
  "good_segment s \<Longrightarrow> dropWhile (\<lambda>x. x \<noteq> CHR ''/'') (s @ concat (map (\<lambda>s. CHR ''/'' # s) rest))
     = concat (map (\<lambda>s. CHR ''/'' # s) rest)"
proof -
  assume "good_segment s"
  then have "\<forall>x \<in> set s. x \<noteq> CHR ''/''"
    by (auto simp: good_segment_def)
  then show "takeWhile (\<lambda>x. x \<noteq> CHR ''/'') (s @ concat (map (\<lambda>s. CHR ''/'' # s) rest)) = s"
    and "dropWhile (\<lambda>x. x \<noteq> CHR ''/'') (s @ concat (map (\<lambda>s. CHR ''/'' # s) rest))
      = concat (map (\<lambda>s. CHR ''/'' # s) rest)"
    by (cases rest; simp add: takeWhile_append dropWhile_append)+
qed

lemma clean_loop_segment:
  assumes "list_all good_segment segs" and "good_segment s"
  shows "clean_loop True (s @ concat (map (\<lambda>s. CHR ''/'' # s) rest)) 1 (render segs)
    = clean_loop True (concat (map (\<lambda>s. CHR ''/'' # s) rest)) 1 (render (segs @ [s]))"
proof -
  let ?k = "concat (map (\<lambda>s. CHR ''/'' # s) rest)"
  obtain c r where s: "s = c # r"
    using assms(2) by (cases s) (auto simp: good_segment_def)
  have "c \<noteq> CHR ''/''" and "\<not> (c = CHR ''.'' \<and> (r @ ?k = [] \<or> hd (r @ ?k) = CHR ''/''))"
    and "\<not> (c = CHR ''.'' \<and> hd (r @ ?k) = CHR ''.'' \<and> (tl (r @ ?k) = [] \<or> hd (tl (r @ ?k)) = CHR ''/''))"
    using assms(2) s by (cases r; cases "tl r"; cases rest; auto simp: good_segment_def)+
  then show ?thesis
    using takeWhile_good [OF assms(2), of rest] length_render [OF assms(1)] s
    by (auto simp: Let_def render_def simp del: render_snoc)
qed

lemma clean_loop_id:
  "list_all good_segment (segs @ rest) \<Longrightarrow>
     clean_loop True (concat (map (\<lambda>s. CHR ''/'' # s) rest)) 1 (render segs) = render (segs @ rest)"
proof (induction rest arbitrary: segs)
  case (Cons s rest)
  then show ?case
    using Cons.IH [of "segs @ [s]"] clean_loop_segment [of segs s rest] by simp
qed simp

lemma path_Clean_render:
  "path_IsAbs p \<and> path_Clean p = p \<longleftrightarrow> (\<exists>segs. list_all good_segment segs \<and> p = render segs)"
proof
  assume p: "path_IsAbs p \<and> path_Clean p = p"
  have r: "render [] = ''/''" by (simp add: render_def)
  obtain segs where "list_all good_segment segs" and "clean_loop True (tl p) 1 ''/'' = render segs"
    using clean_loop_render [of "[]" "tl p"] by (auto simp: r)
  moreover have "render segs \<noteq> []" by (simp add: render_def)
  ultimately have "list_all good_segment segs \<and> p = render segs"
    using p by (auto simp: path_IsAbs_def path_Clean_def Let_def split: if_splits)
  then show "\<exists>segs. list_all good_segment segs \<and> p = render segs" ..
next
  assume "\<exists>segs. list_all good_segment segs \<and> p = render segs"
  then obtain segs where g: "list_all good_segment segs" and p: "p = render segs" by blast
  have hd: "hd p = CHR ''/'' \<and> p \<noteq> []"
    using p by (cases segs) (simp_all add: render_def)
  have "clean_loop True (tl p) 1 ''/'' = render segs"
  proof (cases segs)
    case Nil
    then show ?thesis using p by (simp add: render_def)
  next
    case (Cons s ss)
    then have "clean_loop True p 1 (render []) = render segs"
      using clean_loop_id [of "[]" segs] g p by (simp add: render_def)
    then show ?thesis
      using p Cons by (simp add: render_def)
  qed
  with hd p show "path_IsAbs p \<and> path_Clean p = p"
    by (auto simp: path_IsAbs_def path_Clean_def Let_def)
qed

text \<open>
  C12. What a validated command may do. Validation succeeds exactly for a command
  that is not empty, with a working directory that is the root or a path of
  non-empty segments none of which is \<open>.\<close> or \<open>..\<close> (so it cannot climb out of a
  directory prefix), without NUL, and with a timeout that is absent or positive as
  a signed 64-bit number.
\<close>

theorem ExecCmd_Validate_iff:
  "ExecCmd_Validate m = None \<longleftrightarrow>
     xm_Command m \<noteq> []
     \<and> (\<exists>segs. list_all good_segment segs \<and> xm_Workdir m = render segs)
     \<and> CHR 0x00 \<notin> set (xm_Workdir m)
     \<and> (case xm_TimeoutMs m of None \<Rightarrow> True | Some t \<Rightarrow> 0 < sint t)"
proof -
  have "xm_Workdir m \<noteq> []" if "path_IsAbs (xm_Workdir m)"
    using that by (simp add: path_IsAbs_def)
  then show ?thesis
    unfolding path_Clean_render [symmetric] ExecCmd_Validate_def
    by (auto split: option.splits)
qed

end
