(* ===== verification/Messages_File.thy ===== *)
theory Messages_File
  imports Message
begin

text \<open>
  The file transfer messages, \<^verbatim>\<open>protocol/messages/file.go\<close>.
\<close>

section \<open>Messages\<close>

subsection \<open>XferInit\<close>

record XferInit =
  xi_Path :: string
  xi_TotalSize :: uint32
  xi_Dir :: uint8

definition XferInit_MarshalBinary :: "XferInit \<Rightarrow> goerr + bytes" where
  "XferInit_MarshalBinary m =
     Marshal_unchecked (wseq (WriteString (xi_Path m))
    (wseq (WriteUint32 (xi_TotalSize m)) (WriteUint8 (xi_Dir m))))"

definition XferInit_UnmarshalBinary :: "bytes \<Rightarrow> goerr + XferInit" where
  "XferInit_UnmarshalBinary = run_body (
     rbind (errw ''xfer_init: read path'' ReadString) (\<lambda>path.
     rbind (errw ''xfer_init: read total_size'' ReadUint32) (\<lambda>sz.
     rbind (errw ''xfer_init: read dir'' ReadUint8) (\<lambda>dir.
       ret \<lparr>xi_Path = path, xi_TotalSize = sz, xi_Dir = dir\<rparr>))))"

definition decode_XferInit :: "XferInit parser" where
  "decode_XferInit =
     rbind (errw ''xfer_init'' ReadString) (\<lambda>path.
     rbind (errw ''xfer_init'' ReadUint32) (\<lambda>sz.
     rbind (errw ''xfer_init'' ReadUint8) (\<lambda>dir.
       ret \<lparr>xi_Path = path, xi_TotalSize = sz, xi_Dir = dir\<rparr>)))"

subsection \<open>XferChunk\<close>

record XferChunk =
  xc_Seq :: uint32
  xc_Data :: bytes

definition XferChunk_MarshalBinary :: "XferChunk \<Rightarrow> goerr + bytes" where
  "XferChunk_MarshalBinary m =
     Marshal_unchecked (wseq (WriteUint32 (xc_Seq m)) (WriteBytes (xc_Data m)))"

definition XferChunk_UnmarshalBinary :: "bytes \<Rightarrow> goerr + XferChunk" where
  "XferChunk_UnmarshalBinary = run_body (
     rbind (errw ''xfer_chunk: read seq'' ReadUint32) (\<lambda>sq.
     rbind (errw ''xfer_chunk: read data'' ReadBytes) (\<lambda>d.
       ret \<lparr>xc_Seq = sq, xc_Data = d\<rparr>)))"

definition decode_XferChunk :: "XferChunk parser" where
  "decode_XferChunk =
     rbind (errw ''xfer_chunk'' ReadUint32) (\<lambda>sq.
     rbind (errw ''xfer_chunk'' ReadBytes) (\<lambda>d.
       ret \<lparr>xc_Seq = sq, xc_Data = d\<rparr>))"

subsection \<open>XferDone\<close>

record XferDone =
  xd_Ok :: bool
  xd_ChunksReceived :: uint32
  xd_BytesWritten :: uint64

definition XferDone_MarshalBinary :: "XferDone \<Rightarrow> goerr + bytes" where
  "XferDone_MarshalBinary m =
     Marshal_unchecked (wseq (WriteBool (xd_Ok m))
    (wseq (WriteUint32 (xd_ChunksReceived m)) (WriteUint64 (xd_BytesWritten m))))"

definition XferDone_UnmarshalBinary :: "bytes \<Rightarrow> goerr + XferDone" where
  "XferDone_UnmarshalBinary = run_body (
     rbind (errw ''xfer_done: read ok'' ReadBool) (\<lambda>ok.
     rbind (errw ''xfer_done: read chunks_received'' ReadUint32) (\<lambda>chunks.
     rbind (errw ''xfer_done: read bytes_written'' ReadUint64) (\<lambda>written.
       ret \<lparr>xd_Ok = ok, xd_ChunksReceived = chunks, xd_BytesWritten = written\<rparr>))))"

definition decode_XferDone :: "XferDone parser" where
  "decode_XferDone =
     rbind (errw ''xfer_done'' ReadBool) (\<lambda>ok.
     rbind (errw ''xfer_done'' ReadUint32) (\<lambda>chunks.
     rbind (errw ''xfer_done'' ReadUint64) (\<lambda>written.
       ret \<lparr>xd_Ok = ok, xd_ChunksReceived = chunks, xd_BytesWritten = written\<rparr>)))"

section \<open>Layouts\<close>

definition layout_XferInit :: "XferInit \<Rightarrow> bytes" where
  "layout_XferInit m = enc_string (xi_Path m) @ enc_u32 (xi_TotalSize m) @ enc_u8 (xi_Dir m)"

definition fits_XferInit :: "XferInit \<Rightarrow> bool" where
  "fits_XferInit m \<longleftrightarrow> fits16 (xi_Path m)"

definition layout_XferChunk :: "XferChunk \<Rightarrow> bytes" where
  "layout_XferChunk m = enc_u32 (xc_Seq m) @ enc_bytes (xc_Data m)"

definition fits_XferChunk :: "XferChunk \<Rightarrow> bool" where
  "fits_XferChunk m \<longleftrightarrow> fits32 (xc_Data m)"

definition layout_XferDone :: "XferDone \<Rightarrow> bytes" where
  "layout_XferDone m = enc_bool (xd_Ok m) @ enc_u32 (xd_ChunksReceived m) @ enc_u64 (xd_BytesWritten m)"

definition fits_XferDone :: "XferDone \<Rightarrow> bool" where
  "fits_XferDone m \<longleftrightarrow> True"

section \<open>Contracts\<close>

interpretation xferInit: lenient_message layout_XferInit fits_XferInit XferInit_MarshalBinary XferInit_UnmarshalBinary decode_XferInit
proof unfold_locales
  show "XferInit_MarshalBinary m = Inr b \<Longrightarrow> b = layout_XferInit m" for m b
    by (auto simp: XferInit_MarshalBinary_def layout_XferInit_def split: if_splits elim!: Marshal_unchecked_out intro!: emits_intros)
  show "fits_XferInit m \<Longrightarrow> XferInit_UnmarshalBinary (layout_XferInit m) = Inr m" for m
    by (simp add: XferInit_UnmarshalBinary_def layout_XferInit_def fits_XferInit_def body_simps wire_simps)
  show "run_body decode_XferInit b = Inr m \<longleftrightarrow> XferInit_UnmarshalBinary b = Inr m" for b m
    by (simp add: decode_XferInit_def XferInit_UnmarshalBinary_def run_body_eq_Inr rbind_eq_Inr)
  show "fits_XferInit m \<Longrightarrow> XferInit_UnmarshalBinary (layout_XferInit m @ newer) = Inr m" for m newer
    by (simp add: XferInit_UnmarshalBinary_def layout_XferInit_def fits_XferInit_def body_simps wire_simps)
qed

interpretation xferChunk: lenient_message layout_XferChunk fits_XferChunk XferChunk_MarshalBinary XferChunk_UnmarshalBinary decode_XferChunk
proof unfold_locales
  show "XferChunk_MarshalBinary m = Inr b \<Longrightarrow> b = layout_XferChunk m" for m b
    by (auto simp: XferChunk_MarshalBinary_def layout_XferChunk_def split: if_splits elim!: Marshal_unchecked_out intro!: emits_intros)
  show "fits_XferChunk m \<Longrightarrow> XferChunk_UnmarshalBinary (layout_XferChunk m) = Inr m" for m
    by (simp add: XferChunk_UnmarshalBinary_def layout_XferChunk_def fits_XferChunk_def body_simps wire_simps)
  show "run_body decode_XferChunk b = Inr m \<longleftrightarrow> XferChunk_UnmarshalBinary b = Inr m" for b m
    by (simp add: decode_XferChunk_def XferChunk_UnmarshalBinary_def run_body_eq_Inr rbind_eq_Inr)
  show "fits_XferChunk m \<Longrightarrow> XferChunk_UnmarshalBinary (layout_XferChunk m @ newer) = Inr m" for m newer
    by (simp add: XferChunk_UnmarshalBinary_def layout_XferChunk_def fits_XferChunk_def body_simps wire_simps)
qed

interpretation xferDone: lenient_message layout_XferDone fits_XferDone XferDone_MarshalBinary XferDone_UnmarshalBinary decode_XferDone
proof unfold_locales
  show "XferDone_MarshalBinary m = Inr b \<Longrightarrow> b = layout_XferDone m" for m b
    by (auto simp: XferDone_MarshalBinary_def layout_XferDone_def split: if_splits elim!: Marshal_unchecked_out intro!: emits_intros)
  show "fits_XferDone m \<Longrightarrow> XferDone_UnmarshalBinary (layout_XferDone m) = Inr m" for m
    by (simp add: XferDone_UnmarshalBinary_def layout_XferDone_def fits_XferDone_def body_simps wire_simps)
  show "run_body decode_XferDone b = Inr m \<longleftrightarrow> XferDone_UnmarshalBinary b = Inr m" for b m
    by (simp add: decode_XferDone_def XferDone_UnmarshalBinary_def run_body_eq_Inr rbind_eq_Inr)
  show "fits_XferDone m \<Longrightarrow> XferDone_UnmarshalBinary (layout_XferDone m @ newer) = Inr m" for m newer
    by (simp add: XferDone_UnmarshalBinary_def layout_XferDone_def fits_XferDone_def body_simps wire_simps)
qed

end
