(* ===== verification/Messages_Status.thy ===== *)
theory Messages_Status
  imports Message
begin

text \<open>
  Status and heartbeat, \<^verbatim>\<open>protocol/messages/status.go\<close>. A heartbeat carries
  type-length-value extensions; its health and failure reason travel as such. The
  theorems show that encoding and decoding keep health and reason, and that the
  registered decoder of the heartbeat, unlike \<open>UnmarshalBinary\<close>, never sets them.
\<close>

section \<open>GetStatus and Status\<close>

datatype GetStatusMsg = GetStatusMsg

definition GetStatusMsg_MarshalBinary :: "GetStatusMsg \<Rightarrow> goerr + bytes" where
  "GetStatusMsg_MarshalBinary m = Inr []"

definition GetStatusMsg_UnmarshalBinary :: "bytes \<Rightarrow> goerr + GetStatusMsg" where
  "GetStatusMsg_UnmarshalBinary data = Inr GetStatusMsg"

definition decode_GetStatusMsg :: "GetStatusMsg parser" where
  "decode_GetStatusMsg = ret GetStatusMsg"

subsection \<open>StatusMsg\<close>

record StatusMsg =
  sm_Version :: string
  sm_PID :: uint32
  sm_ShuttingDown :: bool

definition StatusMsg_MarshalBinary :: "StatusMsg \<Rightarrow> goerr + bytes" where
  "StatusMsg_MarshalBinary m =
     Marshal (wthen (WriteString (sm_Version m))
    (wthen (WriteUint32 (sm_PID m)) (WriteBool (sm_ShuttingDown m))))"

definition StatusMsg_UnmarshalBinary :: "bytes \<Rightarrow> goerr + StatusMsg" where
  "StatusMsg_UnmarshalBinary = run_body (
     rbind (errw ''status: read version'' ReadString) (\<lambda>ver.
     rbind (errw ''status: read pid'' ReadUint32) (\<lambda>pid.
     rbind (errw ''status: read shutting_down'' ReadBool) (\<lambda>down.
       ret \<lparr>sm_Version = ver, sm_PID = pid, sm_ShuttingDown = down\<rparr>))))"

definition decode_StatusMsg :: "StatusMsg parser" where
  "decode_StatusMsg =
     rbind (errw ''status: read version'' ReadString) (\<lambda>ver.
     rbind (errw ''status: read pid'' ReadUint32) (\<lambda>pid.
     rbind (errw ''status: read shutting_down'' ReadBool) (\<lambda>down.
       ret \<lparr>sm_Version = ver, sm_PID = pid, sm_ShuttingDown = down\<rparr>)))"

definition layout_StatusMsg :: "StatusMsg \<Rightarrow> bytes" where
  "layout_StatusMsg m = enc_string (sm_Version m) @ enc_u32 (sm_PID m) @ enc_bool (sm_ShuttingDown m)"

definition fits_StatusMsg :: "StatusMsg \<Rightarrow> bool" where
  "fits_StatusMsg m \<longleftrightarrow> fits16 (sm_Version m)"

lemma GetStatusMsg_single: "GetStatusMsg = m"
  by (cases m) simp

interpretation getStatusMsg: lenient_message "\<lambda>_. []" "\<lambda>_. True" GetStatusMsg_MarshalBinary GetStatusMsg_UnmarshalBinary decode_GetStatusMsg
  by unfold_locales (auto simp: GetStatusMsg_MarshalBinary_def GetStatusMsg_UnmarshalBinary_def decode_GetStatusMsg_def
      intro: GetStatusMsg_single split: if_splits)

interpretation statusMsg: lenient_message layout_StatusMsg fits_StatusMsg StatusMsg_MarshalBinary StatusMsg_UnmarshalBinary decode_StatusMsg
proof unfold_locales
  show "StatusMsg_MarshalBinary m = Inr b \<Longrightarrow> b = layout_StatusMsg m" for m b
    by (auto simp: StatusMsg_MarshalBinary_def layout_StatusMsg_def split: if_splits elim!: Marshal_out intro!: emits_intros)
  show "fits_StatusMsg m \<Longrightarrow> StatusMsg_UnmarshalBinary (layout_StatusMsg m) = Inr m" for m
    by (simp add: StatusMsg_UnmarshalBinary_def layout_StatusMsg_def fits_StatusMsg_def body_simps wire_simps)
  show "run_body decode_StatusMsg b = Inr m \<longleftrightarrow> StatusMsg_UnmarshalBinary b = Inr m" for b m
    by (simp add: decode_StatusMsg_def StatusMsg_UnmarshalBinary_def run_body_eq_Inr rbind_eq_Inr)
  show "fits_StatusMsg m \<Longrightarrow> StatusMsg_UnmarshalBinary (layout_StatusMsg m @ newer) = Inr m" for m newer
    by (simp add: StatusMsg_UnmarshalBinary_def layout_StatusMsg_def fits_StatusMsg_def body_simps wire_simps)
qed

section \<open>Heartbeat\<close>

definition heartbeatHeaderSize :: nat where
  [simp]: "heartbeatHeaderSize = 20"

type_synonym HeartbeatFailureReason = string

definition FailureReasonInitTimeout :: HeartbeatFailureReason where
  "FailureReasonInitTimeout = ''init_timeout''"

definition FailureReasonInitPanic :: HeartbeatFailureReason where
  "FailureReasonInitPanic = ''init_panic''"

definition FailureReasonMountFailed :: HeartbeatFailureReason where
  "FailureReasonMountFailed = ''mount_failed''"

definition FailureReasonExecFailed :: HeartbeatFailureReason where
  "FailureReasonExecFailed = ''exec_failed''"

definition FailureReasonInternal :: HeartbeatFailureReason where
  "FailureReasonInternal = ''internal''"

record HeartbeatExtension =
  hx_Type :: uint16
  hx_Value :: bytes

record HeartbeatMsg =
  hb_BootID :: uint64
  hb_Seq :: uint64
  hb_State :: uint8
  hb_Flags :: uint8
  hb_Health :: uint8
  hb_FailureReason :: HeartbeatFailureReason
  hb_Extensions :: "HeartbeatExtension list"

text \<open>
  The loop of \<open>materializedExtensions\<close>: the entries appended to the result, and
  whether a health and a reason entry were seen.
\<close>

definition project_ext :: "HeartbeatMsg \<Rightarrow> HeartbeatExtension \<Rightarrow> HeartbeatExtension" where
  "project_ext m e =
     (if hx_Type e = ExtHealth then e\<lparr>hx_Value := [hb_Health m]\<rparr>
      else if hx_Type e = ExtFailureReason then
        (if hb_FailureReason m \<noteq> [] then e\<lparr>hx_Value := bytes_of_string (hb_FailureReason m)\<rparr> else e)
      else e)"

fun materialize_loop ::
  "HeartbeatMsg \<Rightarrow> HeartbeatExtension list \<Rightarrow> HeartbeatExtension list \<Rightarrow> bool \<Rightarrow> bool \<Rightarrow>
     HeartbeatExtension list \<times> bool \<times> bool"
where
  "materialize_loop m [] out seenHealth seenReason = (out, seenHealth, seenReason)"
| "materialize_loop m (e # es) out seenHealth seenReason =
     materialize_loop m es (out @ [project_ext m e])
       (if hx_Type e = ExtHealth then True else seenHealth)
       (if hx_Type e \<noteq> ExtHealth \<and> hx_Type e = ExtFailureReason then True else seenReason)"

definition materializedExtensions :: "HeartbeatMsg \<Rightarrow> HeartbeatExtension list" where
  "materializedExtensions m =
     (case materialize_loop m (hb_Extensions m) [] False False of (out, seenHealth, seenReason) \<Rightarrow>
       let out = (if \<not> seenHealth then out @ [\<lparr>hx_Type = ExtHealth, hx_Value = [hb_Health m]\<rparr>] else out) in
       if hb_State m = HeartbeatStateFailed \<and> hb_FailureReason m \<noteq> [] \<and> \<not> seenReason
       then out @ [\<lparr>hx_Type = ExtFailureReason, hx_Value = bytes_of_string (hb_FailureReason m)\<rparr>]
       else out)"

primrec writeHeartbeatExtensions :: "HeartbeatExtension list \<Rightarrow> wop" where
  "writeHeartbeatExtensions [] = wdone"
| "writeHeartbeatExtensions (e # es) =
     wthen (werrw ''ext type'' (WriteUint16 (hx_Type e)))
    (wthen (werrw ''ext length'' (WriteUint16 (word_of_nat (length (hx_Value e)))))
    (wthen (werrw ''ext value'' (io_Write (hx_Value e)))
           (writeHeartbeatExtensions es)))"

definition HeartbeatMsg_MarshalBinary :: "HeartbeatMsg \<Rightarrow> goerr + bytes" where
  "HeartbeatMsg_MarshalBinary m = Marshal (
     wthen (WriteUint64 (hb_BootID m))
    (wthen (WriteUint64 (hb_Seq m))
    (wthen (WriteUint8 (hb_State m))
    (wthen (WriteUint8 (hb_Flags m))
    (\<lambda>buf. case Marshal (writeHeartbeatExtensions (materializedExtensions m)) of
       Inl e \<Rightarrow> (Some e, buf)
     | Inr extBuf \<Rightarrow>
         wthen (WriteUint16 (word_of_nat (length extBuf))) (wseq (io_Write extBuf) wdone) buf)))))"

lemma ReadUint16_shorter: "ReadUint16 r = Inr (x, r') \<Longrightarrow> length (rd_data r) = 2 + length (rd_data r')"
  by (auto dest!: u16c.dec_exact)

lemma io_ReadFull_shorter: "io_ReadFull n r = Inr (x, r') \<Longrightarrow> length (rd_data r') \<le> length (rd_data r)"
  by (auto simp: io_ReadFull_eq_Inr)

text \<open>The loop over the extension data; it ends because every round reads at least four bytes.\<close>

function read_ext_loop :: "reader \<Rightarrow> HeartbeatExtension list \<Rightarrow> goerr + HeartbeatExtension list" where
  "read_ext_loop r exts =
     (if rd_Len r < 4 then Inr exts
      else case ReadUint16 r of
        Inl e \<Rightarrow> Inl e
      | Inr (extType, r1) \<Rightarrow>
     (case ReadUint16 r1 of
        Inl e \<Rightarrow> Inl e
      | Inr (extLen, r2) \<Rightarrow>
          if rd_Len r2 < unat extLen
          then Inl (NewError (''heartbeat: extension type='' @ fmt_d (unat extType) @ '' declared len='' @
            fmt_d (unat extLen) @ '' but only '' @ fmt_d (rd_Len r2) @ '' bytes remain''))
          else
     (case io_ReadFull (unat extLen) r2 of
        Inl e \<Rightarrow> Inl (Errorw (''heartbeat: read extension type='' @ fmt_d (unat extType) @ '' value'') e)
      | Inr (value, r3) \<Rightarrow> read_ext_loop r3 (exts @ [\<lparr>hx_Type = extType, hx_Value = value\<rparr>]))))"
  by pat_completeness auto

termination read_ext_loop
  by (relation "measure (\<lambda>(r, exts). length (rd_data r))")
    (auto dest!: ReadUint16_shorter io_ReadFull_shorter)

definition readHeartbeatExtensions :: "uint16 \<Rightarrow> HeartbeatExtension list parser" where
  "readHeartbeatExtensions payloadLen =
     (if payloadLen = 0 then ret []
      else rbind (errw ''read extension data'' (io_ReadFull (unat payloadLen))) (\<lambda>raw.
        case read_ext_loop (bytes_NewReader raw) [] of Inl e \<Rightarrow> raise e | Inr exts \<Rightarrow> ret exts))"

text \<open>The fields that \<open>UnmarshalBinary\<close> and the registered decoder both read.\<close>

definition readHeartbeat :: "HeartbeatMsg parser" where
  "readHeartbeat =
     rbind (errw ''heartbeat: read boot_id'' ReadUint64) (\<lambda>bootID.
     rbind (errw ''heartbeat: read seq'' ReadUint64) (\<lambda>sq.
     rbind (errw ''heartbeat: read state'' ReadUint8) (\<lambda>state.
     rbind (errw ''heartbeat: read flags'' ReadUint8) (\<lambda>flags.
     rbind (errw ''heartbeat: read payload_length'' ReadUint16) (\<lambda>payloadLen.
     rbind (errw ''heartbeat: read extensions'' (readHeartbeatExtensions payloadLen)) (\<lambda>exts.
       ret \<lparr>hb_BootID = bootID, hb_Seq = sq, hb_State = state, hb_Flags = flags,
            hb_Health = HealthHealthy, hb_FailureReason = [], hb_Extensions = exts\<rparr>))))))"

fun project_fields :: "HeartbeatExtension list \<Rightarrow> HeartbeatMsg \<Rightarrow> HeartbeatMsg" where
  "project_fields [] m = m"
| "project_fields (e # es) m =
     project_fields es
       (if hx_Type e = ExtHealth then
          (if length (hx_Value e) \<ge> 1 then m\<lparr>hb_Health := hx_Value e ! 0\<rparr> else m)
        else if hx_Type e = ExtFailureReason then m\<lparr>hb_FailureReason := string_of_bytes (hx_Value e)\<rparr>
        else m)"

definition HeartbeatMsg_UnmarshalBinary :: "bytes \<Rightarrow> goerr + HeartbeatMsg" where
  "HeartbeatMsg_UnmarshalBinary =
     run_body (rbind readHeartbeat (\<lambda>m. ret (project_fields (hb_Extensions m) m)))"

definition decode_HeartbeatMsg :: "HeartbeatMsg parser" where
  "decode_HeartbeatMsg = readHeartbeat"

section \<open>The wire form of the extensions\<close>

definition enc_ext :: "HeartbeatExtension \<Rightarrow> bytes" where
  "enc_ext e = enc_u16 (hx_Type e) @ enc_u16 (word_of_nat (length (hx_Value e))) @ hx_Value e"

lemma emits_exts: "emits (writeHeartbeatExtensions es) (concat (map enc_ext es))"
  by (induction es) (auto simp: enc_ext_def intro!: emits_intros)

definition layout_HeartbeatMsg :: "HeartbeatMsg \<Rightarrow> bytes" where
  "layout_HeartbeatMsg m = (let x = concat (map enc_ext (materializedExtensions m)) in
     enc_u64 (hb_BootID m) @ enc_u64 (hb_Seq m) @ enc_u8 (hb_State m) @ enc_u8 (hb_Flags m)
     @ enc_u16 (word_of_nat (length x)) @ x)"

lemma HeartbeatMsg_MarshalBinary_eq: "HeartbeatMsg_MarshalBinary m = Inr (layout_HeartbeatMsg m)"
  unfolding HeartbeatMsg_MarshalBinary_def layout_HeartbeatMsg_def Let_def Marshal_emits [OF emits_exts] sum.case
  by (rule Marshal_emits, rule emits_cong, (rule emits_intros)+) simp

lemma read_ext_loop_enc:
  "list_all (\<lambda>e. fits16 (hx_Value e)) es \<Longrightarrow>
     read_ext_loop (Reader (concat (map enc_ext es)) EOF) acc = Inr (acc @ es)"
proof (induction es arbitrary: acc)
  case Nil
  then show ?case by (simp add: rd_Len_def)
next
  case (Cons e es)
  have eta: "\<lparr>hx_Type = hx_Type e, hx_Value = hx_Value e\<rparr> = e" by simp
  from Cons show ?case
    by (subst read_ext_loop.simps)
      (simp add: enc_ext_def [of e] rd_Len_def wire_simps eta del: read_ext_loop.simps)
qed

lemma readHeartbeatExtensions_enc:
  assumes "list_all (\<lambda>e. fits16 (hx_Value e)) es" and "fits16 (concat (map enc_ext es))"
  shows "readHeartbeatExtensions (word_of_nat (length (concat (map enc_ext es))))
      (Reader (concat (map enc_ext es) @ rest) e) = Inr (es, Reader rest e)"
proof (cases "es = []")
  case False
  then have ne: "concat (map enc_ext es) \<noteq> []"
    by (cases es) (simp_all add: enc_ext_def enc_nonempty)
  define x where "x = concat (map enc_ext es)"
  have "(word_of_nat (length x) :: uint16) \<noteq> 0" and "unat (word_of_nat (length x) :: uint16) = length x"
    using ne assms(2) by (simp_all add: x_def len16_zero)
  moreover have "read_ext_loop (Reader x EOF) [] = Inr es"
    using read_ext_loop_enc [OF assms(1), of "[]"] by (simp add: x_def)
  ultimately show ?thesis
    unfolding x_def [symmetric]
    by (simp add: readHeartbeatExtensions_def rbind_def errw_def io_ReadFull_append bytes_NewReader_def)
qed (simp add: readHeartbeatExtensions_def)

section \<open>Health and failure reason\<close>

definition has_ext :: "uint16 \<Rightarrow> HeartbeatExtension list \<Rightarrow> bool" where
  "has_ext t es \<longleftrightarrow> (\<exists>e \<in> set es. hx_Type e = t)"

lemma materialize_loop_eq:
  "materialize_loop m es out h r =
     (out @ map (project_ext m) es, h \<or> has_ext ExtHealth es, r \<or> has_ext ExtFailureReason es)"
  by (induction m es out h r rule: materialize_loop.induct) (auto simp: has_ext_def)

lemma materializedExtensions_eq:
  "materializedExtensions m = map (project_ext m) (hb_Extensions m)
     @ (if has_ext ExtHealth (hb_Extensions m) then [] else [\<lparr>hx_Type = ExtHealth, hx_Value = [hb_Health m]\<rparr>])
     @ (if hb_State m = HeartbeatStateFailed \<and> hb_FailureReason m \<noteq> [] \<and> \<not> has_ext ExtFailureReason (hb_Extensions m)
        then [\<lparr>hx_Type = ExtFailureReason, hx_Value = bytes_of_string (hb_FailureReason m)\<rparr>] else [])"
  by (simp add: materializedExtensions_def materialize_loop_eq Let_def)

lemma project_fields_frame:
  "hb_BootID (project_fields es m) = hb_BootID m" "hb_Seq (project_fields es m) = hb_Seq m"
  "hb_State (project_fields es m) = hb_State m" "hb_Flags (project_fields es m) = hb_Flags m"
  "hb_Extensions (project_fields es m) = hb_Extensions m"
  by (induction es m rule: project_fields.induct) auto

lemma project_fields_health:
  "\<forall>e \<in> set es. hx_Type e = ExtHealth \<longrightarrow> hx_Value e = [h] \<Longrightarrow>
     hb_Health (project_fields es m) = (if has_ext ExtHealth es then h else hb_Health m)"
  by (induction es m rule: project_fields.induct) (auto simp: has_ext_def)

lemma project_fields_reason:
  "\<forall>e \<in> set es. hx_Type e = ExtFailureReason \<longrightarrow> hx_Value e = bytes_of_string s \<Longrightarrow>
     hb_FailureReason (project_fields es m) = (if has_ext ExtFailureReason es then s else hb_FailureReason m)"
  by (induction es m rule: project_fields.induct) (auto simp: has_ext_def)

lemma has_ext_simps [simp]:
  "\<not> has_ext t []" "has_ext t (e # es) \<longleftrightarrow> hx_Type e = t \<or> has_ext t es"
  "has_ext t (es @ fs) \<longleftrightarrow> has_ext t es \<or> has_ext t fs"
  by (auto simp: has_ext_def)

lemma project_ext_type [simp]: "hx_Type (project_ext m e) = hx_Type e"
  by (simp add: project_ext_def)

lemma has_ext_project [simp]: "has_ext t (map (project_ext m) es) = has_ext t es"
  by (simp add: has_ext_def)

lemma materialized_health:
  "has_ext ExtHealth (materializedExtensions m)"
  "\<forall>e \<in> set (materializedExtensions m). hx_Type e = ExtHealth \<longrightarrow> hx_Value e = [hb_Health m]"
  by (auto simp: materializedExtensions_eq project_ext_def)

lemma materialized_reason:
  assumes "hb_FailureReason m \<noteq> []"
  shows "has_ext ExtFailureReason (materializedExtensions m) \<longleftrightarrow>
      hb_State m = HeartbeatStateFailed \<or> has_ext ExtFailureReason (hb_Extensions m)"
    and "\<forall>e \<in> set (materializedExtensions m).
      hx_Type e = ExtFailureReason \<longrightarrow> hx_Value e = bytes_of_string (hb_FailureReason m)"
  using assms by (auto simp: materializedExtensions_eq project_ext_def)

definition fits_HeartbeatMsg :: "HeartbeatMsg \<Rightarrow> bool" where
  "fits_HeartbeatMsg m \<longleftrightarrow>
     list_all (\<lambda>e. fits16 (hx_Value e)) (materializedExtensions m)
     \<and> fits16 (concat (map enc_ext (materializedExtensions m)))"

lemma readHeartbeat_layout:
  assumes "fits_HeartbeatMsg m"
  shows "readHeartbeat (Reader (layout_HeartbeatMsg m @ rest) e) =
    Inr (m\<lparr>hb_Health := HealthHealthy, hb_FailureReason := [], hb_Extensions := materializedExtensions m\<rparr>,
         Reader rest e)"
  using readHeartbeatExtensions_enc [of "materializedExtensions m" rest e] assms
  by (simp add: fits_HeartbeatMsg_def readHeartbeat_def layout_HeartbeatMsg_def Let_def rbind_def errw_def
      wire_simps del: length_concat)

text \<open>
  C13. Health and failure reason survive the wire. A heartbeat whose extensions fit
  their 16-bit lengths decodes, whatever bytes follow it, to a heartbeat with the
  same identity, sequence number, state, flags and health; a non-empty failure
  reason is kept when the state is failed or a reason extension is present; and
  the extensions are those of the sender with health and reason projected in.
\<close>

theorem heartbeat_roundtrip:
  assumes "HeartbeatMsg_MarshalBinary m = Inr b" and "fits_HeartbeatMsg m"
  shows "\<exists>m'. HeartbeatMsg_UnmarshalBinary (b @ newer) = Inr m'
    \<and> hb_BootID m' = hb_BootID m \<and> hb_Seq m' = hb_Seq m \<and> hb_State m' = hb_State m \<and> hb_Flags m' = hb_Flags m
    \<and> hb_Health m' = hb_Health m \<and> hb_Extensions m' = materializedExtensions m
    \<and> (hb_FailureReason m \<noteq> [] \<and> (hb_State m = HeartbeatStateFailed \<or> has_ext ExtFailureReason (hb_Extensions m))
         \<longrightarrow> hb_FailureReason m' = hb_FailureReason m)"
proof -
  let ?m = "m\<lparr>hb_Health := HealthHealthy, hb_FailureReason := [], hb_Extensions := materializedExtensions m\<rparr>"
  have "b = layout_HeartbeatMsg m"
    using assms(1) by (simp add: HeartbeatMsg_MarshalBinary_eq)
  then have "HeartbeatMsg_UnmarshalBinary (b @ newer) = Inr (project_fields (materializedExtensions m) ?m)"
    using readHeartbeat_layout [OF assms(2), of newer EOF]
    by (simp add: HeartbeatMsg_UnmarshalBinary_def run_body_def bytes_NewReader_def rbind_def)
  then show ?thesis
    using project_fields_health [OF materialized_health(2), of m ?m] materialized_health(1) [of m]
      project_fields_reason [OF materialized_reason(2), of m ?m] materialized_reason(1) [of m]
    by (auto simp: project_fields_frame)
qed

definition demo_heartbeat :: HeartbeatMsg where
  "demo_heartbeat = \<lparr>hb_BootID = 7, hb_Seq = 1, hb_State = HeartbeatStateFailed, hb_Flags = 0,
     hb_Health = HealthDegraded, hb_FailureReason = ''init_panic'', hb_Extensions = []\<rparr>"

lemma demo_heartbeat_fits: "fits_HeartbeatMsg demo_heartbeat"
  by (simp add: fits_HeartbeatMsg_def materializedExtensions_eq demo_heartbeat_def enc_ext_def fits16_def)

theorem heartbeat_roundtrip_witness:
  "\<exists>m'. HeartbeatMsg_UnmarshalBinary (layout_HeartbeatMsg demo_heartbeat @ [1, 2, 3]) = Inr m'
    \<and> hb_Health m' = HealthDegraded \<and> hb_FailureReason m' = ''init_panic''"
  using heartbeat_roundtrip [OF HeartbeatMsg_MarshalBinary_eq demo_heartbeat_fits, of "[1, 2, 3]"]
  by (auto simp: demo_heartbeat_def)

text \<open>
  C14. The registered heartbeat decoder loses health and failure reason. For every
  body, it returns what \<open>UnmarshalBinary\<close> returns except that the health is always
  healthy and the failure reason always empty; in particular the encoding of a
  failed, degraded heartbeat decodes as healthy and without a reason.
\<close>

theorem heartbeat_decoder_drops_fields:
  "run_body decode_HeartbeatMsg body =
     (case HeartbeatMsg_UnmarshalBinary body of
        Inl e \<Rightarrow> Inl e
      | Inr m \<Rightarrow> Inr (m\<lparr>hb_Health := HealthHealthy, hb_FailureReason := []\<rparr>))
   \<and> (\<exists>m'. run_body decode_HeartbeatMsg (layout_HeartbeatMsg demo_heartbeat) = Inr m'
        \<and> hb_Health demo_heartbeat = HealthDegraded \<and> hb_Health m' = HealthHealthy
        \<and> hb_FailureReason demo_heartbeat \<noteq> [] \<and> hb_FailureReason m' = [])"
proof
  have fields: "(project_fields es m)\<lparr>hb_Health := hb_Health m, hb_FailureReason := hb_FailureReason m\<rparr> = m" for es m
    using project_fields_frame [of es m] by simp
  show "run_body decode_HeartbeatMsg body =
     (case HeartbeatMsg_UnmarshalBinary body of
        Inl e \<Rightarrow> Inl e
      | Inr m \<Rightarrow> Inr (m\<lparr>hb_Health := HealthHealthy, hb_FailureReason := []\<rparr>))"
  proof (cases "readHeartbeat (bytes_NewReader body)")
    case (Inr p)
    obtain m r where p: "p = (m, r)" by fastforce
    have "hb_Health m = HealthHealthy \<and> hb_FailureReason m = []"
      using Inr p by (auto simp: readHeartbeat_def rbind_eq_Inr)
    then show ?thesis
      using Inr p fields [of m "hb_Extensions m"]
      by (simp add: decode_HeartbeatMsg_def HeartbeatMsg_UnmarshalBinary_def run_body_def rbind_def)
  qed (simp add: decode_HeartbeatMsg_def HeartbeatMsg_UnmarshalBinary_def run_body_def rbind_def)
  show "\<exists>m'. run_body decode_HeartbeatMsg (layout_HeartbeatMsg demo_heartbeat) = Inr m'
        \<and> hb_Health demo_heartbeat = HealthDegraded \<and> hb_Health m' = HealthHealthy
        \<and> hb_FailureReason demo_heartbeat \<noteq> [] \<and> hb_FailureReason m' = []"
    using readHeartbeat_layout [OF demo_heartbeat_fits, of "[]" EOF]
    by (simp add: decode_HeartbeatMsg_def run_body_def bytes_NewReader_def) (simp add: demo_heartbeat_def)
qed

end
