(* ===== verification/Messages_Tools.thy ===== *)
theory Messages_Tools
  imports Message
begin

text \<open>
  The tool messages, \<^verbatim>\<open>protocol/messages/tools.go\<close>.
\<close>

section \<open>Messages\<close>

subsection \<open>ToolCall\<close>

record ToolCall =
  tc_ToolName :: string
  tc_Params :: bytes

definition ToolCall_MarshalBinary :: "ToolCall \<Rightarrow> goerr + bytes" where
  "ToolCall_MarshalBinary m =
     Marshal_unchecked (wseq (WriteString (tc_ToolName m)) (WriteBytes (tc_Params m)))"

definition ToolCall_UnmarshalBinary :: "bytes \<Rightarrow> goerr + ToolCall" where
  "ToolCall_UnmarshalBinary = run_body (
     rbind (errw ''tool_call: read tool_name'' ReadString) (\<lambda>name.
     rbind (errw ''tool_call: read params'' ReadBytes) (\<lambda>params.
       ret \<lparr>tc_ToolName = name, tc_Params = params\<rparr>)))"

definition decode_ToolCall :: "ToolCall parser" where
  "decode_ToolCall =
     rbind (errw ''tool_call'' ReadString) (\<lambda>name.
     rbind (errw ''tool_call'' ReadBytes) (\<lambda>params.
       ret \<lparr>tc_ToolName = name, tc_Params = params\<rparr>))"

subsection \<open>ToolResult\<close>

record ToolResult =
  tr_Result :: bytes
  tr_Ok :: bool
  tr_ErrorMsg :: string

definition ToolResult_MarshalBinary :: "ToolResult \<Rightarrow> goerr + bytes" where
  "ToolResult_MarshalBinary m =
     Marshal_unchecked (wseq (WriteBytes (tr_Result m))
    (wseq (WriteBool (tr_Ok m)) (WriteString (tr_ErrorMsg m))))"

definition ToolResult_UnmarshalBinary :: "bytes \<Rightarrow> goerr + ToolResult" where
  "ToolResult_UnmarshalBinary = run_body (
     rbind (errw ''tool_result: read result'' ReadBytes) (\<lambda>result.
     rbind (errw ''tool_result: read ok'' ReadBool) (\<lambda>ok.
     rbind (errw ''tool_result: read error_msg'' ReadString) (\<lambda>errMsg.
       ret \<lparr>tr_Result = result, tr_Ok = ok, tr_ErrorMsg = errMsg\<rparr>))))"

definition decode_ToolResult :: "ToolResult parser" where
  "decode_ToolResult =
     rbind (errw ''tool_result'' ReadBytes) (\<lambda>result.
     rbind (errw ''tool_result'' ReadBool) (\<lambda>ok.
     rbind (errw ''tool_result'' ReadString) (\<lambda>errMsg.
       ret \<lparr>tr_Result = result, tr_Ok = ok, tr_ErrorMsg = errMsg\<rparr>)))"

subsection \<open>ListToolsMsg\<close>

datatype ListToolsMsg = ListToolsMsg

definition ListToolsMsg_MarshalBinary :: "ListToolsMsg \<Rightarrow> goerr + bytes" where
  "ListToolsMsg_MarshalBinary m = Inr []"

definition ListToolsMsg_UnmarshalBinary :: "bytes \<Rightarrow> goerr + ListToolsMsg" where
  "ListToolsMsg_UnmarshalBinary data = Inr ListToolsMsg"

definition decode_ListToolsMsg :: "ListToolsMsg parser" where
  "decode_ListToolsMsg = ret ListToolsMsg"

subsection \<open>ListToolsResult\<close>

record ToolEntry =
  te_Name :: string
  te_Description :: string
  te_Version :: string
  te_Capabilities :: "string list"
  te_Permissions :: "string list"
  te_Schema :: bytes

record ListToolsResult =
  lt_Entries :: "ToolEntry list"

primrec WriteToolEntries :: "ToolEntry list \<Rightarrow> wop" where
  "WriteToolEntries [] = wdone"
| "WriteToolEntries (e # es) =
     wseq (WriteString (te_Name e))
    (wseq (WriteString (te_Description e))
    (wseq (WriteString (te_Version e))
    (wseq (WriteStringSlice (te_Capabilities e))
    (wseq (WriteStringSlice (te_Permissions e))
    (wseq (WriteBytes (te_Schema e))
          (WriteToolEntries es))))))"

definition ListToolsResult_MarshalBinary :: "ListToolsResult \<Rightarrow> goerr + bytes" where
  "ListToolsResult_MarshalBinary m =
     Marshal_unchecked (wseq (WriteUint16 (word_of_nat (length (lt_Entries m)))) (WriteToolEntries (lt_Entries m)))"

text \<open>
  The body of the two loops over the entries; \<open>UnmarshalBinary\<close> names the field
  in its errors, the registered decoder does not.
\<close>

definition readToolEntry :: "(string \<Rightarrow> string) \<Rightarrow> ToolEntry parser" where
  "readToolEntry lbl =
     rbind (errw (lbl ''name'') ReadString) (\<lambda>name.
     rbind (errw (lbl ''description'') ReadString) (\<lambda>desc.
     rbind (errw (lbl ''version'') ReadString) (\<lambda>version.
     rbind (errw (lbl ''capabilities'') ReadStringSlice) (\<lambda>caps.
     rbind (errw (lbl ''permissions'') ReadStringSlice) (\<lambda>perms.
     rbind (errw (lbl ''schema'') ReadBytes) (\<lambda>schema.
       ret \<lparr>te_Name = name, te_Description = desc, te_Version = version,
            te_Capabilities = caps, te_Permissions = perms, te_Schema = schema\<rparr>))))))"

definition readToolEntries :: "(string \<Rightarrow> string) \<Rightarrow> ListToolsResult parser" where
  "readToolEntries lbl =
     rbind (errw (lbl ''count'') ReadUint16) (\<lambda>count.
     rbind (rtimes (unat count) (readToolEntry lbl)) (\<lambda>entries.
       ret \<lparr>lt_Entries = entries\<rparr>))"

definition ListToolsResult_UnmarshalBinary :: "bytes \<Rightarrow> goerr + ListToolsResult" where
  "ListToolsResult_UnmarshalBinary = run_body (readToolEntries (\<lambda>f. ''list_tools_result: read '' @ f))"

definition decode_ListToolsResult :: "ListToolsResult parser" where
  "decode_ListToolsResult = readToolEntries (\<lambda>f. ''list_tools_result'')"

section \<open>Layouts\<close>

definition layout_ToolCall :: "ToolCall \<Rightarrow> bytes" where
  "layout_ToolCall m = enc_string (tc_ToolName m) @ enc_bytes (tc_Params m)"

definition fits_ToolCall :: "ToolCall \<Rightarrow> bool" where
  "fits_ToolCall m \<longleftrightarrow> fits16 (tc_ToolName m) \<and> fits32 (tc_Params m)"

definition layout_ToolResult :: "ToolResult \<Rightarrow> bytes" where
  "layout_ToolResult m = enc_bytes (tr_Result m) @ enc_bool (tr_Ok m) @ enc_string (tr_ErrorMsg m)"

definition fits_ToolResult :: "ToolResult \<Rightarrow> bool" where
  "fits_ToolResult m \<longleftrightarrow> fits32 (tr_Result m) \<and> fits16 (tr_ErrorMsg m)"

definition layout_ToolEntry :: "ToolEntry \<Rightarrow> bytes" where
  "layout_ToolEntry e = enc_string (te_Name e) @ enc_string (te_Description e) @ enc_string (te_Version e)
     @ enc_strings (te_Capabilities e) @ enc_strings (te_Permissions e) @ enc_bytes (te_Schema e)"

definition fits_ToolEntry :: "ToolEntry \<Rightarrow> bool" where
  "fits_ToolEntry e \<longleftrightarrow> fits16 (te_Name e) \<and> fits16 (te_Description e) \<and> fits16 (te_Version e)
     \<and> wf_strings (te_Capabilities e) \<and> wf_strings (te_Permissions e) \<and> fits32 (te_Schema e)"

definition layout_ListToolsResult :: "ListToolsResult \<Rightarrow> bytes" where
  "layout_ListToolsResult m =
     enc_u16 (word_of_nat (length (lt_Entries m))) @ concat (map layout_ToolEntry (lt_Entries m))"

definition fits_ListToolsResult :: "ListToolsResult \<Rightarrow> bool" where
  "fits_ListToolsResult m \<longleftrightarrow> fits16 (lt_Entries m) \<and> list_all fits_ToolEntry (lt_Entries m)"

section \<open>Contracts\<close>

interpretation toolCall: lenient_message layout_ToolCall fits_ToolCall ToolCall_MarshalBinary ToolCall_UnmarshalBinary decode_ToolCall
proof unfold_locales
  show "ToolCall_MarshalBinary m = Inr b \<Longrightarrow> b = layout_ToolCall m" for m b
    by (auto simp: ToolCall_MarshalBinary_def layout_ToolCall_def split: if_splits elim!: Marshal_unchecked_out intro!: emits_intros)
  show "fits_ToolCall m \<Longrightarrow> ToolCall_UnmarshalBinary (layout_ToolCall m) = Inr m" for m
    by (simp add: ToolCall_UnmarshalBinary_def layout_ToolCall_def fits_ToolCall_def body_simps wire_simps)
  show "run_body decode_ToolCall b = Inr m \<longleftrightarrow> ToolCall_UnmarshalBinary b = Inr m" for b m
    by (simp add: decode_ToolCall_def ToolCall_UnmarshalBinary_def run_body_eq_Inr rbind_eq_Inr)
  show "fits_ToolCall m \<Longrightarrow> ToolCall_UnmarshalBinary (layout_ToolCall m @ newer) = Inr m" for m newer
    by (simp add: ToolCall_UnmarshalBinary_def layout_ToolCall_def fits_ToolCall_def body_simps wire_simps)
qed

interpretation toolResult: lenient_message layout_ToolResult fits_ToolResult ToolResult_MarshalBinary ToolResult_UnmarshalBinary decode_ToolResult
proof unfold_locales
  show "ToolResult_MarshalBinary m = Inr b \<Longrightarrow> b = layout_ToolResult m" for m b
    by (auto simp: ToolResult_MarshalBinary_def layout_ToolResult_def split: if_splits elim!: Marshal_unchecked_out intro!: emits_intros)
  show "fits_ToolResult m \<Longrightarrow> ToolResult_UnmarshalBinary (layout_ToolResult m) = Inr m" for m
    by (simp add: ToolResult_UnmarshalBinary_def layout_ToolResult_def fits_ToolResult_def body_simps wire_simps)
  show "run_body decode_ToolResult b = Inr m \<longleftrightarrow> ToolResult_UnmarshalBinary b = Inr m" for b m
    by (simp add: decode_ToolResult_def ToolResult_UnmarshalBinary_def run_body_eq_Inr rbind_eq_Inr)
  show "fits_ToolResult m \<Longrightarrow> ToolResult_UnmarshalBinary (layout_ToolResult m @ newer) = Inr m" for m newer
    by (simp add: ToolResult_UnmarshalBinary_def layout_ToolResult_def fits_ToolResult_def body_simps wire_simps)
qed

lemma ListToolsMsg_single: "ListToolsMsg = m"
  by (cases m) simp

interpretation listToolsMsg: lenient_message "\<lambda>_. []" "\<lambda>_. True" ListToolsMsg_MarshalBinary ListToolsMsg_UnmarshalBinary decode_ListToolsMsg
  by unfold_locales (auto simp: ListToolsMsg_MarshalBinary_def ListToolsMsg_UnmarshalBinary_def decode_ListToolsMsg_def
      intro: ListToolsMsg_single split: if_splits)

interpretation toolEntry: exact_codec layout_ToolEntry "readToolEntry lbl" fits_ToolEntry
proof unfold_locales
  show "fits_ToolEntry x \<Longrightarrow> readToolEntry lbl (Reader (layout_ToolEntry x @ rest) e) = Inr (x, Reader rest e)"
    for x rest e
    by (simp add: readToolEntry_def layout_ToolEntry_def fits_ToolEntry_def rbind_def errw_def wire_simps)
  show "readToolEntry lbl r = Inr (x, r') \<Longrightarrow>
      rd_data r = layout_ToolEntry x @ rd_data r' \<and> rd_end r' = rd_end r \<and> fits_ToolEntry x" for r x r'
    by (auto simp: readToolEntry_def layout_ToolEntry_def fits_ToolEntry_def rbind_eq_Inr dec_iffs)
qed

lemma emits_ToolEntries: "emits (WriteToolEntries es) (concat (map layout_ToolEntry es))"
  by (induction es) (auto simp: layout_ToolEntry_def intro!: emits_intros)

lemma readToolEntries_layout:
  "fits_ListToolsResult m \<Longrightarrow>
     readToolEntries lbl (Reader (layout_ListToolsResult m @ rest) e) = Inr (m, Reader rest e)"
  using toolEntry.rtimes_enc [of "lt_Entries m" lbl rest e]
  by (simp add: readToolEntries_def layout_ListToolsResult_def fits_ListToolsResult_def
      rbind_def errw_def wire_simps)

lemma readToolEntries_label:
  "readToolEntries lbl r = Inr (m, r') \<Longrightarrow> readToolEntries lbl' r = Inr (m, r')"
proof -
  assume "readToolEntries lbl r = Inr (m, r')"
  then obtain n r1 where n: "ReadUint16 r = Inr (n, r1)"
    and es: "rtimes (unat n) (readToolEntry lbl) r1 = Inr (lt_Entries m, r')"
    by (auto simp: readToolEntries_def rbind_eq_Inr)
  note x = toolEntry.rtimes_exact [OF es]
  then have "rtimes (unat n) (readToolEntry lbl') r1 = Inr (lt_Entries m, r')"
    using toolEntry.rtimes_enc [of "lt_Entries m" lbl' "rd_data r'" "rd_end r'"]
    by (cases r1; cases r') simp
  with n show ?thesis
    by (auto simp: readToolEntries_def rbind_eq_Inr)
qed

interpretation listToolsResult: lenient_message layout_ListToolsResult fits_ListToolsResult
  ListToolsResult_MarshalBinary ListToolsResult_UnmarshalBinary decode_ListToolsResult
proof unfold_locales
  show "ListToolsResult_MarshalBinary m = Inr b \<Longrightarrow> b = layout_ListToolsResult m" for m b
    by (auto simp: ListToolsResult_MarshalBinary_def layout_ListToolsResult_def
        elim!: Marshal_unchecked_out intro!: emits_intros emits_ToolEntries)
  show "fits_ListToolsResult m \<Longrightarrow> ListToolsResult_UnmarshalBinary (layout_ListToolsResult m) = Inr m" for m
    using readToolEntries_layout [of m _ "[]"]
    by (simp add: ListToolsResult_UnmarshalBinary_def run_body_Inr)
  show "run_body decode_ListToolsResult b = Inr m \<longleftrightarrow> ListToolsResult_UnmarshalBinary b = Inr m" for b m
    by (auto simp: decode_ListToolsResult_def ListToolsResult_UnmarshalBinary_def run_body_eq_Inr
        intro: readToolEntries_label)
  show "fits_ListToolsResult m \<Longrightarrow>
      ListToolsResult_UnmarshalBinary (layout_ListToolsResult m @ newer) = Inr m" for m newer
    using readToolEntries_layout [of m _ newer]
    by (simp add: ListToolsResult_UnmarshalBinary_def run_body_Inr)
qed

end
