(* ===== verification/Registry.thy ===== *)
theory Registry
  imports Hello Messages_App Messages_Control Messages_Events Messages_Exec Messages_File Messages_Status Messages_Tools
begin

text \<open>
  The message registry of \<^verbatim>\<open>protocol/message.go\<close>, filled by the
  \<^verbatim>\<open>init\<close> functions of the message files. A Go value of the interface type
  \<^verbatim>\<open>Message\<close> is a value of the datatype \<open>message\<close>. The theorems say that a
  marshalled message decodes to itself under its own type, that a decoded message
  always belongs to the requested type, and which types are unknown.
\<close>

section \<open>Messages and their types\<close>

datatype message =
    M_Hello Hello
  | M_AppOpen AppOpen
  | M_AppAccept AppAccept
  | M_AppReject AppReject
  | M_AppData AppData
  | M_AppCredit AppCredit
  | M_AppClose AppClose
  | M_AppReset AppReset
  | M_PingMsg PingMsg
  | M_PongMsg PongMsg
  | M_ShutdownMsg ShutdownMsg
  | M_ShutdownAckMsg ShutdownAckMsg
  | M_SyncFilesystemsMsg SyncFilesystemsMsg
  | M_SyncFilesystemsAckMsg SyncFilesystemsAckMsg
  | M_StartedMsg StartedMsg
  | M_ErrorMsg ErrorMsg
  | M_EventReady EventReady
  | M_EventFileReceived EventFileReceived
  | M_EventMount EventMount
  | M_EventErrorMsg EventErrorMsg
  | M_EventLog EventLog
  | M_EventInitFailed EventInitFailed
  | M_ExecCmd ExecCmd
  | M_ExecResult ExecResult
  | M_ExecStream ExecStream
  | M_XferInit XferInit
  | M_XferChunk XferChunk
  | M_XferDone XferDone
  | M_GetStatusMsg GetStatusMsg
  | M_StatusMsg StatusMsg
  | M_HeartbeatMsg HeartbeatMsg
  | M_ToolCall ToolCall
  | M_ToolResult ToolResult
  | M_ListToolsMsg ListToolsMsg
  | M_ListToolsResult ListToolsResult

primrec message_type :: "message \<Rightarrow> uint8" where
  "message_type (M_Hello m) = TypeHELLO"
| "message_type (M_AppOpen m) = TypeAPPOPEN"
| "message_type (M_AppAccept m) = TypeAPPACCEPT"
| "message_type (M_AppReject m) = TypeAPPREJECT"
| "message_type (M_AppData m) = TypeAPPDATA"
| "message_type (M_AppCredit m) = TypeAPPCREDIT"
| "message_type (M_AppClose m) = TypeAPPCLOSE"
| "message_type (M_AppReset m) = TypeAPPRESET"
| "message_type (M_PingMsg m) = TypePING"
| "message_type (M_PongMsg m) = TypePONG"
| "message_type (M_ShutdownMsg m) = TypeSHUTDOWN"
| "message_type (M_ShutdownAckMsg m) = TypeSHUTDOWNACK"
| "message_type (M_SyncFilesystemsMsg m) = TypeSYNCFILESYSTEMS"
| "message_type (M_SyncFilesystemsAckMsg m) = TypeSYNCFILESYSTEMSACK"
| "message_type (M_StartedMsg m) = TypeSTARTED"
| "message_type (M_ErrorMsg m) = TypeERROR"
| "message_type (M_EventReady m) = TypeEVENTREADY"
| "message_type (M_EventFileReceived m) = TypeEVENTFILERECEIVED"
| "message_type (M_EventMount m) = TypeEVENTMOUNT"
| "message_type (M_EventErrorMsg m) = TypeEVENTERROR"
| "message_type (M_EventLog m) = TypeEVENTLOG"
| "message_type (M_EventInitFailed m) = TypeEVENTINITFAILED"
| "message_type (M_ExecCmd m) = TypeEXEC"
| "message_type (M_ExecResult m) = TypeEXECRESULT"
| "message_type (M_ExecStream m) = TypeEXECSTREAM"
| "message_type (M_XferInit m) = TypeXFERINIT"
| "message_type (M_XferChunk m) = TypeXFERCHUNK"
| "message_type (M_XferDone m) = TypeXFERDONE"
| "message_type (M_GetStatusMsg m) = TypeGETSTATUS"
| "message_type (M_StatusMsg m) = TypeSTATUS"
| "message_type (M_HeartbeatMsg m) = TypeHEARTBEAT"
| "message_type (M_ToolCall m) = TypeTOOLCALL"
| "message_type (M_ToolResult m) = TypeTOOLRESULT"
| "message_type (M_ListToolsMsg m) = TypeLISTTOOLS"
| "message_type (M_ListToolsResult m) = TypeLISTTOOLSRESULT"

primrec MarshalBinary :: "(ExecCmd \<Rightarrow> goerr + bytes) \<Rightarrow> message \<Rightarrow> goerr + bytes" where
  "MarshalBinary json_Marshal (M_Hello m) = Hello_MarshalBinary m"
| "MarshalBinary json_Marshal (M_AppOpen m) = AppOpen_MarshalBinary m"
| "MarshalBinary json_Marshal (M_AppAccept m) = AppAccept_MarshalBinary m"
| "MarshalBinary json_Marshal (M_AppReject m) = AppReject_MarshalBinary m"
| "MarshalBinary json_Marshal (M_AppData m) = AppData_MarshalBinary m"
| "MarshalBinary json_Marshal (M_AppCredit m) = AppCredit_MarshalBinary m"
| "MarshalBinary json_Marshal (M_AppClose m) = AppClose_MarshalBinary m"
| "MarshalBinary json_Marshal (M_AppReset m) = AppReset_MarshalBinary m"
| "MarshalBinary json_Marshal (M_PingMsg m) = PingMsg_MarshalBinary m"
| "MarshalBinary json_Marshal (M_PongMsg m) = PongMsg_MarshalBinary m"
| "MarshalBinary json_Marshal (M_ShutdownMsg m) = ShutdownMsg_MarshalBinary m"
| "MarshalBinary json_Marshal (M_ShutdownAckMsg m) = ShutdownAckMsg_MarshalBinary m"
| "MarshalBinary json_Marshal (M_SyncFilesystemsMsg m) = SyncFilesystemsMsg_MarshalBinary m"
| "MarshalBinary json_Marshal (M_SyncFilesystemsAckMsg m) = SyncFilesystemsAckMsg_MarshalBinary m"
| "MarshalBinary json_Marshal (M_StartedMsg m) = StartedMsg_MarshalBinary m"
| "MarshalBinary json_Marshal (M_ErrorMsg m) = ErrorMsg_MarshalBinary m"
| "MarshalBinary json_Marshal (M_EventReady m) = EventReady_MarshalBinary m"
| "MarshalBinary json_Marshal (M_EventFileReceived m) = EventFileReceived_MarshalBinary m"
| "MarshalBinary json_Marshal (M_EventMount m) = EventMount_MarshalBinary m"
| "MarshalBinary json_Marshal (M_EventErrorMsg m) = EventErrorMsg_MarshalBinary m"
| "MarshalBinary json_Marshal (M_EventLog m) = EventLog_MarshalBinary m"
| "MarshalBinary json_Marshal (M_EventInitFailed m) = EventInitFailed_MarshalBinary m"
| "MarshalBinary json_Marshal (M_ExecCmd m) = ExecCmd_MarshalBinary json_Marshal m"
| "MarshalBinary json_Marshal (M_ExecResult m) = ExecResult_MarshalBinary m"
| "MarshalBinary json_Marshal (M_ExecStream m) = ExecStream_MarshalBinary m"
| "MarshalBinary json_Marshal (M_XferInit m) = XferInit_MarshalBinary m"
| "MarshalBinary json_Marshal (M_XferChunk m) = XferChunk_MarshalBinary m"
| "MarshalBinary json_Marshal (M_XferDone m) = XferDone_MarshalBinary m"
| "MarshalBinary json_Marshal (M_GetStatusMsg m) = GetStatusMsg_MarshalBinary m"
| "MarshalBinary json_Marshal (M_StatusMsg m) = StatusMsg_MarshalBinary m"
| "MarshalBinary json_Marshal (M_HeartbeatMsg m) = HeartbeatMsg_MarshalBinary m"
| "MarshalBinary json_Marshal (M_ToolCall m) = ToolCall_MarshalBinary m"
| "MarshalBinary json_Marshal (M_ToolResult m) = ToolResult_MarshalBinary m"
| "MarshalBinary json_Marshal (M_ListToolsMsg m) = ListToolsMsg_MarshalBinary m"
| "MarshalBinary json_Marshal (M_ListToolsResult m) = ListToolsResult_MarshalBinary m"

section \<open>message.go\<close>

type_synonym DecodeFunc = "message parser"

type_synonym registry = "(uint8, DecodeFunc) gomap"

definition RegisterMessage :: "uint8 \<Rightarrow> DecodeFunc \<Rightarrow> registry \<Rightarrow> registry" where
  "RegisterMessage typ fn reg = AList.update typ fn reg"

text \<open>A typed decoder as a decoder of messages.\<close>

definition as_message :: "('m \<Rightarrow> message) \<Rightarrow> 'm parser \<Rightarrow> DecodeFunc" where
  "as_message C p = rbind p (\<lambda>m. ret (C m))"

section \<open>The init functions\<close>

text \<open>The decoder that \<^verbatim>\<open>hello.go\<close> registers in its own package.\<close>

definition decode_Hello :: "Hello parser" where
  "decode_Hello =
     rbind io_ReadAll (\<lambda>data. case Hello_UnmarshalBinary data of Inl e \<Rightarrow> raise e | Inr h \<Rightarrow> ret h)"

definition init_hello :: "registry \<Rightarrow> registry" where
  "init_hello reg = RegisterMessage TypeHELLO (as_message M_Hello decode_Hello) reg"

definition init_app :: "registry \<Rightarrow> registry" where
  "init_app reg =
     RegisterMessage TypeAPPRESET (as_message M_AppReset decode_AppReset) (
     RegisterMessage TypeAPPCLOSE (as_message M_AppClose decode_AppClose) (
     RegisterMessage TypeAPPCREDIT (as_message M_AppCredit decode_AppCredit) (
     RegisterMessage TypeAPPDATA (as_message M_AppData decode_AppData) (
     RegisterMessage TypeAPPREJECT (as_message M_AppReject decode_AppReject) (
     RegisterMessage TypeAPPACCEPT (as_message M_AppAccept decode_AppAccept) (
     RegisterMessage TypeAPPOPEN (as_message M_AppOpen decode_AppOpen) reg))))))"

definition init_control :: "registry \<Rightarrow> registry" where
  "init_control reg =
     RegisterMessage TypeERROR (as_message M_ErrorMsg decode_ErrorMsg) (
     RegisterMessage TypeSTARTED (as_message M_StartedMsg decode_StartedMsg) (
     RegisterMessage TypeSYNCFILESYSTEMSACK (as_message M_SyncFilesystemsAckMsg decode_SyncFilesystemsAckMsg) (
     RegisterMessage TypeSYNCFILESYSTEMS (as_message M_SyncFilesystemsMsg decode_SyncFilesystemsMsg) (
     RegisterMessage TypeSHUTDOWNACK (as_message M_ShutdownAckMsg decode_ShutdownAckMsg) (
     RegisterMessage TypeSHUTDOWN (as_message M_ShutdownMsg decode_ShutdownMsg) (
     RegisterMessage TypePONG (as_message M_PongMsg decode_PongMsg) (
     RegisterMessage TypePING (as_message M_PingMsg decode_PingMsg) reg)))))))"

definition init_events :: "registry \<Rightarrow> registry" where
  "init_events reg =
     RegisterMessage TypeEVENTINITFAILED (as_message M_EventInitFailed decode_EventInitFailed) (
     RegisterMessage TypeEVENTLOG (as_message M_EventLog decode_EventLog) (
     RegisterMessage TypeEVENTERROR (as_message M_EventErrorMsg decode_EventErrorMsg) (
     RegisterMessage TypeEVENTMOUNT (as_message M_EventMount decode_EventMount) (
     RegisterMessage TypeEVENTFILERECEIVED (as_message M_EventFileReceived decode_EventFileReceived) (
     RegisterMessage TypeEVENTREADY (as_message M_EventReady decode_EventReady) reg)))))"

definition init_exec :: "(bytes \<Rightarrow> goerr + (ExecCmd \<times> bytes)) \<Rightarrow> (bytes \<Rightarrow> bool) \<Rightarrow> registry \<Rightarrow> registry" where
  "init_exec json_Decode json_More reg =
     RegisterMessage TypeEXECSTREAM (as_message M_ExecStream decode_ExecStream) (
     RegisterMessage TypeEXECRESULT (as_message M_ExecResult decode_ExecResult) (
     RegisterMessage TypeEXEC (as_message M_ExecCmd (decode_ExecCmd json_Decode json_More)) reg))"

definition init_file :: "registry \<Rightarrow> registry" where
  "init_file reg =
     RegisterMessage TypeXFERDONE (as_message M_XferDone decode_XferDone) (
     RegisterMessage TypeXFERCHUNK (as_message M_XferChunk decode_XferChunk) (
     RegisterMessage TypeXFERINIT (as_message M_XferInit decode_XferInit) reg))"

definition init_status :: "registry \<Rightarrow> registry" where
  "init_status reg =
     RegisterMessage TypeHEARTBEAT (as_message M_HeartbeatMsg decode_HeartbeatMsg) (
     RegisterMessage TypeSTATUS (as_message M_StatusMsg decode_StatusMsg) (
     RegisterMessage TypeGETSTATUS (as_message M_GetStatusMsg decode_GetStatusMsg) reg))"

definition init_tools :: "registry \<Rightarrow> registry" where
  "init_tools reg =
     RegisterMessage TypeLISTTOOLSRESULT (as_message M_ListToolsResult decode_ListToolsResult) (
     RegisterMessage TypeLISTTOOLS (as_message M_ListToolsMsg decode_ListToolsMsg) (
     RegisterMessage TypeTOOLRESULT (as_message M_ToolResult decode_ToolResult) (
     RegisterMessage TypeTOOLCALL (as_message M_ToolCall decode_ToolCall) reg)))"

definition decodeRegistry :: "(bytes \<Rightarrow> goerr + (ExecCmd \<times> bytes)) \<Rightarrow> (bytes \<Rightarrow> bool) \<Rightarrow> registry" where
  "decodeRegistry json_Decode json_More =
     init_tools (init_status (init_file (init_exec json_Decode json_More (init_events (init_control (init_app (init_hello [])))))))"

definition DecodeMessage :: "registry \<Rightarrow> uint8 \<Rightarrow> message parser" where
  "DecodeMessage reg typ =
     (case map_of reg typ of
        None \<Rightarrow> raise (NewError (''mvcp: unknown message type 0x'' @ fmt_02X (unat typ)))
      | Some fn \<Rightarrow> fn)"

definition DecodeMessageBody :: "registry \<Rightarrow> uint8 \<Rightarrow> bytes \<Rightarrow> goerr + message" where
  "DecodeMessageBody reg typ body = run_body (DecodeMessage reg typ) body"

section \<open>The filled registry\<close>

text \<open>The decoder of each registered type; no type is registered twice.\<close>

lemma decodeRegistry_eq:
  "decodeRegistry jd jm = [
     (TypeHELLO, as_message M_Hello decode_Hello),
     (TypeAPPOPEN, as_message M_AppOpen decode_AppOpen),
     (TypeAPPACCEPT, as_message M_AppAccept decode_AppAccept),
     (TypeAPPREJECT, as_message M_AppReject decode_AppReject),
     (TypeAPPDATA, as_message M_AppData decode_AppData),
     (TypeAPPCREDIT, as_message M_AppCredit decode_AppCredit),
     (TypeAPPCLOSE, as_message M_AppClose decode_AppClose),
     (TypeAPPRESET, as_message M_AppReset decode_AppReset),
     (TypePING, as_message M_PingMsg decode_PingMsg),
     (TypePONG, as_message M_PongMsg decode_PongMsg),
     (TypeSHUTDOWN, as_message M_ShutdownMsg decode_ShutdownMsg),
     (TypeSHUTDOWNACK, as_message M_ShutdownAckMsg decode_ShutdownAckMsg),
     (TypeSYNCFILESYSTEMS, as_message M_SyncFilesystemsMsg decode_SyncFilesystemsMsg),
     (TypeSYNCFILESYSTEMSACK, as_message M_SyncFilesystemsAckMsg decode_SyncFilesystemsAckMsg),
     (TypeSTARTED, as_message M_StartedMsg decode_StartedMsg),
     (TypeERROR, as_message M_ErrorMsg decode_ErrorMsg),
     (TypeEVENTREADY, as_message M_EventReady decode_EventReady),
     (TypeEVENTFILERECEIVED, as_message M_EventFileReceived decode_EventFileReceived),
     (TypeEVENTMOUNT, as_message M_EventMount decode_EventMount),
     (TypeEVENTERROR, as_message M_EventErrorMsg decode_EventErrorMsg),
     (TypeEVENTLOG, as_message M_EventLog decode_EventLog),
     (TypeEVENTINITFAILED, as_message M_EventInitFailed decode_EventInitFailed),
     (TypeEXEC, as_message M_ExecCmd (decode_ExecCmd jd jm)),
     (TypeEXECRESULT, as_message M_ExecResult decode_ExecResult),
     (TypeEXECSTREAM, as_message M_ExecStream decode_ExecStream),
     (TypeXFERINIT, as_message M_XferInit decode_XferInit),
     (TypeXFERCHUNK, as_message M_XferChunk decode_XferChunk),
     (TypeXFERDONE, as_message M_XferDone decode_XferDone),
     (TypeGETSTATUS, as_message M_GetStatusMsg decode_GetStatusMsg),
     (TypeSTATUS, as_message M_StatusMsg decode_StatusMsg),
     (TypeHEARTBEAT, as_message M_HeartbeatMsg decode_HeartbeatMsg),
     (TypeTOOLCALL, as_message M_ToolCall decode_ToolCall),
     (TypeTOOLRESULT, as_message M_ToolResult decode_ToolResult),
     (TypeLISTTOOLS, as_message M_ListToolsMsg decode_ListToolsMsg),
     (TypeLISTTOOLSRESULT, as_message M_ListToolsResult decode_ListToolsResult)]"
  by (simp add: decodeRegistry_def init_hello_def init_app_def init_control_def init_events_def init_exec_def init_file_def
      init_status_def init_tools_def RegisterMessage_def)

definition known_types :: "uint8 list" where
  "known_types = [TypeHELLO, TypeAPPOPEN, TypeAPPACCEPT, TypeAPPREJECT, TypeAPPDATA, TypeAPPCREDIT, TypeAPPCLOSE, TypeAPPRESET, TypePING, TypePONG, TypeSHUTDOWN, TypeSHUTDOWNACK, TypeSYNCFILESYSTEMS, TypeSYNCFILESYSTEMSACK, TypeSTARTED, TypeERROR, TypeEVENTREADY, TypeEVENTFILERECEIVED, TypeEVENTMOUNT, TypeEVENTERROR, TypeEVENTLOG, TypeEVENTINITFAILED, TypeEXEC, TypeEXECRESULT, TypeEXECSTREAM, TypeXFERINIT, TypeXFERCHUNK, TypeXFERDONE, TypeGETSTATUS, TypeSTATUS, TypeHEARTBEAT, TypeTOOLCALL, TypeTOOLRESULT, TypeLISTTOOLS, TypeLISTTOOLSRESULT]"

text \<open>
  The variable parts of the message fit their length prefixes; the capability IDs of
  a HELLO are distinct. The body of EXEC is JSON and has no length prefixes.
\<close>

primrec fits_message :: "message \<Rightarrow> bool" where
  "fits_message (M_Hello m) = distinct (map c_ID (h_Capabilities m))"
| "fits_message (M_AppOpen m) = fits_AppOpen m"
| "fits_message (M_AppAccept m) = fits_AppAccept m"
| "fits_message (M_AppReject m) = fits_AppReject m"
| "fits_message (M_AppData m) = fits_AppData m"
| "fits_message (M_AppCredit m) = fits_AppCredit m"
| "fits_message (M_AppClose m) = fits_AppClose m"
| "fits_message (M_AppReset m) = fits_AppReset m"
| "fits_message (M_PingMsg m) = True"
| "fits_message (M_PongMsg m) = True"
| "fits_message (M_ShutdownMsg m) = True"
| "fits_message (M_ShutdownAckMsg m) = True"
| "fits_message (M_SyncFilesystemsMsg m) = True"
| "fits_message (M_SyncFilesystemsAckMsg m) = True"
| "fits_message (M_StartedMsg m) = fits_StartedMsg m"
| "fits_message (M_ErrorMsg m) = fits_ErrorMsg m"
| "fits_message (M_EventReady m) = fits_EventReady m"
| "fits_message (M_EventFileReceived m) = fits_EventFileReceived m"
| "fits_message (M_EventMount m) = fits_EventMount m"
| "fits_message (M_EventErrorMsg m) = fits_EventErrorMsg m"
| "fits_message (M_EventLog m) = fits_EventLog m"
| "fits_message (M_EventInitFailed m) = fits_EventInitFailed m"
| "fits_message (M_ExecCmd m) = True"
| "fits_message (M_ExecResult m) = fits_ExecResult m"
| "fits_message (M_ExecStream m) = fits_ExecStream m"
| "fits_message (M_XferInit m) = fits_XferInit m"
| "fits_message (M_XferChunk m) = fits_XferChunk m"
| "fits_message (M_XferDone m) = fits_XferDone m"
| "fits_message (M_GetStatusMsg m) = True"
| "fits_message (M_StatusMsg m) = fits_StatusMsg m"
| "fits_message (M_HeartbeatMsg m) = fits_HeartbeatMsg m"
| "fits_message (M_ToolCall m) = fits_ToolCall m"
| "fits_message (M_ToolResult m) = fits_ToolResult m"
| "fits_message (M_ListToolsMsg m) = True"
| "fits_message (M_ListToolsResult m) = fits_ListToolsResult m"

text \<open>
  What the registry's decoder hands out for a message; it differs from the message
  only for a HELLO, whose capabilities come back sorted, and for a heartbeat: its extensions come back with
  health and failure reason projected in, as they were sent, and the two fields themselves
  have their zero values.
\<close>

fun wire_view :: "message \<Rightarrow> message" where
  "wire_view (M_HeartbeatMsg h) =
     M_HeartbeatMsg (h\<lparr>hb_Health := HealthHealthy, hb_FailureReason := [], hb_Extensions := materializedExtensions h\<rparr>)"
| "wire_view (M_Hello h) = M_Hello (sorted_hello h)"
| "wire_view m = m"

lemma run_as_message [simp]:
  "run_body (as_message C p) b = (case run_body p b of Inl e \<Rightarrow> Inl e | Inr m \<Rightarrow> Inr (C m))"
  by (simp add: run_body_def as_message_def rbind_def split: sum.split)

lemma as_message_eq_Inr: "as_message C p r = Inr (x, r') \<longleftrightarrow> (\<exists>m. p r = Inr (m, r') \<and> x = C m)"
  by (auto simp: as_message_def rbind_eq_Inr)

lemma run_decode_Hello [simp]: "run_body decode_Hello b = Hello_UnmarshalBinary b"
  by (simp add: run_body_def decode_Hello_def rbind_def io_ReadAll_def bytes_NewReader_def split: sum.split)

lemma hello_decode:
  "distinct (map c_ID (h_Capabilities h)) \<Longrightarrow> Hello_MarshalBinary h = Inr b \<Longrightarrow>
     Hello_UnmarshalBinary b = Inr (sorted_hello h)"
  by (simp add: Hello_UnmarshalBinary_iff wf_sorted_hello)

lemma heartbeat_decode:
  "fits_HeartbeatMsg h \<Longrightarrow> HeartbeatMsg_MarshalBinary h = Inr b \<Longrightarrow> run_body decode_HeartbeatMsg b =
     Inr (h\<lparr>hb_Health := HealthHealthy, hb_FailureReason := [], hb_Extensions := materializedExtensions h\<rparr>)"
  using readHeartbeat_layout [of h "[]" EOF]
  by (simp add: HeartbeatMsg_MarshalBinary_eq decode_HeartbeatMsg_def run_body_Inr)

lemmas decode_roundtrips =
  appOpen.decode_roundtrip appAccept.decode_roundtrip appReject.decode_roundtrip
  appData.decode_roundtrip appCredit.decode_roundtrip appClose.decode_roundtrip
  appReset.decode_roundtrip pingMsg.decode_roundtrip pongMsg.decode_roundtrip
  shutdownMsg.decode_roundtrip shutdownAckMsg.decode_roundtrip syncFilesystemsMsg.decode_roundtrip
  syncFilesystemsAckMsg.decode_roundtrip startedMsg.decode_roundtrip errorMsg.decode_roundtrip
  eventReady.decode_roundtrip eventFileReceived.decode_roundtrip eventMount.decode_roundtrip
  eventErrorMsg.decode_roundtrip eventLog.decode_roundtrip eventInitFailed.decode_roundtrip
  execResult.decode_roundtrip execStream.decode_roundtrip xferInit.decode_roundtrip
  xferChunk.decode_roundtrip xferDone.decode_roundtrip getStatusMsg.decode_roundtrip
  statusMsg.decode_roundtrip toolCall.decode_roundtrip toolResult.decode_roundtrip
  listToolsMsg.decode_roundtrip listToolsResult.decode_roundtrip
  hello_decode heartbeat_decode

text \<open>
  C4. Every message but EXEC, whose body is JSON, round trips through the registry. If the variable parts of the
  message fit their length prefixes and a HELLO has distinct capability IDs, then what its \<open>MarshalBinary\<close> returns is
  decoded, under the type the message has, to the same message, with two exceptions (\<open>wire_view\<close>): the
  capabilities of a HELLO come back sorted by ID; and a heartbeat comes back with the extensions that \<open>MarshalBinary\<close>
  materialized from its extensions, health and failure reason, while these two fields have their zero values.
\<close>

theorem registry_roundtrip:
  assumes "MarshalBinary json_Marshal m = Inr b" and "message_type m \<noteq> TypeEXEC" and "fits_message m"
  shows "DecodeMessageBody (decodeRegistry json_Decode json_More) (message_type m) b = Inr (wire_view m)"
  using assms
  by (cases m) (simp_all add: DecodeMessageBody_def DecodeMessage_def decodeRegistry_eq decode_roundtrips)

theorem registry_roundtrip_witness:
  "DecodeMessageBody (decodeRegistry (\<lambda>b. Inl EOF) (\<lambda>b. False)) TypeAPPCREDIT
     (layout_AppCredit \<lparr>ac_StreamID = 3, ac_Bytes = 500\<rparr>) = Inr (M_AppCredit \<lparr>ac_StreamID = 3, ac_Bytes = 500\<rparr>)"
proof -
  let ?m = "\<lparr>ac_StreamID = 3, ac_Bytes = 500\<rparr>"
  have "MarshalBinary (\<lambda>m. Inl EOF) (M_AppCredit ?m) = Inr (layout_AppCredit ?m)"
    by code_simp
  moreover have "message_type (M_AppCredit ?m) \<noteq> TypeEXEC" "fits_message (M_AppCredit ?m)"
    by (simp_all add: fits_AppCredit_def)
  ultimately show ?thesis
    using registry_roundtrip [of "\<lambda>m. Inl EOF" "M_AppCredit ?m" "layout_AppCredit ?m" "\<lambda>b. Inl EOF" "\<lambda>b. False"]
    by simp
qed

text \<open>
  C15. No type confusion: a message that the registry decodes for a type is a message
  of this type, and a type outside the registered ones is refused as unknown
  without reading anything.
\<close>

theorem registry_types:
  "(DecodeMessage (decodeRegistry json_Decode json_More) typ r = Inr (m, r') \<longrightarrow>
      message_type m = typ \<and> typ \<in> set known_types)
   \<and> (typ \<notin> set known_types \<longrightarrow>
      DecodeMessage (decodeRegistry json_Decode json_More) typ r =
        Inl (NewError (''mvcp: unknown message type 0x'' @ fmt_02X (unat typ))))"
proof -
  have keys: "map fst (decodeRegistry json_Decode json_More) = known_types"
    by (simp add: decodeRegistry_eq known_types_def)
  have sound: "(typ, fn) \<in> set (decodeRegistry json_Decode json_More) \<Longrightarrow> fn r = Inr (m, r') \<Longrightarrow> message_type m = typ"
    for fn
    by (auto simp: decodeRegistry_eq as_message_eq_Inr)
  show ?thesis
  proof (cases "map_of (decodeRegistry json_Decode json_More) typ")
    case None
    then show ?thesis
      by (simp add: DecodeMessage_def)
  next
    case (Some fn)
    then have "(typ, fn) \<in> set (decodeRegistry json_Decode json_More)"
      by (rule map_of_SomeD)
    moreover from this have "typ \<in> set known_types"
      using keys by (metis image_eqI fst_conv list.set_map)
    ultimately show ?thesis
      using Some sound by (auto simp: DecodeMessage_def)
  qed
qed

theorem registry_types_witness:
  "DecodeMessage (decodeRegistry (\<lambda>b. Inl EOF) (\<lambda>b. False)) 0xEE (bytes_NewReader [1]) =
     Inl (NewError ''mvcp: unknown message type 0xEE'')"
proof -
  have "(0xEE :: uint8) \<notin> set known_types"
    by (simp add: known_types_def)
  moreover have "fmt_02X (unat (0xEE :: uint8)) = ''EE''"
    by code_simp
  ultimately show ?thesis
    using registry_types [of "\<lambda>b. Inl EOF" "\<lambda>b. False" "0xEE" "bytes_NewReader [1]"] by simp
qed

end
