(* ===== verification/Goroutines.thy ===== *)
theory Goroutines
  imports Prelude "HOL-Library.Multiset"
begin

text \<open>
  Goroutines as lists of the sections they still have to run, shared by the app
  channel and the RPC client. Invariants of the interleaving depend on which sections are pending,
  not on the goroutine that runs them: \<open>pool\<close> is the multiset of all of them, and \<open>cnt\<close> counts those
  that work on one object.
\<close>

definition pool :: "'act list list \<Rightarrow> 'act multiset" where
  "pool ts = mset (concat ts)"

lemma pool_simps [simp]: "pool [] = {#}" "pool (t # ts) = mset t + pool ts"
  by (simp_all add: pool_def)

lemma pool_run:
  assumes "i < length ts" and "ts ! i = act # rest"
  shows "\<exists>P. pool ts = add_mset act P \<and> pool (ts[i := k @ rest] @ new) = P + mset k + pool new"
proof -
  have ts: "ts = take i ts @ (act # rest) # drop (Suc i) ts"
    using assms by (metis id_take_nth_drop)
  have "pool ts = add_mset act (mset (concat (take i ts)) + mset rest + mset (concat (drop (Suc i) ts)))"
    unfolding pool_def by (subst ts) (simp add: ac_simps)
  moreover have "pool (ts[i := k @ rest] @ new)
      = (mset (concat (take i ts)) + mset rest + mset (concat (drop (Suc i) ts))) + mset k + pool new"
    unfolding pool_def upd_conv_take_nth_drop [OF assms(1)] by (simp add: ac_simps)
  ultimately show ?thesis by blast
qed

lemma pool_nth: "i < length ts \<Longrightarrow> ts ! i = act # rest \<Longrightarrow> act \<in># pool ts"
  by (metis list.set_intros(1) nth_mem pool_def set_mset_mset UN_I set_concat)

text \<open>How many pending sections of a kind an object has.\<close>

definition cnt :: "('act \<Rightarrow> nat option) \<Rightarrow> nat \<Rightarrow> 'act multiset \<Rightarrow> nat" where
  "cnt f a P = size (filter_mset (\<lambda>x. f x = Some a) P)"

lemma cnt_simps [simp]:
  "cnt f a {#} = 0" "cnt f a (add_mset x P) = (if f x = Some a then Suc (cnt f a P) else cnt f a P)"
  "cnt f a (P + Q) = cnt f a P + cnt f a Q"
  by (simp_all add: cnt_def)

lemma cnt_zero: "cnt f a P = 0 \<longleftrightarrow> (\<forall>x \<in># P. f x \<noteq> Some a)"
  by (induction P) auto

lemma cnt_pos: "x \<in># P \<Longrightarrow> f x = Some a \<Longrightarrow> 0 < cnt f a P"
  using cnt_zero [of f a P] by auto

end
