(* ===== verification/App_State.thy ===== *)
theory App_State
  imports Registry Goroutines
begin

text \<open>
  State of the app channel (\<^verbatim>\<open>protocol/app/session.go\<close> and
  \<^verbatim>\<open>protocol/app/stream.go\<close>). The streams are objects in a heap, a list whose
  indices are the addresses; the session's table maps a stream ID to an address. The
  conditions that the code guards with its locks are made explicit: every operation is
  a sequence of critical sections, each of which is one atomic action, and a goroutine
  is the list of the actions it still has to run. Sections of different goroutines
  interleave in any order.
\<close>

section \<open>Roles and error names\<close>

type_synonym Role = uint8

definition RoleHost :: Role where
  [simp]: "RoleHost = 0"

definition RoleGuest :: Role where
  [simp]: "RoleGuest = 1"

definition maxLocalStreamID :: uint32 where
  [simp]: "maxLocalStreamID = 0x7FFFFFFF"

definition ErrorName :: "uint16 \<Rightarrow> string" where
  "ErrorName code =
     (if code = ErrorCodeAppServiceNotFound then ''SERVICE_NOT_FOUND''
      else if code = ErrorCodeAppNotAuthorized then ''NOT_AUTHORIZED''
      else if code = ErrorCodeAppServiceBusy then ''SERVICE_BUSY''
      else if code = ErrorCodeAppQuotaExceeded then ''QUOTA_EXCEEDED''
      else if code = ErrorCodeAppPeerGone then ''PEER_GONE''
      else if code = ErrorCodeAppOverflow then ''OVERFLOW''
      else if code = ErrorCodeAppTimeout then ''TIMEOUT''
      else if code = ErrorCodeAppProtocolError then ''PROTOCOL_ERROR''
      else ''LOCAL_ERROR'')"

section \<open>The messages a session sends\<close>

text \<open>
  \<^verbatim>\<open>sendApp\<close> is only ever called with one of the seven messages of the app
  channel; the error branch of \<open>appMessageType\<close> for other messages is therefore
  excluded by the type.
\<close>

datatype app_message =
    Open_msg AppOpen
  | Accept_msg AppAccept
  | Reject_msg AppReject
  | Data_msg AppData
  | Credit_msg AppCredit
  | Close_msg AppClose
  | Reset_msg AppReset

primrec appMessageType :: "app_message \<Rightarrow> uint8" where
  "appMessageType (Open_msg m) = TypeAPPOPEN"
| "appMessageType (Accept_msg m) = TypeAPPACCEPT"
| "appMessageType (Reject_msg m) = TypeAPPREJECT"
| "appMessageType (Data_msg m) = TypeAPPDATA"
| "appMessageType (Credit_msg m) = TypeAPPCREDIT"
| "appMessageType (Close_msg m) = TypeAPPCLOSE"
| "appMessageType (Reset_msg m) = TypeAPPRESET"

primrec app_MarshalBinary :: "app_message \<Rightarrow> goerr + bytes" where
  "app_MarshalBinary (Open_msg m) = AppOpen_MarshalBinary m"
| "app_MarshalBinary (Accept_msg m) = AppAccept_MarshalBinary m"
| "app_MarshalBinary (Reject_msg m) = AppReject_MarshalBinary m"
| "app_MarshalBinary (Data_msg m) = AppData_MarshalBinary m"
| "app_MarshalBinary (Credit_msg m) = AppCredit_MarshalBinary m"
| "app_MarshalBinary (Close_msg m) = AppClose_MarshalBinary m"
| "app_MarshalBinary (Reset_msg m) = AppReset_MarshalBinary m"

section \<open>Streams and sessions\<close>

text \<open>
  An endpoint is a number that names the local connection. \<open>st_ready\<close> says that
  the channel \<^verbatim>\<open>ready\<close> is closed. \<open>st_epoch\<close> counts the broadcasts on
  the condition variable: a goroutine that waits goes on after the next broadcast, and not
  before.
\<close>

type_synonym endpoint = nat

record Stream =
  st_id :: uint32
  st_service :: string
  st_inbound :: bool
  st_opening :: bool
  st_accepting :: bool
  st_localClosed :: bool
  st_remoteClosed :: bool
  st_reset :: bool
  st_resetErr :: "goerr option"
  st_ready :: bool
  st_openErr :: "goerr option"
  st_opened :: bool
  st_finished :: bool
  st_sndCredit :: uint32
  st_rcvWindow :: uint32
  st_sendQ :: "bytes list"
  st_sendBytes :: uint64
  st_inQ :: "bytes list"
  st_inBytes :: uint64
  st_closeAfterFlush :: bool
  st_bytesIn :: uint64
  st_bytesOut :: uint64
  st_acceptMeta :: bytes
  st_ep :: "endpoint option"
  st_epoch :: nat

definition newStream :: "uint32 \<Rightarrow> string \<Rightarrow> bool \<Rightarrow> Stream" where
  "newStream sid service inbound =
     \<lparr>st_id = sid, st_service = service, st_inbound = inbound, st_opening = False, st_accepting = False,
      st_localClosed = False, st_remoteClosed = False, st_reset = False, st_resetErr = None,
      st_ready = False, st_openErr = None, st_opened = False, st_finished = False,
      st_sndCredit = 0, st_rcvWindow = 0, st_sendQ = [], st_sendBytes = 0, st_inQ = [], st_inBytes = 0,
      st_closeAfterFlush = False, st_bytesIn = 0, st_bytesOut = 0, st_acceptMeta = [], st_ep = None, st_epoch = 0\<rparr>"

text \<open>
  What the world outside the session sees: the observer's callbacks, the results of
  the calls on the session and its streams, and the endpoints that were closed.
\<close>

datatype event =
    Ev_Opened nat
  | Ev_Closed nat
  | Ev_Write nat bytes "goerr option"
  | Ev_Read nat bytes "goerr option"
  | Ev_CloseWrite nat "goerr option"
  | Ev_Open "goerr + nat"
  | Ev_Serve goerr
  | Ev_EpClosed endpoint
  | Ev_ConnClosed

text \<open>
  The session. Of the configuration it keeps the role and whether a handler and an
  observer are set; \<open>s_closeCh\<close> says that \<^verbatim>\<open>closeCh\<close> is closed, \<open>s_wg\<close> is the
  counter of the wait group, and \<open>s_panic\<close> that a channel was closed twice or the
  counter went below zero.
\<close>

record Session =
  s_Role :: Role
  s_hasHandler :: bool
  s_hasObserver :: bool
  s_wr :: writer
  s_heap :: "Stream list"
  s_streams :: "(uint32, nat) gomap"
  s_nextID :: uint32
  s_closed :: bool
  s_closeCh :: bool
  s_buffered :: uint64
  s_wg :: nat
  s_log :: "event list"
  s_panic :: bool

definition NewSession :: "writer \<Rightarrow> Role \<Rightarrow> bool \<Rightarrow> bool \<Rightarrow> Session" where
  "NewSession conn role hasHandler hasObserver =
     \<lparr>s_Role = role, s_hasHandler = hasHandler, s_hasObserver = hasObserver, s_wr = conn, s_heap = [],
      s_streams = [], s_nextID = 0, s_closed = False, s_closeCh = False, s_buffered = 0, s_wg = 0,
      s_log = [], s_panic = False\<rparr>"

definition localBit :: "Session \<Rightarrow> uint32" where
  "localBit s = push_bit 31 (ucast (s_Role s))"

definition remoteBit :: "Session \<Rightarrow> uint32" where
  "remoteBit s = push_bit 31 (ucast (1 - s_Role s))"

definition stream :: "uint32 \<Rightarrow> Session \<Rightarrow> nat option" where
  "stream sid s = map_of (s_streams s) sid"

text \<open>Reading and updating the object at an address, and the world's record.\<close>

definition obj :: "Session \<Rightarrow> nat \<Rightarrow> Stream" where
  "obj s a = s_heap s ! a"

definition upd :: "nat \<Rightarrow> (Stream \<Rightarrow> Stream) \<Rightarrow> Session \<Rightarrow> Session" where
  "upd a f s = s\<lparr>s_heap := (s_heap s)[a := f (s_heap s ! a)]\<rparr>"

definition log_event :: "event \<Rightarrow> Session \<Rightarrow> Session" where
  "log_event e s = s\<lparr>s_log := s_log s @ [e]\<rparr>"

section \<open>Sending\<close>

definition send :: "app_message \<Rightarrow> uint8 \<Rightarrow> Session \<Rightarrow> goerr option \<times> Session" where
  "send m typ s =
     (case app_MarshalBinary m of
        Inl e \<Rightarrow> (Some e, s)
      | Inr body \<Rightarrow>
          (case WriteMVCPFrame \<lparr>f_Type = typ, f_Flags = 0, f_MsgID = 0, f_Body = body\<rparr> (s_wr s) of
             (e, w) \<Rightarrow> (e, s\<lparr>s_wr := w\<rparr>)))"

definition sendApp :: "app_message \<Rightarrow> Session \<Rightarrow> goerr option \<times> Session" where
  "sendApp m s = send m (appMessageType m) s"

definition sendError :: "uint16 \<Rightarrow> string \<Rightarrow> Session \<Rightarrow> Session" where
  "sendError code message s =
     (let buf = wr_bytes (snd (wseq (WriteUint16 code) (WriteString message) new_Buffer)) in
      s\<lparr>s_wr := snd (WriteMVCPFrame \<lparr>f_Type = TypeERROR, f_Flags = FlagResponse, f_MsgID = 0, f_Body = buf\<rparr> (s_wr s))\<rparr>)"

section \<open>The buffer ledger\<close>

definition reserveBuffer :: "uint64 \<Rightarrow> Session \<Rightarrow> bool \<times> Session" where
  "reserveBuffer n s =
     (if s_buffered s + n > AppMaxBuffered then (False, s)
      else (True, s\<lparr>s_buffered := s_buffered s + n\<rparr>))"

definition releaseBuffer :: "uint64 \<Rightarrow> Session \<Rightarrow> Session" where
  "releaseBuffer n s =
     (if n \<ge> s_buffered s then s\<lparr>s_buffered := 0\<rparr> else s\<lparr>s_buffered := s_buffered s - n\<rparr>)"

section \<open>Actions\<close>

text \<open>
  What a goroutine does after \<^verbatim>\<open>sendApp\<close>, depending on its error: nothing (a
  rejection), go on resetting a stream, go on with the write loop after data or after
  the close, return from \<^verbatim>\<open>CloseWrite\<close>, return credit, wait for the answer to an
  open, go on after an accept.
\<close>

datatype after =
    SendIgnore
  | SendReset nat uint16 string
  | SendData nat
  | SendClose nat
  | SendCloseWrite nat
  | SendCredit
  | SendOpen nat
  | SendAccept nat endpoint

text \<open>Who waits on the condition variable of a stream.\<close>

datatype waiter = Wait_Loop | Wait_Read nat

text \<open>What the read loop does with the stream it looked up.\<close>

datatype dispatch =
    D_Accept AppAccept
  | D_Reject AppReject
  | D_Data bytes
  | D_Credit uint32
  | D_Close
  | D_Reset uint16 string

text \<open>
  The atomic actions, one per critical section. \<open>A_App\<close> stands for the code outside
  the package that holds a stream (the caller of \<^verbatim>\<open>Open\<close>, the observer, the bridge):
  it may call any operation of the stream at any time.
\<close>

datatype action =
    A_Send app_message after
  | A_SendError uint16 string
  | A_Fail goerr
  | A_ZeroBuffered
  | A_CloseConn
  | A_SetReset nat uint16 string
  | A_Finish nat
  | A_Detach nat
  | A_DetachBytes nat
  | A_Release uint64
  | A_CloseEndpoint nat
  | A_EpClose endpoint
  | A_MaybeFinish nat
  | A_Stream uint32 dispatch
  | A_Dispatch nat dispatch
  | A_CloseReady nat
  | A_HandleOpen AppOpen
  | A_AcceptOpen nat bytes
  | A_MarkOpened nat "(endpoint \<times> bytes) option"
  | A_Attach nat endpoint
  | A_StartWriteLoop nat bool
  | A_WriteLoop nat
  | A_CondWait nat nat waiter
  | A_WgDone
  | A_WgWait
  | A_Open string bytes
  | A_OpenWait nat
  | A_OpenFinish nat
  | A_App nat
  | A_Write nat bytes
  | A_Read nat nat
  | A_CloseWrite nat
  | A_Reset nat uint16 string
  | A_Serve
  | A_Return event

text \<open>
  An action yields the new state, what its goroutine does next (in front of what it
  still has to do), and the goroutines it starts.
\<close>

type_synonym outcome = "Session \<times> action list \<times> action list list"

end
