(* ===== verification/App_Stream.thy ===== *)
theory App_Stream
  imports App_State
begin

text \<open>
  The operations of a stream, \<^verbatim>\<open>protocol/app/stream.go\<close>, section by section. An
  operation that waits on the condition variable notes the number of broadcasts so far and
  goes on from its loop when there was another one. The length of a byte slice is below 2 to the 63; the code converts it to
  an unsigned number of the width it needs.
\<close>

section \<open>Teardown\<close>

text \<open>
  \<open>resetRemote\<close>: notify the peer, then \<open>setReset\<close> and \<open>finish\<close> (see
  \<open>after_send\<close> for the two steps after the send).
\<close>

definition resetRemote :: "nat \<Rightarrow> uint16 \<Rightarrow> string \<Rightarrow> Session \<Rightarrow> action list" where
  "resetRemote a code message s =
     [A_Send (Reset_msg \<lparr>ar_StreamID = st_id (obj s a), ar_Code = code, ar_Message = message\<rparr>)
        (SendReset a code message)]"

text \<open>
  \<open>setReset\<close>; every caller calls \<open>finish\<close> next. Closing \<^verbatim>\<open>ready\<close> when it is closed
  already panics. The broadcast that follows the unlock belongs to the section: who takes the
  lock in between sees the reset and does not wait.
\<close>

definition setReset :: "nat \<Rightarrow> uint16 \<Rightarrow> string \<Rightarrow> Session \<Rightarrow> outcome" where
  "setReset a code message s =
     (let st = obj s a in
      if \<not> st_reset st then
        (let s1 = upd a (\<lambda>st. st\<lparr>st_reset := True, st_resetErr := Some (ResetError code message),
                                    st_epoch := st_epoch st + 1\<rparr>) s in
         if st_opening st
         then (upd a (\<lambda>st. st\<lparr>st_opening := False, st_ready := True\<rparr>) s1
                 \<lparr>s_panic := s_panic s1 \<or> st_ready st\<rparr>, [A_Finish a], [])
         else (s1, [A_Finish a], []))
      else (upd a (\<lambda>st. st\<lparr>st_epoch := st_epoch st + 1\<rparr>) s, [A_Finish a], []))"

definition remoteReset :: "nat \<Rightarrow> uint16 \<Rightarrow> string \<Rightarrow> action list" where
  "remoteReset a code message = [A_SetReset a code message]"

definition maybeFinish :: "nat \<Rightarrow> Session \<Rightarrow> outcome" where
  "maybeFinish a s =
     (let st = obj s a;
          done = st_localClosed st \<and> st_remoteClosed st \<and> st_sendQ st = [] \<and> st_inQ st = [] in
      (s, if done then [A_Finish a] else [], []))"

definition closeEndpoint :: "nat \<Rightarrow> Session \<Rightarrow> outcome" where
  "closeEndpoint a s =
     (case st_ep (obj s a) of
        None \<Rightarrow> (upd a (\<lambda>st. st\<lparr>st_ep := None\<rparr>) s, [], [])
      | Some ep \<Rightarrow> (upd a (\<lambda>st. st\<lparr>st_ep := None\<rparr>) s, [A_EpClose ep], []))"

definition attachEndpoint :: "nat \<Rightarrow> endpoint \<Rightarrow> Session \<Rightarrow> outcome" where
  "attachEndpoint a ep s = (upd a (\<lambda>st. st\<lparr>st_ep := Some ep\<rparr>) s, [], [])"

section \<open>Opening\<close>

text \<open>
  \<open>markOpened\<close>. The callback gives the stream to the observer. What follows is the
  send of the APP\_ACCEPT (with the endpoint and the meta) or the return from
  \<^verbatim>\<open>Open\<close>.
\<close>

definition after_opened :: "nat \<Rightarrow> (endpoint \<times> bytes) option \<Rightarrow> Session \<Rightarrow> action list" where
  "after_opened a k s =
     (case k of
        Some (ep, acceptMeta) \<Rightarrow>
          [A_Send (Accept_msg \<lparr>aa_StreamID = st_id (obj s a), aa_Meta = acceptMeta, aa_Grant = AppInitialWindow\<rparr>)
             (SendAccept a ep)]
      | None \<Rightarrow> [A_Return (Ev_Open (Inr a))])"

definition markOpened :: "nat \<Rightarrow> (endpoint \<times> bytes) option \<Rightarrow> Session \<Rightarrow> outcome" where
  "markOpened a k s =
     (let st = obj s a in
      if st_finished st \<or> st_opened st then (s, after_opened a k s, [])
      else
        (let s1 = upd a (\<lambda>st. st\<lparr>st_opened := True\<rparr>) s in
         if s_hasObserver s then (log_event (Ev_Opened a) s1, after_opened a k s, [[A_App a]])
         else (s1, after_opened a k s, [])))"

text \<open>
  \<open>startWriteLoop\<close>, then for an accepted stream the bridge, for an opened one
  \<open>markOpened\<close>.
\<close>

definition startWriteLoop :: "nat \<Rightarrow> bool \<Rightarrow> Session \<Rightarrow> outcome" where
  "startWriteLoop a bridge s =
     (let k = (if bridge then [] else [A_MarkOpened a None]);
          b = (if bridge then [[A_App a]] else []) in
      if s_closed s then (s, k, b)
      else (s\<lparr>s_wg := s_wg s + 1\<rparr>, k, [A_WriteLoop a, A_WgDone] # b))"

section \<open>The write loop\<close>

text \<open>The number of bytes of the first chunk that the credit and the frame limit allow.\<close>

definition chunk_len :: "Stream \<Rightarrow> uint32" where
  "chunk_len st =
     (let n = (word_of_nat (length (hd (st_sendQ st))) :: uint32);
          n = (if n > st_sndCredit st then st_sndCredit st else n) in
      if n > word_of_nat AppMaxDataBytes then word_of_nat AppMaxDataBytes else n)"

definition take_chunk :: "Stream \<Rightarrow> Stream" where
  "take_chunk st =
     (let n = chunk_len st in
      st\<lparr>st_sndCredit := st_sndCredit st - n,
         st_sendBytes := st_sendBytes st - ucast n,
         st_bytesOut := st_bytesOut st + ucast n,
         st_sendQ := (if (word_of_nat (length (hd (st_sendQ st))) :: uint32) = n then tl (st_sendQ st)
                      else drop (unat n) (hd (st_sendQ st)) # tl (st_sendQ st))\<rparr>)"

definition writeLoop :: "nat \<Rightarrow> Session \<Rightarrow> outcome" where
  "writeLoop a s =
     (let st = obj s a in
      if st_reset st then (s, [], [])
      else if st_sendQ st \<noteq> [] \<and> st_sndCredit st > 0 then
        (let n = chunk_len st; data = take (unat n) (hd (st_sendQ st)) in
         (upd a take_chunk s,
          [A_Release (ucast n), A_Send (Data_msg \<lparr>ad_StreamID = st_id st, ad_Data = data\<rparr>) (SendData a)], []))
      else if st_sendQ st = [] \<and> st_closeAfterFlush st then
        (upd a (\<lambda>st. st\<lparr>st_localClosed := True\<rparr>) s,
         [A_Send (Close_msg \<lparr>al_StreamID = st_id st\<rparr>) (SendClose a)], [])
      else (s, [A_CondWait a (st_epoch st) Wait_Loop], []))"

text \<open>A waiting goroutine goes on after a broadcast.\<close>

definition condWait :: "nat \<Rightarrow> nat \<Rightarrow> waiter \<Rightarrow> Session \<Rightarrow> outcome option" where
  "condWait a e w s =
     (if st_epoch (obj s a) > e
      then Some (s, [case w of Wait_Loop \<Rightarrow> A_WriteLoop a | Wait_Read sz \<Rightarrow> A_Read a sz], [])
      else None)"

section \<open>Write, Read, CloseWrite, Reset\<close>

definition Write :: "nat \<Rightarrow> bytes \<Rightarrow> Session \<Rightarrow> outcome" where
  "Write a p s =
     (if p = [] then (log_event (Ev_Write a [] None) s, [], [])
      else
        (let st = obj s a; n = (word_of_nat (length p) :: uint64) in
         if st_reset st then (log_event (Ev_Write a [] (st_resetErr st)) s, [], [])
         else if st_localClosed st \<or> st_closeAfterFlush st
         then (log_event (Ev_Write a [] (Some ErrStreamClosed)) s, [], [])
         else if st_sendBytes st + n > AppMaxSendQueue
         then (log_event (Ev_Write a [] (Some (ResetError ErrorCodeAppOverflow ''send queue overflow''))) s,
               resetRemote a ErrorCodeAppOverflow ''send queue overflow'' s, [])
         else
           (case reserveBuffer n s of
              (False, s1) \<Rightarrow>
                (log_event (Ev_Write a [] (Some (ResetError ErrorCodeAppQuotaExceeded ''session buffer exceeded''))) s1,
                 resetRemote a ErrorCodeAppQuotaExceeded ''session buffer exceeded'' s1, [])
            | (True, s1) \<Rightarrow>
                (log_event (Ev_Write a p None)
                   (upd a (\<lambda>st. st\<lparr>st_sendQ := st_sendQ st @ [p], st_sendBytes := st_sendBytes st + n,
                                   st_epoch := st_epoch st + 1\<rparr>) s1), [], []))))"

text \<open>\<open>Read\<close> into a buffer of the given size, and what it does to the stream.\<close>

definition read_upd :: "nat \<Rightarrow> Stream \<Rightarrow> Stream" where
  "read_upd sz st =
     (let n = min sz (length (hd (st_inQ st))); left = drop n (hd (st_inQ st)) in
      st\<lparr>st_inQ := (if left = [] then tl (st_inQ st) else left # tl (st_inQ st)),
         st_inBytes := st_inBytes st - word_of_nat n,
         st_bytesIn := st_bytesIn st + word_of_nat n,
         st_rcvWindow := st_rcvWindow st + word_of_nat n\<rparr>)"

definition Read :: "nat \<Rightarrow> nat \<Rightarrow> Session \<Rightarrow> outcome" where
  "Read a sz s =
     (if sz = 0 then (log_event (Ev_Read a [] None) s, [], [])
      else
        (let st = obj s a in
         if st_reset st then (log_event (Ev_Read a [] (st_resetErr st)) s, [], [])
         else if st_inQ st \<noteq> [] then
           (let n = min sz (length (hd (st_inQ st))); data = take n (hd (st_inQ st)) in
            (log_event (Ev_Read a data None) (upd a (read_upd sz) s),
             [A_Release (word_of_nat n),
              A_Send (Credit_msg \<lparr>ac_StreamID = st_id st, ac_Bytes = word_of_nat n\<rparr>) SendCredit], []))
         else if st_remoteClosed st then (log_event (Ev_Read a [] (Some EOF)) s, [A_MaybeFinish a], [])
         else (s, [A_CondWait a (st_epoch st) (Wait_Read sz)], [])))"

definition CloseWrite :: "nat \<Rightarrow> Session \<Rightarrow> outcome" where
  "CloseWrite a s =
     (let st = obj s a in
      if st_reset st then (log_event (Ev_CloseWrite a (st_resetErr st)) s, [], [])
      else if st_localClosed st \<or> st_closeAfterFlush st then (log_event (Ev_CloseWrite a None) s, [], [])
      else if st_sendQ st = []
      then (upd a (\<lambda>st. st\<lparr>st_closeAfterFlush := True, st_localClosed := True\<rparr>) s,
            [A_Send (Close_msg \<lparr>al_StreamID = st_id st\<rparr>) (SendCloseWrite a)], [])
      else (log_event (Ev_CloseWrite a None) (upd a (\<lambda>st. st\<lparr>st_closeAfterFlush := True, st_epoch := st_epoch st + 1\<rparr>) s), [], []))"

definition Reset :: "nat \<Rightarrow> uint16 \<Rightarrow> string \<Rightarrow> Session \<Rightarrow> outcome" where
  "Reset a code message s = (s, resetRemote a code message s, [])"

section \<open>What the read loop does to a stream\<close>

definition deliver :: "nat \<Rightarrow> bytes \<Rightarrow> Session \<Rightarrow> outcome" where
  "deliver a data s =
     (if data = [] then (s, [], [])
      else if length data > AppMaxDataBytes
      then (s, resetRemote a ErrorCodeAppProtocolError ''data frame too large'' s, [])
      else
        (let st = obj s a; n = (word_of_nat (length data) :: uint32) in
         if st_accepting st \<or> st_opening st
         then (s, resetRemote a ErrorCodeAppProtocolError ''data before accept'' s, [])
         else if st_remoteClosed st \<or> st_reset st
         then (s, resetRemote a ErrorCodeAppProtocolError ''data after close'' s, [])
         else if n > st_rcvWindow st
         then (s, resetRemote a ErrorCodeAppProtocolError ''credit exceeded'' s, [])
         else
           (case reserveBuffer (word_of_nat (length data)) s of
              (False, s1) \<Rightarrow> (s1, resetRemote a ErrorCodeAppQuotaExceeded ''session buffer exceeded'' s1, [])
            | (True, s1) \<Rightarrow>
                (upd a (\<lambda>st. st\<lparr>st_rcvWindow := st_rcvWindow st - n, st_inQ := st_inQ st @ [data],
                                st_inBytes := st_inBytes st + word_of_nat (length data),
                                st_epoch := st_epoch st + 1\<rparr>) s1, [], []))))"

definition addCredit :: "nat \<Rightarrow> uint32 \<Rightarrow> Session \<Rightarrow> outcome" where
  "addCredit a n s =
     (if n = 0 then (s, [], [])
      else
        (let st = obj s a in
         if st_reset st then (s, [], [])
         else if st_sndCredit st + n > AppMaxCredit
         then (s, resetRemote a ErrorCodeAppProtocolError ''credit cap exceeded'' s, [])
         else (upd a (\<lambda>st. st\<lparr>st_sndCredit := st_sndCredit st + n, st_epoch := st_epoch st + 1\<rparr>) s, [], [])))"

definition remoteClose :: "nat \<Rightarrow> Session \<Rightarrow> outcome" where
  "remoteClose a s =
     (let st = obj s a in
      if st_reset st \<or> st_remoteClosed st then (s, [], [])
      else (upd a (\<lambda>st. st\<lparr>st_remoteClosed := True, st_epoch := st_epoch st + 1\<rparr>) s, [A_MaybeFinish a], []))"

end
