(* ===== verification/App_Session.thy ===== *)
theory App_Session
  imports App_Stream
begin

text \<open>
  The session of the app channel, \<^verbatim>\<open>protocol/app/session.go\<close>: teardown, the
  read loop and its handlers, \<^verbatim>\<open>Open\<close> and \<^verbatim>\<open>Close\<close>, and the step relation in which
  the goroutines of a session run their sections in any order.
\<close>

section \<open>Teardown\<close>

definition detach :: "nat \<Rightarrow> Session \<Rightarrow> outcome" where
  "detach a s =
     ((if map_of (s_streams s) (st_id (obj s a)) = Some a
       then s\<lparr>s_streams := AList.delete (st_id (obj s a)) (s_streams s)\<rparr> else s),
      [A_DetachBytes a], [])"

text \<open>The second and third section of \<open>detach\<close>.\<close>

definition detachBytes :: "nat \<Rightarrow> Session \<Rightarrow> outcome" where
  "detachBytes a s =
     (let remaining = st_sendBytes (obj s a) + st_inBytes (obj s a) in
      (upd a (\<lambda>st. st\<lparr>st_sendBytes := 0, st_inBytes := 0\<rparr>) s,
       if remaining > 0 then [A_Release remaining] else [], []))"

definition finish :: "nat \<Rightarrow> Session \<Rightarrow> outcome" where
  "finish a s =
     (let st = obj s a in
      if st_finished st then (s, [], [])
      else
        (let s1 = upd a (\<lambda>st. st\<lparr>st_finished := True\<rparr>) s in
         (if st_opened st \<and> s_hasObserver s then log_event (Ev_Closed a) s1 else s1,
          [A_Detach a, A_CloseEndpoint a], [])))"

text \<open>
  \<open>fail\<close>: closing the channel twice would panic; the streams are visited in the
  order in which the table is ranged over.
\<close>

definition fail :: "goerr \<Rightarrow> Session \<Rightarrow> outcome" where
  "fail e s =
     (if s_closed s then (s, [], [])
      else
        (s\<lparr>s_closed := True, s_closeCh := True, s_streams := [], s_panic := s_panic s \<or> s_closeCh s\<rparr>,
         A_ZeroBuffered
           # map (\<lambda>(i, a). A_SetReset a ErrorCodeAppPeerGone ''connection closed'') (s_streams s)
           @ [A_CloseConn], []))"

section \<open>Opening from the peer\<close>

definition sendReject :: "uint32 \<Rightarrow> uint16 \<Rightarrow> string \<Rightarrow> action" where
  "sendReject sid code message =
     A_Send (Reject_msg \<lparr>aj_StreamID = sid, aj_Code = code, aj_Message = message\<rparr>) SendIgnore"

definition handleOpen :: "AppOpen \<Rightarrow> Session \<Rightarrow> outcome" where
  "handleOpen m s =
     (if ao_StreamID m = 0 \<or> ao_StreamID m AND 0x80000000 \<noteq> remoteBit s
         \<or> \<not> ValidAppService (ao_Service m) \<or> length (ao_Meta m) > AppMaxMetaBytes
      then (s, [sendReject (ao_StreamID m) ErrorCodeAppProtocolError ''invalid APP_OPEN''], [])
      else if s_closed s then (s, [], [])
      else if map_of (s_streams s) (ao_StreamID m) \<noteq> None
      then (s, [sendReject (ao_StreamID m) ErrorCodeAppProtocolError ''duplicate stream_id''], [])
      else if length (s_streams s) \<ge> AppMaxStreams
      then (s, [sendReject (ao_StreamID m) ErrorCodeAppQuotaExceeded ''stream quota exceeded''], [])
      else
        (let a = length (s_heap s);
             st = (newStream (ao_StreamID m) (ao_Service m) True)\<lparr>st_accepting := True\<rparr> in
         (s\<lparr>s_heap := s_heap s @ [st], s_streams := AList.update (ao_StreamID m) a (s_streams s)\<rparr>,
          [], [[A_AcceptOpen a (ao_Meta m)]])))"

text \<open>
  \<open>acceptOpen\<close>: the result of the handler is an input; the section that makes the
  stream ready follows it.
\<close>

definition acceptOpen :: "(goerr + (endpoint \<times> bytes)) option \<Rightarrow> nat \<Rightarrow> bytes \<Rightarrow> Session \<Rightarrow> outcome option" where
  "acceptOpen res a meta s =
     (if \<not> s_hasHandler s
      then Some (s, [A_Detach a, sendReject (st_id (obj s a)) ErrorCodeAppLocalError ''no handler configured''], [])
      else
        (case res of
           None \<Rightarrow> None
         | Some (Inl err) \<Rightarrow>
             (let code = (case errors_As_RejectError err of Some (c, m) \<Rightarrow> c | None \<Rightarrow> ErrorCodeAppLocalError) in
              Some (s, [A_Detach a, sendReject (st_id (obj s a)) code (Error err)], []))
         | Some (Inr (ep, acceptMeta)) \<Rightarrow>
             if length acceptMeta > AppMaxMetaBytes
             then Some (s, [A_EpClose ep, A_Detach a,
                    sendReject (st_id (obj s a)) ErrorCodeAppProtocolError ''accept meta too large''], [])
             else Some (upd a (\<lambda>st. st\<lparr>st_accepting := False, st_sndCredit := AppInitialWindow,
                                       st_rcvWindow := AppInitialWindow, st_epoch := st_epoch st + 1\<rparr>) s,
                        [A_MarkOpened a (Some (ep, acceptMeta))], [])))"

section \<open>Answers to our opens\<close>

definition handleAccept :: "nat \<Rightarrow> AppAccept \<Rightarrow> Session \<Rightarrow> outcome" where
  "handleAccept a m s =
     (if length (aa_Meta m) > AppMaxMetaBytes
      then (s, resetRemote a ErrorCodeAppProtocolError ''accept meta too large'' s, [])
      else if aa_Grant m = 0 \<or> aa_Grant m > AppMaxCredit
      then (s, resetRemote a ErrorCodeAppProtocolError ''invalid accept grant'' s, [])
      else if \<not> st_opening (obj s a) then (s, [], [])
      else (upd a (\<lambda>st. st\<lparr>st_opening := False, st_sndCredit := aa_Grant m, st_acceptMeta := aa_Meta m\<rparr>) s,
            [A_CloseReady a], []))"

definition handleReject :: "nat \<Rightarrow> AppReject \<Rightarrow> Session \<Rightarrow> outcome" where
  "handleReject a m s =
     (if \<not> st_opening (obj s a) then (s, [], [])
      else (upd a (\<lambda>st. st\<lparr>st_opening := False, st_openErr := Some (RejectError (aj_Code m) (aj_Message m))\<rparr>) s,
            [A_Detach a, A_CloseReady a], []))"

definition closeReady :: "nat \<Rightarrow> Session \<Rightarrow> outcome" where
  "closeReady a s =
     (upd a (\<lambda>st. st\<lparr>st_ready := True\<rparr>) s\<lparr>s_panic := s_panic s \<or> st_ready (obj s a)\<rparr>, [], [])"

section \<open>The read loop\<close>

text \<open>
  \<open>handleFrame\<close>: what to do with a frame, and the error with which the loop ends.
\<close>

definition handleFrame :: "registry \<Rightarrow> Frame \<Rightarrow> action list \<times> goerr option" where
  "handleFrame reg f =
     (if f_Flags f \<noteq> 0 \<or> f_MsgID f \<noteq> 0
      then ([A_SendError ErrorCodeBadPayload ''app: flags and msg_id must be zero''],
            Some (NewError ''app: frame with non-zero flags or msg_id''))
      else
        (case DecodeMessage reg (f_Type f) (bytes_NewReader (f_Body f)) of
           Inl e \<Rightarrow> ([A_SendError ErrorCodeBadPayload (''app: decode: '' @ Error e)], Some e)
         | Inr (M_AppOpen m, r) \<Rightarrow> ([A_HandleOpen m], None)
         | Inr (M_AppAccept m, r) \<Rightarrow> ([A_Stream (aa_StreamID m) (D_Accept m)], None)
         | Inr (M_AppReject m, r) \<Rightarrow> ([A_Stream (aj_StreamID m) (D_Reject m)], None)
         | Inr (M_AppData m, r) \<Rightarrow> ([A_Stream (ad_StreamID m) (D_Data (ad_Data m))], None)
         | Inr (M_AppCredit m, r) \<Rightarrow> ([A_Stream (ac_StreamID m) (D_Credit (ac_Bytes m))], None)
         | Inr (M_AppClose m, r) \<Rightarrow> ([A_Stream (al_StreamID m) D_Close], None)
         | Inr (M_AppReset m, r) \<Rightarrow> ([A_Stream (ar_StreamID m) (D_Reset (ar_Code m) (ar_Message m))], None)
         | Inr (m, r) \<Rightarrow>
             ([A_SendError ErrorCodeBadPayload ''app: unexpected message type''],
              Some (NewError (''app: unexpected message type 0x'' @ fmt_02X (unat (f_Type f)))))))"

text \<open>One round of \<open>Serve\<close> on what \<^verbatim>\<open>ReadMVCPFrame\<close> returned.\<close>

definition Serve :: "registry \<Rightarrow> goerr + Frame \<Rightarrow> action list" where
  "Serve reg res =
     (case res of
        Inl e \<Rightarrow> [A_Fail e, A_Return (Ev_Serve e)]
      | Inr f \<Rightarrow>
          (case handleFrame reg f of
             (acts, None) \<Rightarrow> acts @ [A_Serve]
           | (acts, Some e) \<Rightarrow> acts @ [A_Fail e, A_Return (Ev_Serve e)]))"

definition on_stream :: "nat \<Rightarrow> dispatch \<Rightarrow> Session \<Rightarrow> outcome" where
  "on_stream a d s =
     (case d of
        D_Accept m \<Rightarrow> handleAccept a m s
      | D_Reject m \<Rightarrow> handleReject a m s
      | D_Data data \<Rightarrow> deliver a data s
      | D_Credit n \<Rightarrow> addCredit a n s
      | D_Close \<Rightarrow> remoteClose a s
      | D_Reset code message \<Rightarrow> (s, remoteReset a code message, []))"

section \<open>Open and Close\<close>

definition Open :: "string \<Rightarrow> bytes \<Rightarrow> Session \<Rightarrow> outcome" where
  "Open service meta s =
     (if \<not> ValidAppService service
      then (s, [A_Return (Ev_Open (Inl (Errorq ''app: invalid service '' service)))], [])
      else if length meta > AppMaxMetaBytes
      then (s, [A_Return (Ev_Open (Inl (NewError ''app: meta too large'')))], [])
      else if s_closed s then (s, [A_Return (Ev_Open (Inl ErrSessionClosed))], [])
      else if length (s_streams s) \<ge> AppMaxStreams
      then (s, [A_Return (Ev_Open (Inl (RejectError ErrorCodeAppQuotaExceeded ''stream quota exceeded'')))], [])
      else if s_nextID s \<ge> maxLocalStreamID then (s, [A_Return (Ev_Open (Inl ErrStreamIDExhausted))], [])
      else
        (let next = s_nextID s + 1;
             sid = localBit s OR next;
             a = length (s_heap s);
             st = (newStream sid service False)\<lparr>st_opening := True, st_rcvWindow := AppInitialWindow\<rparr> in
         (s\<lparr>s_heap := s_heap s @ [st], s_streams := AList.update sid a (s_streams s), s_nextID := next\<rparr>,
          [A_Send (Open_msg \<lparr>ao_StreamID = sid, ao_Service = service, ao_Meta = meta\<rparr>) (SendOpen a)], [])))"

text \<open>
  The \<^verbatim>\<open>select\<close> of \<open>Open\<close>: which of the ready cases is taken is an input, and the
  context may end at any time.
\<close>

datatype wakeup = W_Ready | W_Closed | W_Ctx goerr

definition openWait :: "wakeup \<Rightarrow> nat \<Rightarrow> Session \<Rightarrow> outcome option" where
  "openWait w a s =
     (case w of
        W_Ready \<Rightarrow> if st_ready (obj s a) then Some (s, [A_OpenFinish a], []) else None
      | W_Closed \<Rightarrow> if s_closeCh s then Some (s, [A_Return (Ev_Open (Inl ErrSessionClosed))], []) else None
      | W_Ctx err \<Rightarrow>
          Some (s, resetRemote a ErrorCodeAppTimeout ''open context done'' s @ [A_Return (Ev_Open (Inl err))], []))"

definition openFinish :: "nat \<Rightarrow> Session \<Rightarrow> outcome" where
  "openFinish a s =
     (case (st_openErr (obj s a), st_resetErr (obj s a)) of
        (Some e, _) \<Rightarrow> (s, [A_Return (Ev_Open (Inl e))], [])
      | (None, Some e) \<Rightarrow> (s, [A_Return (Ev_Open (Inl e))], [])
      | (None, None) \<Rightarrow> (s, [A_StartWriteLoop a False], []))"

definition Close :: "action list" where
  "Close = [A_Fail ErrSessionClosed, A_WgWait]"

section \<open>Running the actions\<close>

text \<open>What follows a send, in the code that called it.\<close>

primrec after_send :: "after \<Rightarrow> goerr option \<Rightarrow> action list" where
  "after_send SendIgnore e = []"
| "after_send (SendReset a code message) e =
     (case e of Some err \<Rightarrow> [A_Fail err] | None \<Rightarrow> []) @ [A_SetReset a code message]"
| "after_send (SendData a) e = (case e of Some err \<Rightarrow> [A_Fail err] | None \<Rightarrow> [A_WriteLoop a])"
| "after_send (SendClose a) e = (case e of Some err \<Rightarrow> [A_Fail err] | None \<Rightarrow> [A_MaybeFinish a])"
| "after_send (SendCloseWrite a) e =
     (case e of Some err \<Rightarrow> [A_Fail err, A_Return (Ev_CloseWrite a (Some err))]
      | None \<Rightarrow> [A_MaybeFinish a, A_Return (Ev_CloseWrite a None)])"
| "after_send SendCredit e = (case e of Some err \<Rightarrow> [A_Fail err] | None \<Rightarrow> [])"
| "after_send (SendOpen a) e =
     (case e of Some err \<Rightarrow> [A_Detach a, A_Return (Ev_Open (Inl err))] | None \<Rightarrow> [A_OpenWait a])"
| "after_send (SendAccept a ep) e =
     (case e of Some err \<Rightarrow> [A_EpClose ep, A_Fail err] | None \<Rightarrow> [A_Attach a ep, A_StartWriteLoop a True])"

text \<open>
  The inputs a section may take from outside: what reading the connection gave, the
  result of the handler, which case of a \<^verbatim>\<open>select\<close> was taken, which operation the
  holder of a stream calls.
\<close>

datatype call = C_Write bytes | C_Read nat | C_CloseWrite | C_Reset uint16 string

datatype input =
    I_None
  | I_Frame "goerr + Frame"
  | I_Handler "goerr + (endpoint \<times> bytes)"
  | I_Wake wakeup
  | I_Call call

primrec call_action :: "nat \<Rightarrow> call \<Rightarrow> action option" where
  "call_action a (C_Write p) = (if length p < 2 ^ 63 then Some (A_Write a p) else None)"
| "call_action a (C_Read n) = Some (A_Read a n)"
| "call_action a C_CloseWrite = Some (A_CloseWrite a)"
| "call_action a (C_Reset code message) = Some (A_Reset a code message)"

primrec exec :: "registry \<Rightarrow> input \<Rightarrow> action \<Rightarrow> Session \<Rightarrow> outcome option" where
  "exec reg i (A_Send m k) s = (case sendApp m s of (e, s1) \<Rightarrow> Some (s1, after_send k e, []))"
| "exec reg i (A_SendError code message) s = Some (sendError code message s, [], [])"
| "exec reg i (A_Fail e) s = Some (fail e s)"
| "exec reg i A_ZeroBuffered s = Some (s\<lparr>s_buffered := 0\<rparr>, [], [])"
| "exec reg i A_CloseConn s = Some (log_event Ev_ConnClosed s, [], [])"
| "exec reg i (A_SetReset a code message) s = Some (setReset a code message s)"
| "exec reg i (A_Finish a) s = Some (finish a s)"
| "exec reg i (A_Detach a) s = Some (detach a s)"
| "exec reg i (A_DetachBytes a) s = Some (detachBytes a s)"
| "exec reg i (A_Release n) s = Some (releaseBuffer n s, [], [])"
| "exec reg i (A_CloseEndpoint a) s = Some (closeEndpoint a s)"
| "exec reg i (A_EpClose ep) s = Some (log_event (Ev_EpClosed ep) s, [], [])"
| "exec reg i (A_MaybeFinish a) s = Some (maybeFinish a s)"
| "exec reg i (A_Stream sid d) s =
     (case stream sid s of None \<Rightarrow> Some (s, [], []) | Some a \<Rightarrow> Some (s, [A_Dispatch a d], []))"
| "exec reg i (A_Dispatch a d) s = Some (on_stream a d s)"
| "exec reg i (A_CloseReady a) s = Some (closeReady a s)"
| "exec reg i (A_HandleOpen m) s = Some (handleOpen m s)"
| "exec reg i (A_AcceptOpen a meta) s =
     acceptOpen (case i of I_Handler res \<Rightarrow> Some res | _ \<Rightarrow> None) a meta s"
| "exec reg i (A_MarkOpened a k) s = Some (markOpened a k s)"
| "exec reg i (A_Attach a ep) s = Some (attachEndpoint a ep s)"
| "exec reg i (A_StartWriteLoop a bridge) s = Some (startWriteLoop a bridge s)"
| "exec reg i (A_WriteLoop a) s = Some (writeLoop a s)"
| "exec reg i (A_CondWait a e w) s = condWait a e w s"
| "exec reg i A_WgDone s = Some (s\<lparr>s_wg := s_wg s - 1, s_panic := s_panic s \<or> s_wg s = 0\<rparr>, [], [])"
| "exec reg i A_WgWait s = (if s_wg s = 0 then Some (s, [], []) else None)"
| "exec reg i (A_Open service meta) s = Some (Open service meta s)"
| "exec reg i (A_OpenWait a) s = (case i of I_Wake w \<Rightarrow> openWait w a s | _ \<Rightarrow> None)"
| "exec reg i (A_OpenFinish a) s = Some (openFinish a s)"
| "exec reg i (A_App a) s =
     (case i of
        I_Call c \<Rightarrow> (case call_action a c of Some act \<Rightarrow> Some (s, [A_App a], [[act]]) | None \<Rightarrow> None)
      | _ \<Rightarrow> None)"
| "exec reg i (A_Write a p) s = Some (Write a p s)"
| "exec reg i (A_Read a n) s = Some (Read a n s)"
| "exec reg i (A_CloseWrite a) s = Some (CloseWrite a s)"
| "exec reg i (A_Reset a code message) s = Some (Reset a code message s)"
| "exec reg i A_Serve s = (case i of I_Frame res \<Rightarrow> Some (s, Serve reg res, []) | _ \<Rightarrow> None)"
| "exec reg i (A_Return ev) s =
     Some (log_event ev s, [], (case ev of Ev_Open (Inr a) \<Rightarrow> [[A_App a]] | _ \<Rightarrow> []))"

section \<open>Interleaving\<close>

text \<open>
  A configuration is a session with its goroutines. In a step any goroutine runs its
  next section, or the application calls \<open>Open\<close> or \<open>Close\<close> (the context given to
  \<open>Serve\<close> ends in a call of \<open>Close\<close> too). A session starts with its read loop.
\<close>

type_synonym conf = "Session \<times> action list list"

inductive step :: "registry \<Rightarrow> conf \<Rightarrow> conf \<Rightarrow> bool" for reg where
  run: "step reg (s, ts) (s', ts[i := k @ rest] @ new)"
    if "i < length ts" and "ts ! i = act # rest" and "exec reg inp act s = Some (s', k, new)"
| call_Open: "step reg (s, ts) (s, ts @ [[A_Open service meta]])"
| call_Close: "step reg (s, ts) (s, ts @ [Close])"

inductive reachable :: "registry \<Rightarrow> conf \<Rightarrow> bool" for reg where
  start: "reachable reg (NewSession conn role hasHandler hasObserver, [[A_Serve]])"
    if "role = RoleHost \<or> role = RoleGuest"
| step: "reachable reg c'" if "reachable reg c" and "step reg c c'"

inductive_cases step_cases: "step reg (s, ts) c'"

end
