(* ===== verification/App_Invariant.thy ===== *)
theory App_Invariant
  imports App_Session
begin

text \<open>
  Invariants of a session under every interleaving of its goroutines. An invariant is
  a predicate on the session and the multiset of the actions that are still to be run;
  the locale \<open>session_invariant\<close> turns its preservation by each action into a
  statement about all reachable configurations.
\<close>

section \<open>Invariants of the interleaving\<close>

locale session_invariant =
  fixes I :: "Session \<Rightarrow> action multiset \<Rightarrow> bool"
    and J :: "Session \<Rightarrow> action multiset \<Rightarrow> bool"
  assumes J: "reachable reg (s, ts) \<Longrightarrow> J s (pool ts)"
    and start: "role = RoleHost \<or> role = RoleGuest \<Longrightarrow> I (NewSession conn role hasHandler hasObserver) {#A_Serve#}"
    and exec: "I s (add_mset act P) \<Longrightarrow> J s (add_mset act P) \<Longrightarrow> exec reg i act s = Some (s', k, new) \<Longrightarrow>
      I s' (P + mset k + pool new)"
    and call: "I s P \<Longrightarrow> J s P \<Longrightarrow> I s (add_mset (A_Open service meta) P)"
      "I s P \<Longrightarrow> J s P \<Longrightarrow> I s (add_mset (A_Fail ErrSessionClosed) (add_mset A_WgWait P))"
begin

lemma reachable_pool: "reachable reg c \<Longrightarrow> I (fst c) (pool (snd c))"
proof (induction rule: reachable.induct)
  case (start role conn hasHandler hasObserver)
  then show ?case by (simp add: session_invariant.start [OF session_invariant_axioms] pool_def)
next
  case (step c c')
  from step.hyps(2) step.hyps(1) step.IH show ?case
  proof (cases rule: step.cases)
    case (run i ts act rest inp s s' k new)
    obtain P where P: "pool ts = add_mset act P" "pool (ts[i := k @ rest] @ new) = P + mset k + pool new"
      using pool_run [OF run(3,4)] by blast
    have "I s (pool ts)" "J s (pool ts)"
      using step.hyps(1) step.IH J [of reg s ts] by (simp_all add: run(1))
    then have "I s (add_mset act P)" "J s (add_mset act P)"
      by (simp_all only: P(1))
    then have "I s' (P + mset k + pool new)"
      using run(5) by (rule exec)
    then show ?thesis
      by (simp only: run(2) P(2) fst_conv snd_conv)
  next
    case (call_Open s ts service meta)
    then have "I s (pool ts)" "J s (pool ts)"
      using step.hyps(1) step.IH J [of reg s ts] by auto
    then show ?thesis
      using call(1) by (simp add: call_Open(2) pool_def)
  next
    case (call_Close s ts)
    then have "I s (pool ts)" "J s (pool ts)"
      using step.hyps(1) step.IH J [of reg s ts] by auto
    then show ?thesis
      using call(2) by (simp add: call_Close(2) pool_def Close_def add_mset_commute)
  qed
qed

lemma holds: "reachable reg (s, ts) \<Longrightarrow> I s (pool ts)"
  using reachable_pool by fastforce

end

section \<open>Objects and addresses\<close>

abbreviation nstreams :: "Session \<Rightarrow> nat" where
  "nstreams s \<equiv> length (s_heap s)"

lemma upd_simps [simp]:
  "nstreams (upd a f s) = nstreams s" "s_streams (upd a f s) = s_streams s" "s_Role (upd a f s) = s_Role s"
  "s_hasHandler (upd a f s) = s_hasHandler s" "s_hasObserver (upd a f s) = s_hasObserver s"
  "s_wr (upd a f s) = s_wr s" "s_nextID (upd a f s) = s_nextID s" "s_closed (upd a f s) = s_closed s"
  "s_closeCh (upd a f s) = s_closeCh s" "s_buffered (upd a f s) = s_buffered s" "s_wg (upd a f s) = s_wg s"
  "s_log (upd a f s) = s_log s" "s_panic (upd a f s) = s_panic s"
  by (simp_all add: upd_def)

lemma obj_upd: "a < nstreams s \<Longrightarrow> obj (upd a f s) b = (if b = a then f (obj s a) else obj s b)"
  by (simp add: obj_def upd_def)

lemma log_event_simps [simp]:
  "s_heap (log_event e s) = s_heap s" "s_streams (log_event e s) = s_streams s"
  "s_Role (log_event e s) = s_Role s"
  "s_hasHandler (log_event e s) = s_hasHandler s" "s_hasObserver (log_event e s) = s_hasObserver s"
  "s_wr (log_event e s) = s_wr s" "s_nextID (log_event e s) = s_nextID s"
  "s_closed (log_event e s) = s_closed s" "s_closeCh (log_event e s) = s_closeCh s"
  "s_buffered (log_event e s) = s_buffered s" "s_wg (log_event e s) = s_wg s"
  "s_log (log_event e s) = s_log s @ [e]" "s_panic (log_event e s) = s_panic s"
  by (simp_all add: log_event_def)

lemma obj_simps [simp]:
  "obj (log_event e s) a = obj s a" "obj (s\<lparr>s_wr := w\<rparr>) a = obj s a" "obj (s\<lparr>s_streams := m\<rparr>) a = obj s a"
  "obj (s\<lparr>s_nextID := i\<rparr>) a = obj s a" "obj (s\<lparr>s_closed := c\<rparr>) a = obj s a" "obj (s\<lparr>s_closeCh := c\<rparr>) a = obj s a"
  "obj (s\<lparr>s_buffered := n\<rparr>) a = obj s a" "obj (s\<lparr>s_wg := j\<rparr>) a = obj s a" "obj (s\<lparr>s_panic := c\<rparr>) a = obj s a"
  by (simp_all add: obj_def log_event_def)

lemma obj_new_old [simp]: "a < nstreams s \<Longrightarrow> obj (s\<lparr>s_heap := s_heap s @ [st]\<rparr>) a = obj s a"
  and obj_new_new [simp]: "obj (s\<lparr>s_heap := s_heap s @ [st]\<rparr>) (nstreams s) = st"
  by (simp_all add: obj_def nth_append)

lemma sendApp_heap:
  assumes "sendApp m s = (e, s')"
  obtains w where "s' = s\<lparr>s_wr := w\<rparr>"
proof -
  have "s' = s\<lparr>s_wr := s_wr s'\<rparr>"
    using assms by (auto simp: sendApp_def send_def split: sum.splits prod.splits)
  with that show ?thesis .
qed

text \<open>The address an action works on.\<close>

primrec after_addr :: "after \<Rightarrow> nat option" where
  "after_addr SendIgnore = None"
| "after_addr (SendReset a code message) = Some a"
| "after_addr (SendData a) = Some a"
| "after_addr (SendClose a) = Some a"
| "after_addr (SendCloseWrite a) = Some a"
| "after_addr SendCredit = None"
| "after_addr (SendOpen a) = Some a"
| "after_addr (SendAccept a ep) = Some a"

primrec addr_of :: "action \<Rightarrow> nat option" where
  "addr_of (A_Send m k) = after_addr k"
| "addr_of (A_SendError code message) = None"
| "addr_of (A_Fail e) = None"
| "addr_of A_ZeroBuffered = None"
| "addr_of A_CloseConn = None"
| "addr_of (A_SetReset a code message) = Some a"
| "addr_of (A_Finish a) = Some a"
| "addr_of (A_Detach a) = Some a"
| "addr_of (A_DetachBytes a) = Some a"
| "addr_of (A_Release n) = None"
| "addr_of (A_CloseEndpoint a) = Some a"
| "addr_of (A_EpClose ep) = None"
| "addr_of (A_MaybeFinish a) = Some a"
| "addr_of (A_Stream sid d) = None"
| "addr_of (A_Dispatch a d) = Some a"
| "addr_of (A_CloseReady a) = Some a"
| "addr_of (A_HandleOpen m) = None"
| "addr_of (A_AcceptOpen a meta) = Some a"
| "addr_of (A_MarkOpened a k) = Some a"
| "addr_of (A_Attach a ep) = Some a"
| "addr_of (A_StartWriteLoop a bridge) = Some a"
| "addr_of (A_WriteLoop a) = Some a"
| "addr_of (A_CondWait a e w) = Some a"
| "addr_of A_WgDone = None"
| "addr_of A_WgWait = None"
| "addr_of (A_Open service meta) = None"
| "addr_of (A_OpenWait a) = Some a"
| "addr_of (A_OpenFinish a) = Some a"
| "addr_of (A_App a) = Some a"
| "addr_of (A_Write a p) = Some a"
| "addr_of (A_Read a n) = Some a"
| "addr_of (A_CloseWrite a) = Some a"
| "addr_of (A_Reset a code message) = Some a"
| "addr_of A_Serve = None"
| "addr_of (A_Return ev) = (case ev of Ev_Open (Inr a) \<Rightarrow> Some a | _ \<Rightarrow> None)"

section \<open>The stream table\<close>

definition table_ok :: "Session \<Rightarrow> bool" where
  "table_ok s \<longleftrightarrow> wf_gomap (s_streams s) \<and> length (s_streams s) \<le> AppMaxStreams
     \<and> (\<forall>(sid, a) \<in> set (s_streams s). a < nstreams s \<and> st_id (obj s a) = sid)
     \<and> (s_closed s \<longrightarrow> s_streams s = []) \<and> s_closeCh s = s_closed s"

definition addr_ok :: "Session \<Rightarrow> action multiset \<Rightarrow> bool" where
  "addr_ok s P \<longleftrightarrow> (\<forall>act \<in># P. \<forall>a. addr_of act = Some a \<longrightarrow> a < nstreams s)"

text \<open>The definitions of all operations, to unfold a section.\<close>

lemmas section_defs =
  resetRemote_def setReset_def remoteReset_def maybeFinish_def closeEndpoint_def attachEndpoint_def
  after_opened_def markOpened_def startWriteLoop_def writeLoop_def condWait_def Write_def Read_def CloseWrite_def
  Reset_def deliver_def addCredit_def remoteClose_def detach_def detachBytes_def finish_def fail_def
  sendReject_def handleOpen_def acceptOpen_def handleAccept_def handleReject_def closeReady_def
  on_stream_def Open_def openWait_def openFinish_def
  reserveBuffer_def releaseBuffer_def stream_def sendError_def Let_def

lemmas section_splits =
  if_splits option.splits sum.splits prod.splits list.splits wakeup.splits dispatch.splits input.splits
  after.splits event.splits waiter.splits

lemma take_chunk_simps [simp]:
  "st_id (take_chunk st) = st_id st" "st_reset (take_chunk st) = st_reset st"
  "st_opening (take_chunk st) = st_opening st" "st_accepting (take_chunk st) = st_accepting st"
  "st_localClosed (take_chunk st) = st_localClosed st" "st_remoteClosed (take_chunk st) = st_remoteClosed st"
  "st_resetErr (take_chunk st) = st_resetErr st" "st_ready (take_chunk st) = st_ready st"
  "st_openErr (take_chunk st) = st_openErr st" "st_opened (take_chunk st) = st_opened st"
  "st_finished (take_chunk st) = st_finished st" "st_rcvWindow (take_chunk st) = st_rcvWindow st"
  "st_inQ (take_chunk st) = st_inQ st" "st_inBytes (take_chunk st) = st_inBytes st"
  "st_closeAfterFlush (take_chunk st) = st_closeAfterFlush st" "st_inbound (take_chunk st) = st_inbound st" "st_epoch (take_chunk st) = st_epoch st"
  by (simp_all add: take_chunk_def Let_def)

lemma read_upd_simps [simp]:
  "st_id (read_upd n st) = st_id st" "st_reset (read_upd n st) = st_reset st"
  "st_opening (read_upd n st) = st_opening st" "st_accepting (read_upd n st) = st_accepting st"
  "st_localClosed (read_upd n st) = st_localClosed st" "st_remoteClosed (read_upd n st) = st_remoteClosed st"
  "st_resetErr (read_upd n st) = st_resetErr st" "st_ready (read_upd n st) = st_ready st"
  "st_openErr (read_upd n st) = st_openErr st" "st_opened (read_upd n st) = st_opened st"
  "st_finished (read_upd n st) = st_finished st" "st_sndCredit (read_upd n st) = st_sndCredit st"
  "st_sendQ (read_upd n st) = st_sendQ st" "st_sendBytes (read_upd n st) = st_sendBytes st"
  "st_closeAfterFlush (read_upd n st) = st_closeAfterFlush st" "st_inbound (read_upd n st) = st_inbound st" "st_epoch (read_upd n st) = st_epoch st"
  by (simp_all add: read_upd_def Let_def)

lemma newStream_simps [simp]:
  "st_id (newStream i v b) = i" "st_reset (newStream i v b) = False"
  "st_opening (newStream i v b) = False" "st_accepting (newStream i v b) = False"
  "st_localClosed (newStream i v b) = False" "st_remoteClosed (newStream i v b) = False"
  "st_resetErr (newStream i v b) = None" "st_ready (newStream i v b) = False"
  "st_openErr (newStream i v b) = None" "st_opened (newStream i v b) = False"
  "st_finished (newStream i v b) = False" "st_rcvWindow (newStream i v b) = 0"
  "st_inQ (newStream i v b) = []" "st_inBytes (newStream i v b) = 0" "st_inbound (newStream i v b) = b"
  "st_sendQ (newStream i v b) = []" "st_sendBytes (newStream i v b) = 0" "st_sndCredit (newStream i v b) = 0"
  "st_closeAfterFlush (newStream i v b) = False" "st_epoch (newStream i v b) = 0" "st_ep (newStream i v b) = None"
  by (simp_all add: newStream_def)

lemma call_action_addr: "call_action a c = Some act \<Longrightarrow> addr_of act = Some a"
  by (cases c) (auto split: if_splits)

text \<open>The heap only grows, and objects keep their ID and direction.\<close>

definition extends :: "Session \<Rightarrow> Session \<Rightarrow> bool" where
  "extends s s' \<longleftrightarrow> nstreams s \<le> nstreams s' \<and> s_Role s' = s_Role s
     \<and> (\<forall>a < nstreams s. st_id (obj s' a) = st_id (obj s a) \<and> st_inbound (obj s' a) = st_inbound (obj s a))"

lemma exec_extends:
  assumes "exec reg i act s = Some (s', k, new)" and "\<forall>a. addr_of act = Some a \<longrightarrow> a < nstreams s"
  shows "extends s s'"
  using assms
  by (cases act) (auto simp: section_defs extends_def obj_upd elim!: sendApp_heap split: section_splits)

lemma addr_ok_add [simp]: "addr_ok s (add_mset act P) \<longleftrightarrow> (\<forall>a. addr_of act = Some a \<longrightarrow> a < nstreams s) \<and> addr_ok s P"
  and addr_ok_plus [simp]: "addr_ok s (P + Q) \<longleftrightarrow> addr_ok s P \<and> addr_ok s Q"
  and addr_ok_empty [simp]: "addr_ok s {#}"
  by (auto simp: addr_ok_def)

lemma addr_ok_mono: "addr_ok s P \<Longrightarrow> nstreams s \<le> nstreams s' \<Longrightarrow> addr_ok s' P"
  by (fastforce simp: addr_ok_def)

lemma handleFrame_addr: "handleFrame reg f = (acts, e) \<Longrightarrow> addr_ok s (mset acts)"
  by (auto simp: handleFrame_def addr_ok_def split: if_splits sum.splits prod.splits message.splits)

lemma Serve_addr [simp]: "addr_ok s (mset (Serve reg res))"
  by (auto simp: Serve_def handleFrame_addr split: sum.splits prod.splits option.splits)

lemma after_send_addr:
  "\<forall>a. after_addr k = Some a \<longrightarrow> a < nstreams s \<Longrightarrow> addr_ok s (mset (after_send k e))"
  by (cases k) (auto split: option.splits)

lemma addr_ok_resets [simp]:
  "addr_ok s (image_mset (\<lambda>(sid, a). A_SetReset a c m) (mset xs)) \<longleftrightarrow> (\<forall>(sid, a) \<in> set xs. a < nstreams s)"
  by (auto simp: addr_ok_def)

lemma table_ok_lookup: "table_ok s \<Longrightarrow> map_of (s_streams s) sid = Some a \<Longrightarrow> a < nstreams s \<and> st_id (obj s a) = sid"
  by (auto simp: table_ok_def dest!: map_of_SomeD)

lemma table_ok_addr: "table_ok s \<Longrightarrow> (sid, a) \<in> set (s_streams s) \<Longrightarrow> a < nstreams s"
  by (auto simp: table_ok_def)

lemma exec_addr_ok:
  assumes "exec reg i act s = Some (s', k, new)" and "\<forall>a. addr_of act = Some a \<longrightarrow> a < nstreams s" and "table_ok s"
  shows "addr_ok s' (mset k + pool new)"
  using assms
  by (cases act)
    (auto simp: section_defs obj_upd after_send_addr dest: table_ok_lookup table_ok_addr call_action_addr
       elim!: sendApp_heap split: section_splits)

lemma exec_same_table:
  assumes "exec reg i act s = Some (s', k, new)"
    and "\<And>e. act \<noteq> A_Fail e" "\<And>a. act \<noteq> A_Detach a" "\<And>m. act \<noteq> A_HandleOpen m"
      "\<And>service meta. act \<noteq> A_Open service meta"
  shows "s_streams s' = s_streams s \<and> s_closed s' = s_closed s \<and> s_closeCh s' = s_closeCh s"
  using assms
  by (cases act) (auto simp: section_defs elim!: sendApp_heap split: section_splits)

lemma table_ok_extends:
  assumes "table_ok s" and "extends s s'"
    and "s_streams s' = s_streams s \<and> s_closed s' = s_closed s \<and> s_closeCh s' = s_closeCh s"
  shows "table_ok s'"
  using assms by (fastforce simp: table_ok_def extends_def)

lemma set_update_subset: "set (AList.update k v m) \<subseteq> insert (k, v) (set m)"
  by (induction m) auto

lemma length_update_le: "length (AList.update k v m) \<le> Suc (length m)"
  by (induction m) auto

lemma set_delete_subset: "set (AList.delete k m) \<subseteq> set m"
  by (auto simp: AList.delete_eq)

lemma table_ok_add:
  assumes "table_ok s" and "\<not> s_closed s" and "length (s_streams s) < AppMaxStreams" and "st_id st = sid"
  shows "table_ok (s\<lparr>s_heap := s_heap s @ [st], s_streams := AList.update sid (nstreams s) (s_streams s)\<rparr>)"
    (is "table_ok ?s")
proof -
  have "a < nstreams ?s \<and> st_id (obj ?s a) = i" if "(i, a) \<in> set (s_streams ?s)" for i a
  proof -
    have "(i, a) = (sid, nstreams s) \<or> (i, a) \<in> set (s_streams s)"
      using that set_update_subset by fastforce
    then show ?thesis
      using assms(1,4) by (fastforce simp: table_ok_def)
  qed
  moreover have "length (s_streams ?s) \<le> AppMaxStreams"
    using length_update_le [of sid "nstreams s" "s_streams s"] assms(3) by simp
  ultimately show ?thesis
    using assms(1,2) by (auto simp: table_ok_def)
qed

lemma table_ok_delete:
  assumes "table_ok s"
  shows "table_ok (s\<lparr>s_streams := AList.delete i (s_streams s)\<rparr>)"
proof -
  have "length (AList.delete i (s_streams s)) \<le> AppMaxStreams"
    using assms length_delete_le [of i "s_streams s"] by (simp add: table_ok_def)
  then show ?thesis
    using assms set_delete_subset by (fastforce simp: table_ok_def)
qed

lemma table_ok_nextID [simp]: "table_ok (s\<lparr>s_nextID := n\<rparr>) = table_ok s"
  by (simp add: table_ok_def)

lemma exec_table_ok:
  assumes "exec reg i act s = Some (s', k, new)" and "\<forall>a. addr_of act = Some a \<longrightarrow> a < nstreams s" and "table_ok s"
  shows "table_ok s'"
proof -
  have ext: "extends s s'"
    using assms by (blast intro: exec_extends)
  consider e where "act = A_Fail e" | a where "act = A_Detach a" | m where "act = A_HandleOpen m"
    | service meta where "act = A_Open service meta"
    | "s_streams s' = s_streams s \<and> s_closed s' = s_closed s \<and> s_closeCh s' = s_closeCh s"
    using exec_same_table [OF assms(1)] by blast
  then show ?thesis
  proof cases
    case 1
    with assms show ?thesis by (auto simp: fail_def table_ok_def split: if_splits)
  next
    case 2
    with assms show ?thesis by (auto simp: detach_def table_ok_delete split: if_splits)
  next
    case 3
    with assms table_ok_add show ?thesis by (auto simp: handleOpen_def Let_def split: if_splits)
  next
    case 4
    with assms table_ok_add show ?thesis by (auto simp: Open_def Let_def split: if_splits)
  next
    case 5
    with assms ext show ?thesis by (blast intro: table_ok_extends)
  qed
qed

definition table_inv :: "Session \<Rightarrow> action multiset \<Rightarrow> bool" where
  "table_inv s P \<longleftrightarrow> table_ok s \<and> addr_ok s P"

interpretation table_si: session_invariant table_inv "\<lambda>s P. True"
proof unfold_locales
  fix s act P reg i s' k new
  assume inv: "table_inv s (add_mset act P)" and ex: "exec reg i act s = Some (s', k, new)"
  then have a: "\<forall>a. addr_of act = Some a \<longrightarrow> a < nstreams s" and t: "table_ok s" and P: "addr_ok s P"
    by (simp_all add: table_inv_def)
  have "addr_ok s' P"
    using P exec_extends [OF ex a] by (auto simp: extends_def intro: addr_ok_mono)
  with exec_addr_ok [OF ex a t] exec_table_ok [OF ex a t] show "table_inv s' (P + mset k + pool new)"
    by (simp add: table_inv_def)
qed (simp_all add: table_inv_def table_ok_def NewSession_def)

section \<open>Who holds a stream\<close>

text \<open>
  The goroutine that still has to tell whether a stream comes into being; the code
  that holds the stream while its open is under way (\<open>lcl_of\<close>) or after it
  (\<open>expo_of\<close>); all of these together (\<open>live\<close>).
\<close>

fun accept_of :: "action \<Rightarrow> nat option" where
  "accept_of (A_AcceptOpen a m) = Some a"
| "accept_of _ = None"

fun lcl_of :: "action \<Rightarrow> nat option" where
  "lcl_of (A_Send m (SendOpen a)) = Some a"
| "lcl_of (A_OpenWait a) = Some a"
| "lcl_of (A_OpenFinish a) = Some a"
| "lcl_of _ = None"

fun token_of :: "action \<Rightarrow> nat option" where
  "token_of (A_AcceptOpen a m) = Some a"
| "token_of (A_Send m (SendOpen a)) = Some a"
| "token_of _ = None"

fun ofin_of :: "action \<Rightarrow> nat option" where
  "ofin_of (A_OpenFinish a) = Some a"
| "ofin_of _ = None"

fun expo_of :: "action \<Rightarrow> nat option" where
  "expo_of (A_MarkOpened a k) = Some a"
| "expo_of (A_Send m (SendAccept a ep)) = Some a"
| "expo_of (A_Send m (SendData a)) = Some a"
| "expo_of (A_Send m (SendClose a)) = Some a"
| "expo_of (A_Send m (SendCloseWrite a)) = Some a"
| "expo_of (A_Attach a ep) = Some a"
| "expo_of (A_StartWriteLoop a b) = Some a"
| "expo_of (A_WriteLoop a) = Some a"
| "expo_of (A_CondWait a e w) = Some a"
| "expo_of (A_App a) = Some a"
| "expo_of (A_Write a p) = Some a"
| "expo_of (A_Read a n) = Some a"
| "expo_of (A_CloseWrite a) = Some a"
| "expo_of (A_Reset a c m) = Some a"
| "expo_of (A_Return (Ev_Open (Inr a))) = Some a"
| "expo_of _ = None"

fun fin_of :: "action \<Rightarrow> nat option" where
  "fin_of (A_Finish a) = Some a"
| "fin_of _ = None"

fun det_of :: "action \<Rightarrow> nat option" where
  "det_of (A_Detach a) = Some a"
| "det_of (A_DetachBytes a) = Some a"
| "det_of _ = None"

fun crdy_of :: "action \<Rightarrow> nat option" where
  "crdy_of (A_CloseReady a) = Some a"
| "crdy_of _ = None"

abbreviation live :: "nat \<Rightarrow> action multiset \<Rightarrow> nat" where
  "live a P \<equiv> cnt accept_of a P + cnt lcl_of a P + cnt expo_of a P"

lemma cnt_fresh:
  assumes "\<And>x. f x = Some a \<Longrightarrow> addr_of x = Some a" and "addr_ok s P" and "nstreams s \<le> a"
  shows "cnt f a P = 0"
  using assms unfolding cnt_zero addr_ok_def by fastforce

lemma of_addr:
  "accept_of x = Some a \<Longrightarrow> addr_of x = Some a" "lcl_of x = Some a \<Longrightarrow> addr_of x = Some a"
  "token_of x = Some a \<Longrightarrow> addr_of x = Some a" "ofin_of x = Some a \<Longrightarrow> addr_of x = Some a"
  "expo_of x = Some a \<Longrightarrow> addr_of x = Some a" "fin_of x = Some a \<Longrightarrow> addr_of x = Some a"
  "det_of x = Some a \<Longrightarrow> addr_of x = Some a" "crdy_of x = Some a \<Longrightarrow> addr_of x = Some a"
  by (auto elim: accept_of.elims lcl_of.elims token_of.elims ofin_of.elims expo_of.elims fin_of.elims
      det_of.elims crdy_of.elims)

section \<open>Invariants of a stream\<close>

text \<open>
  A section changes only the stream it works on, and leads to actions on other streams
  only where the read loop finds the stream or the session fails.
\<close>

fun inward :: "action \<Rightarrow> bool" where
  "inward (A_SetReset a c m) = True"
| "inward (A_Dispatch a d) = True"
| "inward _ = False"

definition others :: "nat \<Rightarrow> action multiset \<Rightarrow> bool" where
  "others a R \<longleftrightarrow> (\<forall>x \<in># R. addr_of x = Some a \<longrightarrow> inward x)"

lemma others_simps [simp]:
  "others a {#}" "others a (add_mset x R) \<longleftrightarrow> (addr_of x = Some a \<longrightarrow> inward x) \<and> others a R"
  "others a (R + R') \<longleftrightarrow> others a R \<and> others a R'"
  by (auto simp: others_def)

lemma others_resets [simp]: "others b (image_mset (\<lambda>(sid, a). A_SetReset a c m) (mset xs))"
  by (auto simp: others_def)

lemma handleFrame_others: "handleFrame reg f = (acts, e) \<Longrightarrow> others b (mset acts)"
  by (auto simp: handleFrame_def split: if_splits sum.splits prod.splits message.splits)

lemma Serve_others [simp]: "others b (mset (Serve reg res))"
  by (auto simp: Serve_def handleFrame_others split: sum.splits prod.splits option.splits)

lemma after_send_others: "after_addr k \<noteq> Some b \<Longrightarrow> others b (mset (after_send k e))"
  by (cases k) (auto split: option.splits)

lemma exec_others:
  assumes "exec reg i act s = Some (s', k, new)" and "\<forall>a. addr_of act = Some a \<longrightarrow> a < nstreams s"
    and "b < nstreams s" and "addr_of act \<noteq> Some b"
  shows "obj s' b = obj s b \<and> others b (mset k + pool new)"
  using assms
  by (cases act)
    (auto simp: section_defs obj_upd after_send_others dest: call_action_addr elim!: sendApp_heap split: section_splits)

lemma exec_new:
  assumes "exec reg i act s = Some (s', k, new)" and "nstreams s < nstreams s'"
  obtains sid service meta where "addr_of act = None" "nstreams s' = Suc (nstreams s)"
      "obj s' (nstreams s) = (newStream sid service True)\<lparr>st_accepting := True\<rparr>"
      "k = []" "new = [[A_AcceptOpen (nstreams s) meta]]"
  | sid service m where "addr_of act = None" "nstreams s' = Suc (nstreams s)"
      "obj s' (nstreams s) = (newStream sid service False)\<lparr>st_opening := True, st_rcvWindow := AppInitialWindow\<rparr>"
      "k = [A_Send m (SendOpen (nstreams s))]" "new = []"
  using assms
  by (cases act) (auto simp: section_defs elim!: sendApp_heap split: section_splits)

text \<open>
  An invariant of each stream: a predicate on the object and the pending actions, of
  which only those on this stream matter.
\<close>

locale stream_invariant =
  fixes Q :: "Stream \<Rightarrow> action multiset \<Rightarrow> nat \<Rightarrow> bool"
    and J :: "Session \<Rightarrow> action multiset \<Rightarrow> bool"
  assumes prior: "reachable reg (s, ts) \<Longrightarrow> J s (pool ts)"
    and table: "J s P \<Longrightarrow> table_inv s P"
    and more: "Q st P a \<Longrightarrow> others a R \<Longrightarrow> Q st (P + R) a"
    and less: "Q st (add_mset act P) a \<Longrightarrow> addr_of act \<noteq> Some a \<Longrightarrow> Q st P a"
    and inbound: "addr_ok s P \<Longrightarrow>
      Q ((newStream sid service True)\<lparr>st_accepting := True\<rparr>) (add_mset (A_AcceptOpen (nstreams s) meta) P) (nstreams s)"
    and outbound: "addr_ok s P \<Longrightarrow>
      Q ((newStream sid service False)\<lparr>st_opening := True, st_rcvWindow := AppInitialWindow\<rparr>)
        (add_mset (A_Send m (SendOpen (nstreams s))) P) (nstreams s)"
    and local: "Q (obj s a) (add_mset act P) a \<Longrightarrow> addr_of act = Some a \<Longrightarrow> a < nstreams s \<Longrightarrow>
      J s (add_mset act P) \<Longrightarrow> exec reg i act s = Some (s', k, new) \<Longrightarrow> Q (obj s' a) (P + mset k + pool new) a"
begin

lemma step_stream:
  assumes "\<forall>a < nstreams s. Q (obj s a) (add_mset act P) a" and J: "J s (add_mset act P)"
    and ex: "exec reg i act s = Some (s', k, new)" and b: "b < nstreams s'"
  shows "Q (obj s' b) (P + mset k + pool new) b"
proof (cases "b < nstreams s")
  case old: True
  have addr: "\<forall>a. addr_of act = Some a \<longrightarrow> a < nstreams s"
    using table [OF J] by (simp add: table_inv_def)
  show ?thesis
  proof (cases "addr_of act = Some b")
    case True
    with assms old show ?thesis by (blast intro: local)
  next
    case False
    then have "Q (obj s b) P b"
      using assms(1) old less by blast
    with exec_others [OF ex addr old False] show ?thesis
      using more [of "obj s b" P b "mset k + pool new"] by (simp add: ac_simps)
  qed
next
  case False
  have "addr_ok s P"
    using table [OF J] by (simp add: table_inv_def)
  have "nstreams s < nstreams s'"
    using b False by simp
  with ex show ?thesis
  proof (cases rule: exec_new)
    case (1 sid service meta)
    then have "b = nstreams s" using b False by simp
    with 1 inbound [OF \<open>addr_ok s P\<close>] show ?thesis by simp
  next
    case (2 sid service m)
    then have "b = nstreams s" using b False by simp
    with 2 outbound [OF \<open>addr_ok s P\<close>] show ?thesis by simp
  qed
qed

end

sublocale stream_invariant \<subseteq> session_invariant "\<lambda>s P. \<forall>a < nstreams s. Q (obj s a) P a" J
proof unfold_locales
  fix s P service meta
  assume I: "\<forall>a < nstreams s. Q (obj s a) P a"
  show "\<forall>a < nstreams s. Q (obj s a) (add_mset (A_Open service meta) P) a"
    using I more [of _ P _ "{#A_Open service meta#}"] by simp
  show "\<forall>a < nstreams s. Q (obj s a) (add_mset (A_Fail ErrSessionClosed) (add_mset A_WgWait P)) a"
    using I more [of _ P _ "{#A_Fail ErrSessionClosed, A_WgWait#}"] by simp
qed (use prior step_stream in \<open>auto simp: NewSession_def\<close>)

lemma cnt_others:
  assumes "others a R"
  shows "cnt accept_of a R = 0" "cnt lcl_of a R = 0" "cnt token_of a R = 0" "cnt ofin_of a R = 0"
    "cnt expo_of a R = 0" "cnt fin_of a R = 0" "cnt det_of a R = 0" "cnt crdy_of a R = 0"
proof -
  have *: "cnt f a R = 0" if "\<And>x. f x = Some a \<Longrightarrow> addr_of x = Some a" and "\<And>x. inward x \<Longrightarrow> f x = None" for f
    unfolding cnt_zero
  proof
    fix x assume "x \<in># R"
    with assms that show "f x \<noteq> Some a" by (cases "inward x") (auto simp: others_def)
  qed
  show "cnt accept_of a R = 0" "cnt lcl_of a R = 0" "cnt token_of a R = 0" "cnt ofin_of a R = 0"
    "cnt expo_of a R = 0" "cnt fin_of a R = 0" "cnt det_of a R = 0" "cnt crdy_of a R = 0"
    by (rule *; (erule of_addr | (erule inward.elims; simp)))+
qed

lemma call_action_cases:
  "call_action a c =
     (case c of C_Write p \<Rightarrow> if length p < 2 ^ 63 then Some (A_Write a p) else None | C_Read n \<Rightarrow> Some (A_Read a n)
      | C_CloseWrite \<Rightarrow> Some (A_CloseWrite a) | C_Reset code message \<Rightarrow> Some (A_Reset a code message))"
  by (cases c) auto

lemmas local_defs = section_defs call_action_cases obj_upd

lemmas local_splits =
  if_splits option.splits sum.splits prod.splits wakeup.splits input.splits event.splits call.splits
  waiter.splits

lemma cnt_new:
  assumes "addr_ok s P"
  shows "cnt accept_of (nstreams s) P = 0" "cnt lcl_of (nstreams s) P = 0" "cnt token_of (nstreams s) P = 0"
    "cnt ofin_of (nstreams s) P = 0" "cnt expo_of (nstreams s) P = 0"
    "cnt fin_of (nstreams s) P = 0" "cnt det_of (nstreams s) P = 0" "cnt crdy_of (nstreams s) P = 0"
  by (rule cnt_fresh [OF _ assms]; (erule of_addr | simp))+

lemma cnt_less:
  assumes "addr_of x \<noteq> Some a"
  shows "accept_of x \<noteq> Some a" "lcl_of x \<noteq> Some a" "token_of x \<noteq> Some a" "ofin_of x \<noteq> Some a" "expo_of x \<noteq> Some a"
    "fin_of x \<noteq> Some a" "det_of x \<noteq> Some a" "crdy_of x \<noteq> Some a"
  using assms by (auto dest: of_addr)

lemmas cnt_facts = cnt_others cnt_new cnt_less

end
