(* ===== verification/App_Lifecycle.thy ===== *)
theory App_Lifecycle
  imports App_Invariant
begin

text \<open>
  The life of a stream as invariants: how an open ends, who may hold the stream, and
  when it is finished and detached.
\<close>

section \<open>Opening a stream\<close>

definition open_ok :: "Stream \<Rightarrow> action multiset \<Rightarrow> nat \<Rightarrow> bool" where
  "open_ok st P a \<longleftrightarrow>
     (st_accepting st \<longrightarrow> st_inbound st)
     \<and> (st_opening st \<longrightarrow> \<not> st_inbound st \<and> \<not> st_ready st \<and> st_openErr st = None \<and> cnt crdy_of a P = 0)
     \<and> (st_inbound st \<longrightarrow> st_openErr st = None)
     \<and> (cnt crdy_of a P > 0 \<longrightarrow> \<not> st_ready st \<and> cnt crdy_of a P = 1)
     \<and> (cnt ofin_of a P > 0 \<longrightarrow> st_ready st)
     \<and> (cnt lcl_of a P > 0 \<longrightarrow> \<not> st_inbound st)"


lemma open_ok_local:
  assumes "open_ok (obj s a) (add_mset act P) a" and "addr_of act = Some a" and "a < nstreams s"
    and "exec reg i act s = Some (s', k, new)" 
  shows "open_ok (obj s' a) (P + mset k + pool new) a"
proof (cases act)
  case (A_Send m j)
  with assms show ?thesis
    by (cases j) (auto simp: local_defs elim!: sendApp_heap split: local_splits, simp_all add: open_ok_def, auto?)
next
  case (A_Dispatch b d)
  with assms show ?thesis
    by (cases d) (auto simp: local_defs split: local_splits, simp_all add: open_ok_def, auto?)
qed (use assms in \<open>auto simp: local_defs split: local_splits, simp_all add: open_ok_def, auto?\<close>)

interpretation open_si: stream_invariant open_ok table_inv
  by unfold_locales
    (erule table_si.holds, assumption, simp add: open_ok_def cnt_facts, simp add: open_ok_def cnt_facts,
     simp add: open_ok_def cnt_facts, simp add: open_ok_def cnt_facts, erule open_ok_local)

text \<open>As long as it is undecided whether a stream comes into being, one goroutine holds it.\<close>

definition token_ok :: "Stream \<Rightarrow> action multiset \<Rightarrow> nat \<Rightarrow> bool" where
  "token_ok st P a \<longleftrightarrow>
     (cnt accept_of a P > 0 \<longrightarrow> st_accepting st) \<and> (cnt token_of a P > 0 \<longrightarrow> live a P = 1)"

lemma token_le: "cnt accept_of a P \<le> cnt token_of a P" "cnt token_of a P \<le> cnt accept_of a P + cnt lcl_of a P"
proof (induction P)
  case (add x P)
  { case 1 with add show ?case by (cases x rule: accept_of.cases) auto }
  { case 2 with add show ?case by (cases x rule: token_of.cases) auto }
qed simp_all

lemma token_ok_local:
  assumes "token_ok (obj s a) (add_mset act P) a" and "addr_of act = Some a" and "a < nstreams s"
    and "exec reg i act s = Some (s', k, new)"
  shows "token_ok (obj s' a) (P + mset k + pool new) a"
proof (cases act)
  case (A_Send m j)
  with assms token_le [of a P] show ?thesis
    by (cases j) (auto simp: local_defs elim!: sendApp_heap split: local_splits, simp_all add: token_ok_def, auto?)
next
  case (A_Dispatch b d)
  with assms token_le [of a P] show ?thesis
    by (cases d) (auto simp: local_defs split: local_splits, simp_all add: token_ok_def, auto?)
qed (use assms token_le [of a P] in \<open>auto simp: local_defs split: local_splits, simp_all add: token_ok_def, auto?\<close>)

interpretation token_si: stream_invariant token_ok table_inv
  by unfold_locales
    (erule table_si.holds, assumption, simp add: token_ok_def cnt_facts, simp add: token_ok_def cnt_facts,
     simp add: token_ok_def cnt_facts, simp add: token_ok_def cnt_facts, erule token_ok_local)


text \<open>Code that has got the stream finds its open completed without an error.\<close>

definition expo_ok :: "Stream \<Rightarrow> action multiset \<Rightarrow> nat \<Rightarrow> bool" where
  "expo_ok st P a \<longleftrightarrow> (cnt expo_of a P > 0 \<longrightarrow> \<not> st_opening st \<and> \<not> st_accepting st \<and> st_openErr st = None)"

definition open_inv :: "Session \<Rightarrow> action multiset \<Rightarrow> bool" where
  "open_inv s P \<longleftrightarrow> table_inv s P \<and> (\<forall>a < nstreams s. open_ok (obj s a) P a \<and> token_ok (obj s a) P a)"

lemma open_inv_reachable: "reachable reg (s, ts) \<Longrightarrow> open_inv s (pool ts)"
  using table_si.holds open_si.holds token_si.holds by (simp add: open_inv_def)

lemma expo_ok_local:
  assumes "expo_ok (obj s a) (add_mset act P) a" and "addr_of act = Some a" and "a < nstreams s"
    and "exec reg i act s = Some (s', k, new)" and "open_ok (obj s a) (add_mset act P) a" "token_ok (obj s a) (add_mset act P) a"
  shows "expo_ok (obj s' a) (P + mset k + pool new) a"
proof (cases act)
  case (A_Send m j)
  with assms show ?thesis
    by (cases j) (auto simp: local_defs elim!: sendApp_heap split: local_splits, simp_all add: expo_ok_def)
next
  case (A_Dispatch b d)
  with assms show ?thesis
    by (cases d) (auto simp: local_defs split: local_splits, simp_all add: expo_ok_def)
next
  case (A_AcceptOpen b meta)
  with assms show ?thesis
    by (auto simp: local_defs split: local_splits, simp_all add: expo_ok_def open_ok_def token_ok_def, auto?)
next
  case (A_OpenFinish b)
  with assms show ?thesis
    by (auto simp: local_defs split: local_splits, simp_all add: expo_ok_def open_ok_def, auto?)
qed (use assms in \<open>auto simp: local_defs split: local_splits, simp_all add: expo_ok_def\<close>)

interpretation expo_si: stream_invariant expo_ok open_inv
  by unfold_locales
    (erule open_inv_reachable, simp add: open_inv_def, simp add: expo_ok_def cnt_facts, simp add: expo_ok_def cnt_facts,
     simp add: expo_ok_def cnt_facts, simp add: expo_ok_def cnt_facts, simp add: expo_ok_local open_inv_def)

section \<open>Closing a stream\<close>

definition closed_both :: "Stream \<Rightarrow> bool" where
  "closed_both st \<longleftrightarrow> st_localClosed st \<and> st_remoteClosed st \<and> st_sendQ st = [] \<and> st_inQ st = []"

text \<open>Flags that go together.\<close>

definition flags_ok :: "Stream \<Rightarrow> action multiset \<Rightarrow> nat \<Rightarrow> bool" where
  "flags_ok st P a \<longleftrightarrow> (st_localClosed st \<longrightarrow> st_closeAfterFlush st)
     \<and> (st_reset st \<longleftrightarrow> st_resetErr st \<noteq> None) \<and> (st_reset st \<longrightarrow> \<not> st_opening st)"

lemma flags_ok_local:
  assumes "flags_ok (obj s a) (add_mset act P) a" and "addr_of act = Some a" and "a < nstreams s"
    and "exec reg i act s = Some (s', k, new)"
  shows "flags_ok (obj s' a) (P + mset k + pool new) a"
proof (cases act)
  case (A_Send m j)
  with assms show ?thesis
    by (cases j) (auto simp: local_defs elim!: sendApp_heap split: local_splits, simp_all add: flags_ok_def, auto?)
next
  case (A_Dispatch b d)
  with assms show ?thesis
    by (cases d) (auto simp: local_defs split: local_splits, simp_all add: flags_ok_def, auto?)
qed (use assms in \<open>auto simp: local_defs split: local_splits, simp_all add: flags_ok_def, auto?\<close>)

interpretation flags_si: stream_invariant flags_ok table_inv
  by unfold_locales
    (erule table_si.holds, simp, simp add: flags_ok_def cnt_facts, simp add: flags_ok_def cnt_facts,
     simp add: flags_ok_def cnt_facts, simp add: flags_ok_def cnt_facts, erule flags_ok_local)

text \<open>A stream is finished after a reset, or when both sides have closed and the queues are empty.\<close>

definition fin_ok :: "Stream \<Rightarrow> action multiset \<Rightarrow> nat \<Rightarrow> bool" where
  "fin_ok st P a \<longleftrightarrow> (cnt fin_of a P > 0 \<or> st_finished st \<longrightarrow> st_reset st \<or> closed_both st)"

lemma fin_ok_local:
  assumes "fin_ok (obj s a) (add_mset act P) a" and "addr_of act = Some a" and "a < nstreams s"
    and "exec reg i act s = Some (s', k, new)"
  shows "fin_ok (obj s' a) (P + mset k + pool new) a"
proof (cases act)
  case (A_Send m j)
  with assms show ?thesis
    by (cases j) (auto simp: local_defs elim!: sendApp_heap split: local_splits, simp_all add: fin_ok_def closed_both_def, auto?)
next
  case (A_Dispatch b d)
  with assms show ?thesis
    by (cases d) (auto simp: local_defs split: local_splits, simp_all add: fin_ok_def closed_both_def, auto?)
qed (use assms in \<open>auto simp: local_defs split: local_splits, simp_all add: fin_ok_def closed_both_def, auto?\<close>)

interpretation fin_si: stream_invariant fin_ok table_inv
  by unfold_locales
    (erule table_si.holds, simp, simp add: fin_ok_def cnt_facts, simp add: fin_ok_def cnt_facts,
     simp add: fin_ok_def cnt_facts, simp add: fin_ok_def cnt_facts, erule fin_ok_local)

text \<open>A stream is detached when it is finished, when its open was rejected, or when nobody holds it.\<close>

definition gone :: "Stream \<Rightarrow> bool" where
  "gone st \<longleftrightarrow> st_reset st \<or> st_openErr st \<noteq> None \<or> closed_both st"

definition det_ok :: "Stream \<Rightarrow> action multiset \<Rightarrow> nat \<Rightarrow> bool" where
  "det_ok st P a \<longleftrightarrow> (cnt det_of a P > 0 \<longrightarrow> gone st \<or> live a P = 0)"

definition hold_inv :: "Session \<Rightarrow> action multiset \<Rightarrow> bool" where
  "hold_inv s P \<longleftrightarrow> table_inv s P \<and>
     (\<forall>a < nstreams s. open_ok (obj s a) P a \<and> token_ok (obj s a) P a \<and> expo_ok (obj s a) P a \<and> fin_ok (obj s a) P a
        \<and> flags_ok (obj s a) P a)"

lemma hold_inv_reachable: "reachable reg (s, ts) \<Longrightarrow> hold_inv s (pool ts)"
  using table_si.holds open_si.holds token_si.holds expo_si.holds fin_si.holds flags_si.holds by (simp add: hold_inv_def)

lemma gone_upd [simp]:
  "gone (st\<lparr>st_opening := b\<rparr>) = gone st" "gone (st\<lparr>st_ready := b\<rparr>) = gone st"
  "gone (st\<lparr>st_finished := b\<rparr>) = gone st" "gone (st\<lparr>st_ep := ep\<rparr>) = gone st"
  "gone (st\<lparr>st_sndCredit := c\<rparr>) = gone st" "gone (st\<lparr>st_rcvWindow := w\<rparr>) = gone st"
  "gone (st\<lparr>st_acceptMeta := m\<rparr>) = gone st" "gone (st\<lparr>st_accepting := b\<rparr>) = gone st"
  "gone (st\<lparr>st_opened := b\<rparr>) = gone st" "gone (st\<lparr>st_closeAfterFlush := b\<rparr>) = gone st"
  "gone (st\<lparr>st_sendBytes := n\<rparr>) = gone st" "gone (st\<lparr>st_inBytes := n\<rparr>) = gone st"
  "gone (st\<lparr>st_resetErr := e\<rparr>) = gone st" "gone (st\<lparr>st_epoch := t\<rparr>) = gone st"
  by (simp_all add: gone_def closed_both_def)

lemma gone_set:
  "gone (st\<lparr>st_reset := True\<rparr>)" "gone (st\<lparr>st_openErr := Some e\<rparr>)"
  "gone st \<Longrightarrow> gone (st\<lparr>st_localClosed := True\<rparr>)" "gone st \<Longrightarrow> gone (st\<lparr>st_remoteClosed := True\<rparr>)"
  by (auto simp: gone_def closed_both_def)

lemma gone_queues:
  "gone st \<Longrightarrow> \<not> st_reset st \<Longrightarrow> \<not> st_localClosed st \<Longrightarrow> gone (st\<lparr>st_sendQ := q\<rparr>)"
  "gone st \<Longrightarrow> \<not> st_reset st \<Longrightarrow> \<not> st_remoteClosed st \<Longrightarrow> gone (st\<lparr>st_inQ := q\<rparr>)"
  "gone st \<Longrightarrow> \<not> st_reset st \<Longrightarrow> st_sendQ st \<noteq> [] \<Longrightarrow> gone (take_chunk st)"
  "gone st \<Longrightarrow> \<not> st_reset st \<Longrightarrow> st_inQ st \<noteq> [] \<Longrightarrow> gone (read_upd n st)"
  by (auto simp: gone_def closed_both_def)

lemma det_ok_local:
  assumes "det_ok (obj s a) (add_mset act P) a" and "addr_of act = Some a" and "a < nstreams s"
    and "exec reg i act s = Some (s', k, new)"
    and "token_ok (obj s a) (add_mset act P) a" "fin_ok (obj s a) (add_mset act P) a"
  shows "det_ok (obj s' a) (P + mset k + pool new) a"
proof (cases act)
  case (A_Send m j)
  with assms show ?thesis
    by (cases j) (auto simp: local_defs elim!: sendApp_heap split: local_splits, simp_all add: det_ok_def token_ok_def)
next
  case (A_Dispatch b d)
  with assms show ?thesis
    by (cases d) (auto simp: local_defs split: local_splits, simp_all add: det_ok_def gone_set gone_queues, (auto simp: gone_set gone_queues)?)
next
  case (A_AcceptOpen b meta)
  with assms show ?thesis
    by (auto simp: local_defs split: local_splits, simp_all add: det_ok_def token_ok_def)
next
  case (A_Finish b)
  with assms show ?thesis
    by (auto simp: local_defs split: local_splits, simp_all add: det_ok_def fin_ok_def, auto simp: gone_def)
qed (use assms in \<open>auto simp: local_defs split: local_splits, simp_all add: det_ok_def gone_set gone_queues, (auto simp: gone_set gone_queues)?\<close>)

interpretation det_si: stream_invariant det_ok hold_inv
  by unfold_locales
    (erule hold_inv_reachable, simp add: hold_inv_def, simp add: det_ok_def cnt_facts, simp add: det_ok_def cnt_facts,
     simp add: det_ok_def cnt_facts, simp add: det_ok_def cnt_facts, simp add: det_ok_local hold_inv_def)

end
