(* ===== verification/App_Observer.thy ===== *)
theory App_Observer
  imports App_Lifecycle
begin

text \<open>
  What the outside sees of a session: no panic, the wait group, and the callbacks of
  the observer.
\<close>

section \<open>No panic\<close>

text \<open>
  The channels \<^verbatim>\<open>ready\<close> and \<^verbatim>\<open>closeCh\<close> are closed at most once, and the wait
  group counts the write loops that are running.
\<close>

definition quiet_inv :: "Session \<Rightarrow> action multiset \<Rightarrow> bool" where
  "quiet_inv s P \<longleftrightarrow> \<not> s_panic s \<and> s_wg s = count P A_WgDone"

lemma handleFrame_cases:
  assumes "(acts, e) = handleFrame reg f"
  obtains c m where "acts = [A_SendError c m]" | m where "acts = [A_HandleOpen m]" | sid d where "acts = [A_Stream sid d]"
  using assms by (auto simp: handleFrame_def split: if_splits sum.splits prod.splits message.splits)

lemma Serve_acts:
  "x \<in> set (Serve reg res) \<Longrightarrow> x \<noteq> A_WgDone \<and> (\<forall>ev. x = A_Return ev \<longrightarrow> (\<exists>e. ev = Ev_Serve e))"
  by (auto simp: Serve_def split: sum.splits prod.splits option.splits elim!: handleFrame_cases)

lemma Serve_wg [simp]: "A_WgDone \<notin> set (Serve reg res)"
  using Serve_acts by blast

lemma Serve_wg_count [simp]: "count (mset (Serve reg res)) A_WgDone = 0"
  using Serve_acts by (auto simp: count_eq_zero_iff)

lemma resets_wg_count [simp]: "count (image_mset (\<lambda>(sid, a). A_SetReset a c m) (mset xs)) A_WgDone = 0"
  by (auto simp: count_eq_zero_iff)

lemma after_send_wg_count [simp]: "count (mset (after_send k e)) A_WgDone = 0"
  by (cases k) (auto split: option.splits)

lemma quiet_exec:
  assumes "quiet_inv s (add_mset act P)" and "hold_inv s (add_mset act P)"
    and ex: "exec reg i act s = Some (s', k, new)"
  shows "quiet_inv s' (P + mset k + pool new)"
proof -
  have tbl: "s_closeCh s = s_closed s"
    using assms(2) by (simp add: hold_inv_def table_inv_def table_ok_def)
  have opn: "open_ok (obj s a) (add_mset act P) a" if "addr_of act = Some a" for a
    using assms(2) that by (auto simp: hold_inv_def table_inv_def)
  show ?thesis
  proof (cases act)
    case (A_Dispatch b d)
    with assms(1) ex show ?thesis by (cases d) (auto simp: section_defs quiet_inv_def split: local_splits)
  next
    case (A_SetReset b c m)
    with assms(1) ex opn [of b] show ?thesis by (auto simp: section_defs quiet_inv_def open_ok_def split: local_splits)
  next
    case (A_CloseReady b)
    with assms(1) ex opn [of b] show ?thesis by (auto simp: section_defs quiet_inv_def open_ok_def split: local_splits)
  qed (use assms(1) ex tbl in
    \<open>auto simp: section_defs call_action_cases quiet_inv_def elim!: sendApp_heap split: local_splits\<close>)
qed

interpretation quiet_si: session_invariant quiet_inv hold_inv
  by unfold_locales (erule hold_inv_reachable, simp add: quiet_inv_def NewSession_def, erule (2) quiet_exec, simp_all add: quiet_inv_def)

section \<open>The observer\<close>

fun life_event :: "nat \<Rightarrow> event \<Rightarrow> bool" where
  "life_event a (Ev_Opened b) = (a = b)"
| "life_event a (Ev_Closed b) = (a = b)"
| "life_event a _ = False"

text \<open>What the observer has been told about a stream.\<close>

definition told :: "Session \<Rightarrow> nat \<Rightarrow> event list" where
  "told s a = (if s_hasObserver s \<and> a < nstreams s \<and> st_opened (obj s a)
               then Ev_Opened a # (if st_finished (obj s a) then [Ev_Closed a] else []) else [])"

definition observer_inv :: "Session \<Rightarrow> action multiset \<Rightarrow> bool" where
  "observer_inv s P \<longleftrightarrow> (\<forall>a. filter (life_event a) (s_log s) = told s a)
     \<and> (\<forall>ev. A_Return ev \<in># P \<longrightarrow> (\<forall>a. \<not> life_event a ev))"

lemma told_simps [simp]:
  "told (log_event e s) a = told s a" "told (s\<lparr>s_wr := w\<rparr>) a = told s a" "told (s\<lparr>s_streams := m\<rparr>) a = told s a"
  "told (s\<lparr>s_nextID := i\<rparr>) a = told s a" "told (s\<lparr>s_closed := c\<rparr>) a = told s a" "told (s\<lparr>s_closeCh := c\<rparr>) a = told s a"
  "told (s\<lparr>s_buffered := n\<rparr>) a = told s a" "told (s\<lparr>s_wg := j\<rparr>) a = told s a" "told (s\<lparr>s_panic := c\<rparr>) a = told s a"
  by (simp_all add: told_def)

lemma told_upd:
  "a < nstreams s \<Longrightarrow> st_opened (f (obj s a)) = st_opened (obj s a) \<Longrightarrow> st_finished (f (obj s a)) = st_finished (obj s a) \<Longrightarrow>
    told (upd a f s) b = told s b"
  by (simp add: told_def obj_upd)

lemma told_new: "\<not> st_opened st \<Longrightarrow> told (s\<lparr>s_heap := s_heap s @ [st]\<rparr>) b = told s b"
  by (cases "b < nstreams s"; cases "b = nstreams s") (auto simp: told_def)

lemma exec_told:
  assumes "exec reg i act s = Some (s', k, new)" and "\<forall>a. addr_of act = Some a \<longrightarrow> a < nstreams s"
    and "\<And>a. act \<noteq> A_Finish a" "\<And>a j. act \<noteq> A_MarkOpened a j" "\<And>ev. act \<noteq> A_Return ev"
  shows "filter (life_event b) (s_log s') = filter (life_event b) (s_log s) \<and> told s' b = told s b"
proof (cases act)
  case (A_Dispatch a d)
  with assms show ?thesis by (cases d) (auto simp: section_defs told_upd split: local_splits)
qed (use assms in \<open>auto simp: section_defs told_upd told_new obj_upd elim!: sendApp_heap split: local_splits\<close>)

lemma after_send_returns: "A_Return ev \<in> set (after_send k e) \<Longrightarrow> \<not> life_event a ev"
  by (cases k) (auto split: option.splits)

lemma Serve_returns: "A_Return ev \<in> set (Serve reg res) \<Longrightarrow> \<not> life_event a ev"
  using Serve_acts by fastforce

lemma exec_returns:
  assumes "exec reg i act s = Some (s', k, new)" and "A_Return ev \<in># mset k + pool new"
  shows "\<not> life_event a ev"
proof (cases act)
  case (A_Dispatch b d)
  with assms show ?thesis by (cases d) (auto simp: section_defs split: local_splits)
qed (use assms in \<open>auto simp: section_defs call_action_cases dest: after_send_returns Serve_returns split: local_splits\<close>)

lemma observer_exec:
  assumes "observer_inv s (add_mset act P)" and "table_inv s (add_mset act P)"
    and ex: "exec reg i act s = Some (s', k, new)"
  shows "observer_inv s' (P + mset k + pool new)"
proof -
  have addr: "\<forall>a. addr_of act = Some a \<longrightarrow> a < nstreams s"
    using assms(2) by (simp add: table_inv_def)
  have ret: "\<forall>ev. A_Return ev \<in># P + mset k + pool new \<longrightarrow> (\<forall>a. \<not> life_event a ev)"
    using assms(1) exec_returns [OF ex] by (auto simp: observer_inv_def)
  have log: "filter (life_event b) (s_log s) = told s b" for b
    using assms(1) by (simp add: observer_inv_def)
  have "filter (life_event b) (s_log s') = told s' b" for b
  proof -
    consider a where "act = A_Finish a" | a j where "act = A_MarkOpened a j" | ev where "act = A_Return ev"
      | "filter (life_event b) (s_log s') = filter (life_event b) (s_log s) \<and> told s' b = told s b"
      using exec_told [OF ex addr] by blast
    then show ?thesis
    proof cases
      case (1 a)
      then show ?thesis using ex addr log [of b] by (auto simp: finish_def Let_def told_def obj_upd split: if_splits)
    next
      case (2 a j)
      then show ?thesis using ex addr log [of b] by (auto simp: markOpened_def Let_def told_def obj_upd split: if_splits)
    next
      case (3 ev)
      then have "\<not> life_event b ev" using assms(1) by (auto simp: observer_inv_def)
      with 3 ex log show ?thesis by auto
    next
      case 4
      with log show ?thesis by simp
    qed
  qed
  with ret show ?thesis by (simp add: observer_inv_def)
qed

interpretation observer_si: session_invariant observer_inv table_inv
  by unfold_locales (erule table_si.holds, simp add: observer_inv_def told_def NewSession_def, erule (2) observer_exec,
    simp_all add: observer_inv_def)

end
