(* ===== verification/App_Flow.thy ===== *)
theory App_Flow
  imports App_Lifecycle
begin

text \<open>
  Flow control and accounting: the byte counters of a stream agree with its queues, the
  receive window with what is buffered, the ledger of the session with the streams and
  the releases under way. From this follow the memory bounds of a session, that its
  counters never wrap around, and that no channel is closed twice.
\<close>

section \<open>Counters of a stream\<close>

lemma unat_small: "n < 2 ^ LENGTH('a::len) \<Longrightarrow> unat (word_of_nat n :: 'a word) = n"
  by (simp add: unat_of_nat)

lemma unat_plus_small: "unat x + unat y < 2 ^ LENGTH('a::len) \<Longrightarrow> unat (x + y :: 'a word) = unat x + unat y"
  by (simp add: unat_word_ariths)

lemma unat_minus_small: "unat y \<le> unat (x :: 'a::len word) \<Longrightarrow> unat (x - y) = unat x - unat y"
  by (simp add: unat_sub word_le_nat_alt)

lemma unat_ucast64 [simp]: "unat (ucast (x :: uint32) :: uint64) = unat x"
  by transfer simp


definition sums :: "Stream \<Rightarrow> bool" where
  "sums st \<longleftrightarrow> unat (st_sendBytes st) = length (concat (st_sendQ st))
     \<and> unat (st_inBytes st) = length (concat (st_inQ st))
     \<and> [] \<notin> set (st_sendQ st) \<and> [] \<notin> set (st_inQ st)
     \<and> (\<not> st_accepting st \<longrightarrow> unat (st_rcvWindow st) + length (concat (st_inQ st)) = unat AppInitialWindow)"

definition bounded :: "Stream \<Rightarrow> bool" where
  "bounded st \<longleftrightarrow> st_sendBytes st \<le> AppMaxSendQueue \<and> st_sndCredit st \<le> AppMaxCredit
     \<and> unat (st_rcvWindow st) + unat (st_inBytes st) \<le> unat AppInitialWindow"

lemma boundedD:
  assumes "bounded st"
  shows "unat (st_sendBytes st) \<le> 0x100000" "unat (st_inBytes st) \<le> 0x40000" "unat (st_rcvWindow st) \<le> 0x40000"
  using assms by (auto simp: bounded_def word_le_nat_alt)

text \<open>Without the counters that an update leaves alone.\<close>

lemma sums_upd [simp]:
  "sums (st\<lparr>st_reset := b\<rparr>) = sums st" "sums (st\<lparr>st_resetErr := e\<rparr>) = sums st"
  "sums (st\<lparr>st_opening := b\<rparr>) = sums st" "sums (st\<lparr>st_ready := b\<rparr>) = sums st"
  "sums (st\<lparr>st_finished := b\<rparr>) = sums st" "sums (st\<lparr>st_ep := ep\<rparr>) = sums st"
  "sums (st\<lparr>st_sndCredit := c\<rparr>) = sums st" "sums (st\<lparr>st_acceptMeta := m\<rparr>) = sums st"
  "sums (st\<lparr>st_openErr := e\<rparr>) = sums st" "sums (st\<lparr>st_opened := b\<rparr>) = sums st"
  "sums (st\<lparr>st_localClosed := b\<rparr>) = sums st" "sums (st\<lparr>st_remoteClosed := b\<rparr>) = sums st"
  "sums (st\<lparr>st_closeAfterFlush := b\<rparr>) = sums st" "sums (st\<lparr>st_epoch := n\<rparr>) = sums st"
  by (simp_all add: sums_def)

lemma bounded_upd [simp]:
  "bounded (st\<lparr>st_reset := b\<rparr>) = bounded st" "bounded (st\<lparr>st_resetErr := e\<rparr>) = bounded st"
  "bounded (st\<lparr>st_opening := b\<rparr>) = bounded st" "bounded (st\<lparr>st_ready := b\<rparr>) = bounded st"
  "bounded (st\<lparr>st_finished := b\<rparr>) = bounded st" "bounded (st\<lparr>st_ep := ep\<rparr>) = bounded st"
  "bounded (st\<lparr>st_acceptMeta := m\<rparr>) = bounded st" "bounded (st\<lparr>st_accepting := b\<rparr>) = bounded st"
  "bounded (st\<lparr>st_openErr := e\<rparr>) = bounded st" "bounded (st\<lparr>st_opened := b\<rparr>) = bounded st"
  "bounded (st\<lparr>st_localClosed := b\<rparr>) = bounded st" "bounded (st\<lparr>st_remoteClosed := b\<rparr>) = bounded st"
  "bounded (st\<lparr>st_closeAfterFlush := b\<rparr>) = bounded st" "bounded (st\<lparr>st_epoch := n\<rparr>) = bounded st"
  by (simp_all add: bounded_def)

text \<open>The section of the write loop.\<close>

lemma sums_sendQ:
  assumes "sums st" and "bounded st" and "st_sendQ st \<noteq> []"
  shows "length (hd (st_sendQ st)) \<le> unat (st_sendBytes st)" "length (hd (st_sendQ st)) \<le> 0x100000" "hd (st_sendQ st) \<noteq> []"
proof -
  show 1: "length (hd (st_sendQ st)) \<le> unat (st_sendBytes st)"
    using assms by (cases "st_sendQ st") (auto simp: sums_def)
  show "length (hd (st_sendQ st)) \<le> 0x100000"
    using 1 boundedD(1) [OF assms(2)] by simp
  show "hd (st_sendQ st) \<noteq> []"
    using assms by (cases "st_sendQ st") (auto simp: sums_def)
qed

lemma chunk_len_le:
  assumes "length (hd (st_sendQ st)) \<le> 0x100000"
  shows "unat (chunk_len st) = min (min (length (hd (st_sendQ st))) (unat (st_sndCredit st))) AppMaxDataBytes"
proof -
  have "unat (word_of_nat (length (hd (st_sendQ st))) :: uint32) = length (hd (st_sendQ st))"
    using assms by (simp add: unat_small)
  then show ?thesis
    by (auto simp: chunk_len_def Let_def word_less_nat_alt min_def)
qed

lemma take_chunk_ok:
  assumes "sums st" and "bounded st" and "st_sendQ st \<noteq> []"
  shows take_chunk_bytes: "unat (st_sendBytes (take_chunk st)) + unat (chunk_len st) = unat (st_sendBytes st)"
    and take_chunk_queue:
      "take (unat (chunk_len st)) (hd (st_sendQ st)) @ concat (st_sendQ (take_chunk st)) = concat (st_sendQ st)"
    and take_chunk_bounded: "bounded (take_chunk st)"
    and take_chunk_sums: "sums (take_chunk st)"
proof -
  obtain c q where Q: "st_sendQ st = c # q"
    using assms(3) by (cases "st_sendQ st") auto
  define n where "n = unat (chunk_len st)"
  note len = sums_sendQ [OF assms]
  have n: "n = min (min (length c) (unat (st_sndCredit st))) AppMaxDataBytes"
    using chunk_len_le [OF len(2)] Q by (simp add: n_def)
  have eq: "(word_of_nat (length c) :: uint32) = chunk_len st \<longleftrightarrow> length c = n"
    using len(2) Q unat_small [where 'a=32, of "length c"] by (auto simp: n_def word_unat_eq_iff)
  show 1: "unat (st_sendBytes (take_chunk st)) + unat (chunk_len st) = unat (st_sendBytes st)"
    using len(1) n Q by (simp add: take_chunk_def Let_def unat_minus_small n_def [symmetric])
  show 2: "take (unat (chunk_len st)) (hd (st_sendQ st)) @ concat (st_sendQ (take_chunk st)) = concat (st_sendQ st)"
    using Q eq by (auto simp: take_chunk_def Let_def n_def [symmetric])
  show "bounded (take_chunk st)"
    using assms(2) 1 n by (auto simp: bounded_def word_le_nat_alt take_chunk_def Let_def unat_minus_small n_def [symmetric])
  have "length (concat (st_sendQ (take_chunk st))) + n = length (concat (st_sendQ st))"
    using arg_cong [OF 2, of length] Q n by (simp add: n_def [symmetric])
  moreover have "[] \<notin> set (st_sendQ (take_chunk st))"
    using assms(1) Q eq n by (auto simp: take_chunk_def Let_def sums_def n_def [symmetric])
  ultimately show "sums (take_chunk st)"
    using assms(1) 1 by (simp add: sums_def n_def)
qed

text \<open>The sections of \<open>Write\<close>, \<open>Read\<close> and \<open>deliver\<close>.\<close>

lemma unat_Write:
  "bounded st \<Longrightarrow> length p < 2 ^ 63 \<Longrightarrow>
    unat (st_sendBytes st + word_of_nat (length p)) = unat (st_sendBytes st) + length p"
  using boundedD(1) [of st] by (subst unat_plus_small) (simp_all add: unat_small)

lemma Write_ok:
  assumes "bounded st" and "length p < 2 ^ 63" and "\<not> st_sendBytes st + word_of_nat (length p) > AppMaxSendQueue"
  shows Write_bounded: "bounded (st\<lparr>st_sendQ := st_sendQ st @ [p], st_sendBytes := st_sendBytes st + word_of_nat (length p)\<rparr>)"
    and Write_sums: "sums st \<Longrightarrow> p \<noteq> [] \<Longrightarrow>
      sums (st\<lparr>st_sendQ := st_sendQ st @ [p], st_sendBytes := st_sendBytes st + word_of_nat (length p)\<rparr>)"
  using assms unat_Write [OF assms(1,2)] by (auto simp: bounded_def sums_def)

lemma sums_inQ:
  assumes "sums st" and "bounded st" and "st_inQ st \<noteq> []"
  shows "length (hd (st_inQ st)) \<le> unat (st_inBytes st)" "length (hd (st_inQ st)) \<le> 0x40000" "hd (st_inQ st) \<noteq> []"
proof -
  show 1: "length (hd (st_inQ st)) \<le> unat (st_inBytes st)"
    using assms by (cases "st_inQ st") (auto simp: sums_def)
  show "length (hd (st_inQ st)) \<le> 0x40000"
    using 1 boundedD(2) [OF assms(2)] by simp
  show "hd (st_inQ st) \<noteq> []"
    using assms by (cases "st_inQ st") (auto simp: sums_def)
qed

lemma read_upd_ok:
  fixes sz :: nat
  assumes "sums st" and "bounded st" and "st_inQ st \<noteq> []"
  defines "n \<equiv> min sz (length (hd (st_inQ st)))"
  shows read_upd_bytes: "unat (st_inBytes (read_upd sz st)) + n = unat (st_inBytes st)"
    and read_upd_window: "unat (st_rcvWindow (read_upd sz st)) = unat (st_rcvWindow st) + n"
    and read_upd_queue: "take n (hd (st_inQ st)) @ concat (st_inQ (read_upd sz st)) = concat (st_inQ st)"
    and read_upd_bounded: "bounded (read_upd sz st)"
    and read_upd_sums: "sums (read_upd sz st)"
proof -
  obtain c q where Q: "st_inQ st = c # q"
    using assms(3) by (cases "st_inQ st") auto
  note len = sums_inQ [OF assms(1-3)]
  have n: "n \<le> unat (st_inBytes st)" "n \<le> 0x40000"
    using len by (simp_all add: n_def)
  show 1: "unat (st_inBytes (read_upd sz st)) + n = unat (st_inBytes st)"
    using n by (simp add: read_upd_def Let_def n_def [symmetric] unat_minus_small unat_small)
  show 2: "unat (st_rcvWindow (read_upd sz st)) = unat (st_rcvWindow st) + n"
    using n boundedD(3) [OF assms(2)]
    by (simp add: read_upd_def Let_def n_def [symmetric] unat_plus_small unat_small)
  show 3: "take n (hd (st_inQ st)) @ concat (st_inQ (read_upd sz st)) = concat (st_inQ st)"
    using Q by (auto simp: read_upd_def Let_def n_def)
  show "bounded (read_upd sz st)"
    using assms(2) 1 2 by (auto simp: bounded_def)
  have "length (concat (st_inQ (read_upd sz st))) + n = length (concat (st_inQ st))"
    using arg_cong [OF 3, of length] by (simp add: n_def)
  moreover have "[] \<notin> set (st_inQ (read_upd sz st))"
    using assms(1) Q by (auto simp: read_upd_def Let_def sums_def)
  ultimately show "sums (read_upd sz st)"
    using assms(1) 1 2 by (auto simp: sums_def)
qed

lemma deliver_ok:
  assumes "bounded st" and "length data \<le> AppMaxDataBytes" and "\<not> (word_of_nat (length data) :: uint32) > st_rcvWindow st"
  defines "st' \<equiv> st\<lparr>st_rcvWindow := st_rcvWindow st - word_of_nat (length data), st_inQ := st_inQ st @ [data],
                    st_inBytes := st_inBytes st + word_of_nat (length data)\<rparr>"
  shows deliver_bytes: "unat (st_inBytes st + word_of_nat (length data)) = unat (st_inBytes st) + length data"
    and deliver_bounded: "bounded st'"
    and deliver_sums: "sums st \<Longrightarrow> data \<noteq> [] \<Longrightarrow> sums st'"
proof -
  have len: "unat (word_of_nat (length data) :: uint32) = length data" "unat (word_of_nat (length data) :: uint64) = length data"
    using assms(2) by (simp_all add: unat_small)
  show 1: "unat (st_inBytes st + word_of_nat (length data)) = unat (st_inBytes st) + length data"
    using len assms(2) boundedD(2) [OF assms(1)] by (subst unat_plus_small) simp_all
  have 2: "length data \<le> unat (st_rcvWindow st)"
    using assms(3) len by (simp add: word_less_nat_alt)
  then have 3: "unat (st_rcvWindow st - word_of_nat (length data)) = unat (st_rcvWindow st) - length data"
    using len by (simp add: unat_minus_small)
  show "bounded st'"
    using assms(1) 1 2 3 by (auto simp: bounded_def st'_def)
  show "sums st'" if "sums st" "data \<noteq> []"
    using that 1 2 3 by (auto simp: sums_def st'_def)
qed

section \<open>Flow control of a stream\<close>

definition unused :: "Stream \<Rightarrow> bool" where
  "unused st \<longleftrightarrow> st_sendQ st = [] \<and> st_inQ st = [] \<and> st_sendBytes st = 0 \<and> st_inBytes st = 0"

lemma unused_upd [simp]:
  "unused (st\<lparr>st_reset := b\<rparr>) = unused st" "unused (st\<lparr>st_resetErr := e\<rparr>) = unused st"
  "unused (st\<lparr>st_opening := b\<rparr>) = unused st" "unused (st\<lparr>st_ready := b\<rparr>) = unused st"
  "unused (st\<lparr>st_finished := b\<rparr>) = unused st" "unused (st\<lparr>st_ep := ep\<rparr>) = unused st"
  "unused (st\<lparr>st_sndCredit := c\<rparr>) = unused st" "unused (st\<lparr>st_rcvWindow := c\<rparr>) = unused st"
  "unused (st\<lparr>st_acceptMeta := m\<rparr>) = unused st" "unused (st\<lparr>st_accepting := b\<rparr>) = unused st"
  "unused (st\<lparr>st_openErr := e\<rparr>) = unused st" "unused (st\<lparr>st_opened := b\<rparr>) = unused st"
  "unused (st\<lparr>st_localClosed := b\<rparr>) = unused st" "unused (st\<lparr>st_remoteClosed := b\<rparr>) = unused st"
  "unused (st\<lparr>st_closeAfterFlush := b\<rparr>) = unused st" "unused (st\<lparr>st_epoch := n\<rparr>) = unused st"
  by (simp_all add: unused_def)

lemma accept_sums:
  assumes "unused st" and "bounded st"
  shows "sums (st\<lparr>st_accepting := False, st_sndCredit := AppInitialWindow, st_rcvWindow := AppInitialWindow\<rparr>)"
    "bounded (st\<lparr>st_accepting := False, st_sndCredit := AppInitialWindow, st_rcvWindow := AppInitialWindow\<rparr>)"
  using assms by (simp_all add: unused_def sums_def bounded_def)

lemma bounded_credit: "bounded st \<Longrightarrow> \<not> c > AppMaxCredit \<Longrightarrow> bounded (st\<lparr>st_sndCredit := c\<rparr>)"
  by (simp add: bounded_def)

lemma detach_counters:
  "bounded st \<Longrightarrow> bounded (st\<lparr>st_sendBytes := 0, st_inBytes := 0\<rparr>)"
  "unused st \<Longrightarrow> unused (st\<lparr>st_sendBytes := 0, st_inBytes := 0\<rparr>)"
  "sums st \<Longrightarrow> closed_both st \<Longrightarrow> sums (st\<lparr>st_sendBytes := 0, st_inBytes := 0\<rparr>)"
  by (auto simp: bounded_def unused_def sums_def closed_both_def)

text \<open>
  Before its open is decided a stream has no data. As long as someone holds a stream that was
  not reset, its counters and its window agree with its queues.
\<close>

definition flow_ok :: "Stream \<Rightarrow> action multiset \<Rightarrow> nat \<Rightarrow> bool" where
  "flow_ok st P a \<longleftrightarrow>
     (st_accepting st \<or> st_opening st \<longrightarrow> unused st) \<and> bounded st
     \<and> (live a P = 0 \<or> st_reset st \<or> st_openErr st \<noteq> None \<or> sums st)"

text \<open>The slices given to \<open>Write\<close> are shorter than 2 to the 63 bytes.\<close>

definition writes_inv :: "Session \<Rightarrow> action multiset \<Rightarrow> bool" where
  "writes_inv s P \<longleftrightarrow> (\<forall>a p. A_Write a p \<in># P \<longrightarrow> length p < 2 ^ 63)"

lemma handleFrame_no_write: "(acts, e) = handleFrame reg f \<Longrightarrow> A_Write a p \<notin> set acts"
  by (auto simp: handleFrame_def split: if_splits sum.splits prod.splits message.splits)

lemma Serve_no_write: "A_Write a p \<notin> set (Serve reg res)"
  by (auto simp: Serve_def handleFrame_no_write split: sum.splits prod.splits option.splits)

lemma after_send_no_write: "A_Write a p \<notin> set (after_send k e)"
  by (cases k) (auto split: option.splits)

lemma exec_writes:
  assumes "exec reg i act s = Some (s', k, new)" and "A_Write a p \<in># mset k + pool new"
  shows "length p < 2 ^ 63"
proof (cases act)
  case (A_Dispatch b d)
  with assms show ?thesis by (cases d) (auto simp: section_defs split: local_splits)
qed (use assms in \<open>auto simp: section_defs call_action_cases after_send_no_write Serve_no_write split: local_splits\<close>)

interpretation writes_si: session_invariant writes_inv "\<lambda>s P. True"
  by unfold_locales (use exec_writes in \<open>auto simp: writes_inv_def\<close>)

definition flow_prior :: "Session \<Rightarrow> action multiset \<Rightarrow> bool" where
  "flow_prior s P \<longleftrightarrow> hold_inv s P \<and> writes_inv s P \<and> (\<forall>a < nstreams s. det_ok (obj s a) P a)"

lemma flow_prior_reachable: "reachable reg (s, ts) \<Longrightarrow> flow_prior s (pool ts)"
  using hold_inv_reachable writes_si.holds det_si.holds by (simp add: flow_prior_def)

lemma flow_ok_local:
  assumes "flow_ok (obj s a) (add_mset act P) a" and "addr_of act = Some a" and "a < nstreams s"
    and "exec reg i act s = Some (s', k, new)"
    and "token_ok (obj s a) (add_mset act P) a" "expo_ok (obj s a) (add_mset act P) a" "det_ok (obj s a) (add_mset act P) a"
    and "\<And>p. act = A_Write a p \<Longrightarrow> length p < 2 ^ 63"
  shows "flow_ok (obj s' a) (P + mset k + pool new) a"
proof (cases act)
  case (A_Send m j)
  with assms show ?thesis
    by (cases j) (auto simp: local_defs elim!: sendApp_heap split: local_splits, simp_all add: flow_ok_def)
next
  case (A_Dispatch b d)
  with assms show ?thesis
    by (cases d) (auto simp: local_defs split: local_splits, simp_all add: flow_ok_def bounded_credit deliver_ok, auto simp: deliver_ok)
next
  case (A_AcceptOpen b meta)
  with assms show ?thesis
    by (auto simp: local_defs split: local_splits, simp_all add: flow_ok_def token_ok_def accept_sums [simplified])
next
  case (A_DetachBytes b)
  with assms show ?thesis
    by (auto simp: local_defs split: local_splits, simp_all add: flow_ok_def det_ok_def gone_def detach_counters, auto simp: detach_counters)
next
  case (A_Write b p)
  with assms show ?thesis
    by (auto simp: local_defs split: local_splits, simp_all add: flow_ok_def expo_ok_def Write_ok)
next
  case (A_Read b n)
  with assms show ?thesis
    by (auto simp: local_defs split: local_splits, simp_all add: flow_ok_def expo_ok_def read_upd_ok)
next
  case (A_WriteLoop b)
  with assms show ?thesis
    by (auto simp: local_defs split: local_splits, simp_all add: flow_ok_def expo_ok_def take_chunk_ok)
qed (use assms in \<open>auto simp: local_defs split: local_splits, simp_all add: flow_ok_def\<close>)

interpretation flow_si: stream_invariant flow_ok flow_prior
  by unfold_locales
    (erule flow_prior_reachable, simp add: flow_prior_def hold_inv_def, simp add: flow_ok_def cnt_facts,
     simp add: flow_ok_def cnt_facts, simp add: flow_ok_def cnt_facts unused_def bounded_def sums_def,
     simp add: flow_ok_def cnt_facts unused_def bounded_def sums_def,
     rule flow_ok_local, auto simp: flow_prior_def hold_inv_def writes_inv_def)

section \<open>The ledger\<close>

definition held :: "Stream \<Rightarrow> nat" where
  "held st = unat (st_sendBytes st) + unat (st_inBytes st)"

definition total :: "Session \<Rightarrow> nat" where
  "total s = sum_list (map held (s_heap s))"

fun release_of :: "action \<Rightarrow> nat" where
  "release_of (A_Release n) = unat n"
| "release_of _ = 0"

definition releases :: "action multiset \<Rightarrow> nat" where
  "releases P = sum_mset (image_mset release_of P)"

lemma releases_simps [simp]:
  "releases {#} = 0" "releases (add_mset x P) = release_of x + releases P" "releases (P + R) = releases P + releases R"
  by (simp_all add: releases_def)

lemma total_simps [simp]:
  "total (log_event e s) = total s" "total (s\<lparr>s_wr := w\<rparr>) = total s" "total (s\<lparr>s_streams := m\<rparr>) = total s"
  "total (s\<lparr>s_nextID := i\<rparr>) = total s" "total (s\<lparr>s_closed := c\<rparr>) = total s" "total (s\<lparr>s_closeCh := c\<rparr>) = total s"
  "total (s\<lparr>s_buffered := n\<rparr>) = total s" "total (s\<lparr>s_wg := j\<rparr>) = total s" "total (s\<lparr>s_panic := c\<rparr>) = total s"
  "total (s\<lparr>s_heap := s_heap s @ [st]\<rparr>) = total s + held st"
  by (simp_all add: total_def log_event_def)

lemma total_upd:
  assumes "a < nstreams s"
  shows "total (upd a f s) + held (obj s a) = total s + held (f (obj s a))"
proof -
  have "s_heap s = take a (s_heap s) @ obj s a # drop (Suc a) (s_heap s)"
    using assms by (simp add: obj_def id_take_nth_drop)
  then have "total s = sum_list (map held (take a (s_heap s))) + held (obj s a) + sum_list (map held (drop (Suc a) (s_heap s)))"
    unfolding total_def by (metis (no_types, lifting) add.assoc list.simps(9) map_append sum_list.Cons sum_list_append)
  moreover have "total (upd a f s)
      = sum_list (map held (take a (s_heap s))) + held (f (obj s a)) + sum_list (map held (drop (Suc a) (s_heap s)))"
    using assms by (simp add: total_def upd_def obj_def upd_conv_take_nth_drop)
  ultimately show ?thesis by simp
qed

lemma total_upd_same: "a < nstreams s \<Longrightarrow> held (f (obj s a)) = held (obj s a) \<Longrightarrow> total (upd a f s) = total s"
  using total_upd [of a s f] by simp

lemma release_of_resets [simp]: "releases (image_mset (\<lambda>(sid, a). A_SetReset a c m) (mset xs)) = 0"
  by (induction xs) auto

lemma handleFrame_releases: "(acts, e) = handleFrame reg f \<Longrightarrow> releases (mset acts) = 0 \<and> A_ZeroBuffered \<notin> set acts"
  by (auto simp: handleFrame_def split: if_splits sum.splits prod.splits message.splits)

lemma Serve_releases [simp]: "releases (mset (Serve reg res)) = 0" "A_ZeroBuffered \<notin> set (Serve reg res)"
  by (auto simp: Serve_def dest!: handleFrame_releases handleFrame_releases [OF sym] split: sum.splits prod.splits option.splits)

lemma after_send_releases [simp]: "releases (mset (after_send k e)) = 0" "A_ZeroBuffered \<notin> set (after_send k e)"
  by (cases k; auto split: option.splits)+

definition counts_bytes :: "action \<Rightarrow> bool" where
  "counts_bytes act \<longleftrightarrow>
     (case act of A_WriteLoop a \<Rightarrow> True | A_Write a p \<Rightarrow> True | A_Read a n \<Rightarrow> True | A_DetachBytes a \<Rightarrow> True
      | A_Dispatch a d \<Rightarrow> True | A_Release n \<Rightarrow> True | A_ZeroBuffered \<Rightarrow> True | A_Fail e \<Rightarrow> True | _ \<Rightarrow> False)"

lemma exec_no_bytes:
  assumes "exec reg i act s = Some (s', k, new)" and "\<forall>a. addr_of act = Some a \<longrightarrow> a < nstreams s"
    and "\<not> counts_bytes act"
  shows "total s' = total s \<and> s_buffered s' = s_buffered s \<and> s_closed s' = s_closed s \<and> releases (mset k + pool new) = 0
    \<and> A_ZeroBuffered \<notin># mset k + pool new"
  using assms
  by (cases act)
    (auto simp: section_defs call_action_cases counts_bytes_def total_upd_same held_def elim!: sendApp_heap split: local_splits)

definition ledger_inv :: "Session \<Rightarrow> action multiset \<Rightarrow> bool" where
  "ledger_inv s P \<longleftrightarrow> s_buffered s \<le> AppMaxBuffered \<and> (\<not> s_closed s \<longrightarrow> unat (s_buffered s) = total s + releases P)
     \<and> (A_ZeroBuffered \<in># P \<longrightarrow> s_closed s)"

definition ledger_prior :: "Session \<Rightarrow> action multiset \<Rightarrow> bool" where
  "ledger_prior s P \<longleftrightarrow> flow_prior s P \<and> (\<forall>a < nstreams s. flow_ok (obj s a) P a)"

lemma ledger_prior_reachable: "reachable reg (s, ts) \<Longrightarrow> ledger_prior s (pool ts)"
  using flow_prior_reachable flow_si.holds by (simp add: ledger_prior_def)

lemma reserve_ok:
  assumes "s_buffered s \<le> AppMaxBuffered" and "n < 2 ^ 63" and "\<not> s_buffered s + word_of_nat n > AppMaxBuffered"
  shows "unat (s_buffered s + word_of_nat n) = unat (s_buffered s) + n" "s_buffered s + word_of_nat n \<le> AppMaxBuffered"
proof -
  have "unat (s_buffered s) \<le> 0x800000"
    using assms(1) by (simp add: word_le_nat_alt)
  then show "unat (s_buffered s + word_of_nat n) = unat (s_buffered s) + n"
    using assms(2) by (subst unat_plus_small) (simp_all add: unat_small)
  show "s_buffered s + word_of_nat n \<le> AppMaxBuffered"
    using assms(3) by simp
qed

lemma ledger_log [simp]: "ledger_inv (log_event e s) P = ledger_inv s P"
  by (simp add: ledger_inv_def)

lemma ledger_update:
  assumes "ledger_inv s (add_mset act P)" and "release_of act = 0" and "a < nstreams s"
    and "b \<le> AppMaxBuffered" and "A_ZeroBuffered \<notin> set k"
    and "unat b + held (obj s a) = unat (s_buffered s) + held (f (obj s a)) + releases (mset k)"
  shows "ledger_inv (upd a f (s\<lparr>s_buffered := b\<rparr>)) (P + mset k)"
proof -
  have "total (upd a f (s\<lparr>s_buffered := b\<rparr>)) + held (obj s a) = total s + held (f (obj s a))"
    using total_upd [of a "s\<lparr>s_buffered := b\<rparr>" f] assms(3) by simp
  then show ?thesis
    using assms by (auto simp: ledger_inv_def)
qed

lemma ledger_same_buffer:
  assumes "ledger_inv s (add_mset act P)" and "release_of act = 0" and "a < nstreams s"
    and "A_ZeroBuffered \<notin> set k" and "held (obj s a) = held (f (obj s a)) + releases (mset k)"
  shows "ledger_inv (upd a f s) (P + mset k)"
  using ledger_update [OF assms(1-3) _ assms(4), of "s_buffered s" f] assms(1,5) by (simp add: ledger_inv_def)

lemma ledger_nothing:
  assumes "ledger_inv s (add_mset act P)" and "release_of act = 0" and "releases (mset k) = 0" and "A_ZeroBuffered \<notin> set k"
  shows "ledger_inv s (P + mset k)"
  using assms by (auto simp: ledger_inv_def)

lemma held_detach:
  assumes "bounded st"
  shows "unat (st_sendBytes st + st_inBytes st) = held st"
  using boundedD [OF assms] by (simp add: held_def unat_plus_small)

lemma exposed_sums:
  assumes "flow_ok st (add_mset act P) a" and "expo_ok st (add_mset act P) a" and "expo_of act = Some a" and "\<not> st_reset st"
  shows "sums st" "bounded st"
  using assms by (auto simp: flow_ok_def expo_ok_def)

lemma ledger_detachBytes:
  assumes "ledger_inv s (add_mset (A_DetachBytes a) P)" and "a < nstreams s" and "bounded (obj s a)"
    and "detachBytes a s = (s', k, new)"
  shows "ledger_inv s' (P + mset k + pool new)"
  using assms ledger_same_buffer [OF assms(1) _ assms(2), of k] held_detach [OF assms(3)]
  by (auto simp: detachBytes_def Let_def held_def word_gt_0 unat_eq_0 split: if_splits)

lemma ledger_writeLoop:
  assumes "ledger_inv s (add_mset (A_WriteLoop a) P)" and "a < nstreams s" and "writeLoop a s = (s', k, new)"
    and "\<not> st_reset (obj s a) \<Longrightarrow> sums (obj s a) \<and> bounded (obj s a)"
  shows "ledger_inv s' (P + mset k + pool new)"
proof -
  show ?thesis
    using assms(3) ledger_same_buffer [OF assms(1) _ assms(2), of k] ledger_nothing [OF assms(1), of k] assms(4)
      take_chunk_bytes [of "obj s a"]
    by (auto simp: writeLoop_def Let_def held_def split: if_splits)
qed

lemma ledger_Read:
  assumes "ledger_inv s (add_mset (A_Read a n) P)" and "a < nstreams s" and "Read a n s = (s', k, new)"
    and "\<not> st_reset (obj s a) \<Longrightarrow> sums (obj s a) \<and> bounded (obj s a)"
  shows "ledger_inv s' (P + mset k + pool new)"
proof -
  show ?thesis
    using assms(3) ledger_same_buffer [OF assms(1) _ assms(2), of k "read_upd n"] ledger_nothing [OF assms(1), of k] assms(4)
      read_upd_bytes [of "obj s a" n] sums_inQ [of "obj s a"]
    by (auto simp: Read_def Let_def held_def unat_small split: if_splits)
qed

lemma ledger_reserve:
  assumes "ledger_inv s (add_mset act P)" and "release_of act = 0" and "a < nstreams s" and "n < 2 ^ 63"
    and "\<not> s_buffered s + word_of_nat n > AppMaxBuffered" and "held (f (obj s a)) = held (obj s a) + n"
  shows "ledger_inv (upd a f (s\<lparr>s_buffered := s_buffered s + word_of_nat n\<rparr>)) P"
  using ledger_update [OF assms(1-3), of "s_buffered s + word_of_nat n" "[]" f] reserve_ok [OF _ assms(4,5)] assms(1,6)
  by (simp add: ledger_inv_def)

lemma ledger_Write:
  assumes "ledger_inv s (add_mset (A_Write a p) P)" and "a < nstreams s" and "Write a p s = (s', k, new)"
    and "bounded (obj s a)" and "length p < 2 ^ 63"
  shows "ledger_inv s' (P + mset k + pool new)"
  using assms(3) ledger_nothing [OF assms(1), of k] ledger_nothing [OF assms(1), of "[]"]
    ledger_reserve [OF assms(1) _ assms(2,5)] unat_Write [OF assms(4,5)]
  by (auto simp: Write_def Let_def resetRemote_def reserveBuffer_def held_def split: if_splits)

lemma ledger_deliver:
  assumes "ledger_inv s (add_mset (A_Dispatch a (D_Data data)) P)" and "a < nstreams s" and "deliver a data s = (s', k, new)"
    and "bounded (obj s a)"
  shows "ledger_inv s' (P + mset k + pool new)"
  using assms(3) ledger_nothing [OF assms(1), of k] ledger_reserve [OF assms(1) _ assms(2), of "length data"]
    deliver_bytes [OF assms(4)]
  by (auto simp: deliver_def Let_def resetRemote_def reserveBuffer_def held_def split: if_splits)

lemma ledger_dispatch:
  assumes "ledger_inv s (add_mset (A_Dispatch a d) P)" and "a < nstreams s" and "on_stream a d s = (s', k, new)"
    and "bounded (obj s a)"
  shows "ledger_inv s' (P + mset k + pool new)"
proof (cases d)
  case (D_Data data)
  with assms ledger_deliver show ?thesis by (simp add: on_stream_def)
qed (use assms(3) ledger_nothing [OF assms(1), of k] ledger_same_buffer [OF assms(1) _ assms(2), of k] in
  \<open>auto simp: section_defs held_def split: if_splits\<close>)

lemma ledger_exec:
  assumes led: "ledger_inv s (add_mset act P)" and prior: "ledger_prior s (add_mset act P)"
    and ex: "exec reg i act s = Some (s', k, new)"
  shows "ledger_inv s' (P + mset k + pool new)"
proof -
  have addr: "\<forall>a. addr_of act = Some a \<longrightarrow> a < nstreams s"
    using prior by (simp add: ledger_prior_def flow_prior_def hold_inv_def table_inv_def)
  have st: "flow_ok (obj s a) (add_mset act P) a" "expo_ok (obj s a) (add_mset act P) a" if "addr_of act = Some a" for a
    using prior addr that by (auto simp: ledger_prior_def flow_prior_def hold_inv_def)
  have bnd: "bounded (obj s a)" if "addr_of act = Some a" for a
    using st(1) [OF that] by (simp add: flow_ok_def)
  have p63: "length p < 2 ^ 63" if "act = A_Write a p" for a p
    using prior that by (auto simp: ledger_prior_def flow_prior_def writes_inv_def)
  show ?thesis
  proof (cases "counts_bytes act")
    case False
    with exec_no_bytes [OF ex addr] led show ?thesis
      by (cases act) (auto simp: ledger_inv_def counts_bytes_def)
  next
    case True
    then show ?thesis
    proof (cases act)
      case (A_Fail e)
      with led ex show ?thesis by (auto simp: ledger_inv_def fail_def split: if_splits)
    next
      case (A_Release n)
      with led ex show ?thesis
        by (auto simp: ledger_inv_def releaseBuffer_def unat_minus_small word_le_nat_alt split: if_splits)
    next
      case (A_WriteLoop a)
      then show ?thesis using led ex addr ledger_writeLoop exposed_sums [OF st] by simp
    next
      case (A_Read a n)
      then show ?thesis using led ex addr ledger_Read exposed_sums [OF st] by simp
    next
      case (A_Write a p)
      then show ?thesis using led ex addr ledger_Write bnd p63 by simp
    next
      case (A_DetachBytes a)
      then show ?thesis using led ex addr ledger_detachBytes bnd by simp
    next
      case (A_Dispatch a d)
      then show ?thesis using led ex addr ledger_dispatch bnd by simp
    qed (use led ex in \<open>auto simp: counts_bytes_def ledger_inv_def\<close>)
  qed
qed

interpretation ledger_si: session_invariant ledger_inv ledger_prior
  by unfold_locales (erule ledger_prior_reachable, simp add: ledger_inv_def NewSession_def total_def, erule (2) ledger_exec,
    simp_all add: ledger_inv_def)

end
