(* ===== verification/App_Teardown.thy ===== *)
theory App_Teardown
  imports App_Lifecycle
begin

text \<open>
  Stream IDs, and the end of a session: a stream that someone holds is in the table until
  it is reset, rejected or closed by both sides, so that failing the session reaches
  every holder and nobody stays blocked.
\<close>

section \<open>Stream IDs\<close>

lemma id_word:
  fixes x l :: uint32
  assumes "x \<le> maxLocalStreamID" and "l = 0 \<or> l = 0x80000000"
  shows "(l OR x) AND maxLocalStreamID = x" "(l OR x) AND 0x80000000 = l"
proof -
  have "unat (take_bit 31 x) = unat x"
    using assms(1) by (simp add: unsigned_take_bit_eq take_bit_nat_eq_self word_le_nat_alt)
  then have "take_bit 31 x = x"
    by (simp add: word_unat_eq_iff)
  then have x: "x AND maxLocalStreamID = x"
    by (simp add: take_bit_eq_mask mask_eq_exp_minus_1)
  then have "x AND 0x80000000 = (x AND maxLocalStreamID) AND 0x80000000"
    by simp
  also have "\<dots> = 0"
    by (simp only: and.assoc) simp
  finally have y: "x AND 0x80000000 = 0" .
  show "(l OR x) AND maxLocalStreamID = x" "(l OR x) AND 0x80000000 = l"
    using assms(2) x y by (auto simp: bit.conj_disj_distrib2)
qed

text \<open>
  A local stream has the initiator bit of this side and a number from 1 to
  \<open>s_nextID\<close> that no other local stream has; a remote stream has the bit of the
  other side.
\<close>

definition id_ok :: "Session \<Rightarrow> Stream \<Rightarrow> bool" where
  "id_ok s st \<longleftrightarrow>
     (if st_inbound st then st_id st \<noteq> 0 \<and> st_id st AND 0x80000000 = remoteBit s
      else st_id st AND 0x80000000 = localBit s \<and> 0 < st_id st AND maxLocalStreamID
           \<and> st_id st AND maxLocalStreamID \<le> s_nextID s)"

definition id_inv :: "Session \<Rightarrow> action multiset \<Rightarrow> bool" where
  "id_inv s P \<longleftrightarrow> (s_Role s = RoleHost \<or> s_Role s = RoleGuest) \<and> s_nextID s \<le> maxLocalStreamID
     \<and> (\<forall>a < nstreams s. id_ok s (obj s a))
     \<and> (\<forall>a < nstreams s. \<forall>b < nstreams s. \<not> st_inbound (obj s a) \<and> \<not> st_inbound (obj s b)
          \<and> st_id (obj s a) = st_id (obj s b) \<longrightarrow> a = b)"

lemma bits_cases:
  assumes "s_Role s = RoleHost \<or> s_Role s = RoleGuest"
  shows "(localBit s = 0 \<and> remoteBit s = 0x80000000) \<or> (localBit s = 0x80000000 \<and> remoteBit s = 0)"
  using assms by (auto simp: localBit_def remoteBit_def)

lemma exec_same_ids:
  assumes "exec reg i act s = Some (s', k, new)" and "\<And>m. act \<noteq> A_HandleOpen m" "\<And>service meta. act \<noteq> A_Open service meta"
  shows "nstreams s' = nstreams s \<and> s_nextID s' = s_nextID s"
  using assms by (cases act) (auto simp: section_defs elim!: sendApp_heap split: section_splits)

lemma id_inv_extends:
  assumes "id_inv s P" and "extends s s'" and "nstreams s' = nstreams s" and "s_nextID s' = s_nextID s"
  shows "id_inv s' P'"
proof -
  have bits: "localBit s' = localBit s" "remoteBit s' = remoteBit s"
    using assms(2) by (simp_all add: localBit_def remoteBit_def extends_def)
  show ?thesis
    using assms unfolding id_inv_def extends_def id_ok_def bits by auto
qed

lemma next_id:
  assumes "id_inv s P" and "\<not> s_nextID s \<ge> maxLocalStreamID"
  defines "sid \<equiv> localBit s OR (s_nextID s + 1)"
  shows "sid AND 0x80000000 = localBit s" "sid AND maxLocalStreamID = s_nextID s + 1" "s_nextID s < s_nextID s + 1"
    "s_nextID s + 1 \<le> maxLocalStreamID"
proof -
  have n: "s_nextID s < maxLocalStreamID"
    using assms(2) by simp
  then show 1: "s_nextID s < s_nextID s + 1" "s_nextID s + 1 \<le> maxLocalStreamID"
    by (simp_all add: word_less_nat_alt word_le_nat_alt unat_word_ariths)
  have "localBit s = 0 \<or> localBit s = 0x80000000"
    using bits_cases assms(1) by (auto simp: id_inv_def)
  from id_word [OF 1(2) this] show "sid AND 0x80000000 = localBit s" "sid AND maxLocalStreamID = s_nextID s + 1"
    by (simp_all add: sid_def)
qed

text \<open>The ID of a new local stream is not that of any stream of the session.\<close>

lemma next_id_fresh:
  assumes "id_inv s P" and "\<not> s_nextID s \<ge> maxLocalStreamID" and "a < nstreams s"
  shows "st_id (obj s a) \<noteq> localBit s OR (s_nextID s + 1)"
proof
  assume eq: "st_id (obj s a) = localBit s OR (s_nextID s + 1)"
  note nx = next_id [OF assms(1,2), folded eq]
  have ok: "id_ok s (obj s a)" and role: "s_Role s = RoleHost \<or> s_Role s = RoleGuest"
    using assms by (auto simp: id_inv_def)
  show False
  proof (cases "st_inbound (obj s a)")
    case True
    with ok nx(1) bits_cases [OF role] show False by (auto simp: id_ok_def)
  next
    case False
    with ok nx(2) have "s_nextID s + 1 \<le> s_nextID s" by (simp add: id_ok_def)
    with nx(3) show False using leD by blast
  qed
qed

lemma id_inv_open:
  assumes "id_inv s P" and "\<not> s_nextID s \<ge> maxLocalStreamID"
    and "st_id st = localBit s OR (s_nextID s + 1)" and "\<not> st_inbound st"
    and s': "nstreams s' = Suc (nstreams s)" "s_Role s' = s_Role s" "s_nextID s' = s_nextID s + 1"
      "obj s' (nstreams s) = st" "\<And>a. a < nstreams s \<Longrightarrow> obj s' a = obj s a"
  shows "id_inv s' P'"
proof -
  have bits: "localBit s' = localBit s" "remoteBit s' = remoteBit s"
    using s'(2) by (simp_all add: localBit_def remoteBit_def)
  note nx = next_id [OF assms(1,2)]
  have "id_ok s' (obj s' a)" if "a < nstreams s'" for a
  proof (cases "a = nstreams s")
    case True
    then show ?thesis
      using assms(3,4) nx s' by (simp add: id_ok_def bits word_greater_zero_iff) (metis word_not_simps(1))
  next
    case False
    then have "a < nstreams s" using that s'(1) by simp
    then have "id_ok s (obj s a)" using assms(1) by (simp add: id_inv_def)
    then show ?thesis
      using s' \<open>a < nstreams s\<close> nx(3) by (auto simp: id_ok_def bits)
  qed
  moreover have "a = b" if "a < nstreams s'" "b < nstreams s'" "\<not> st_inbound (obj s' a)" "\<not> st_inbound (obj s' b)"
    "st_id (obj s' a) = st_id (obj s' b)" for a b
  proof -
    have fresh: "st_id (obj s c) \<noteq> st_id st" if "c < nstreams s" for c
      using next_id_fresh [OF assms(1,2) that] assms(3) by simp
    show ?thesis
    proof (cases "a < nstreams s \<and> b < nstreams s")
      case True
      with that s'(5) assms(1) show ?thesis by (simp add: id_inv_def)
    next
      case False
      with that s'(1,4,5) fresh show ?thesis by (metis less_Suc_eq)
    qed
  qed
  ultimately show ?thesis
    using assms(1) nx(4) s'(2,3) by (simp add: id_inv_def)
qed

lemma id_inv_accept:
  assumes "id_inv s P" and "st_id st \<noteq> 0" and "st_id st AND 0x80000000 = remoteBit s" and "st_inbound st"
    and s': "nstreams s' = Suc (nstreams s)" "s_Role s' = s_Role s" "s_nextID s' = s_nextID s"
      "obj s' (nstreams s) = st" "\<And>a. a < nstreams s \<Longrightarrow> obj s' a = obj s a"
  shows "id_inv s' P'"
proof -
  have bits: "localBit s' = localBit s" "remoteBit s' = remoteBit s"
    using s'(2) by (simp_all add: localBit_def remoteBit_def)
  have "id_ok s' (obj s' a)" if "a < nstreams s'" for a
    using that assms by (cases "a = nstreams s") (auto simp: id_inv_def id_ok_def bits less_Suc_eq)
  then show ?thesis
    using assms by (simp add: id_inv_def less_Suc_eq)
qed

lemma id_inv_exec:
  assumes inv: "id_inv s (add_mset act P)" and tbl: "table_inv s (add_mset act P)"
    and ex: "exec reg i act s = Some (s', k, new)"
  shows "id_inv s' (P + mset k + pool new)"
proof -
  have ext: "extends s s'"
    using exec_extends [OF ex] tbl by (simp add: table_inv_def)
  consider m where "act = A_HandleOpen m" "nstreams s' \<noteq> nstreams s" | service meta where "act = A_Open service meta" "nstreams s' \<noteq> nstreams s"
    | "nstreams s' = nstreams s" "s_nextID s' = s_nextID s"
  proof (cases "(\<exists>m. act = A_HandleOpen m) \<or> (\<exists>service meta. act = A_Open service meta)")
    case True
    with ex that show thesis by (auto simp: handleOpen_def Open_def Let_def split: if_splits)
  next
    case False
    with exec_same_ids [OF ex] that(3) show thesis by blast
  qed
  then show ?thesis
  proof cases
    case (1 m)
    with ex show ?thesis
      by (auto simp: handleOpen_def Let_def split: if_splits intro!: id_inv_accept [OF inv])
  next
    case (2 service meta)
    with ex show ?thesis
      by (auto simp: Open_def Let_def split: if_splits intro!: id_inv_open [OF inv])
  next
    case 3
    with inv ext show ?thesis by (blast intro: id_inv_extends)
  qed
qed

interpretation id_si: session_invariant id_inv table_inv
  by unfold_locales (erule table_si.holds, simp add: id_inv_def NewSession_def, erule (2) id_inv_exec, simp_all add: id_inv_def)

section \<open>Who is in the table\<close>

text \<open>A stream that was reset, rejected or closed by both sides remains so.\<close>

lemma exec_gone:
  assumes "exec reg i act s = Some (s', k, new)" and "\<forall>a. addr_of act = Some a \<longrightarrow> a < nstreams s" and "b < nstreams s"
    and "gone (obj s b)"
  shows "gone (obj s' b)"
proof (cases "addr_of act = Some b")
  case False
  with assms exec_others show ?thesis by metis
next
  case True
  then show ?thesis
  proof (cases act)
    case (A_Dispatch a d)
    with assms True show ?thesis by (cases d) (auto simp: section_defs obj_upd gone_set gone_queues split: local_splits)
  qed (use assms in \<open>auto simp: section_defs obj_upd gone_set gone_queues elim!: sendApp_heap split: local_splits\<close>)
qed

text \<open>Only who holds a stream gives it to others.\<close>

lemma exec_live:
  assumes "exec reg i act s = Some (s', k, new)" and "\<forall>a. addr_of act = Some a \<longrightarrow> a < nstreams s" and "b < nstreams s"
    and "0 < live b (mset k + pool new)"
  shows "0 < live b {#act#}"
proof (cases "addr_of act = Some b")
  case False
  with assms exec_others [OF assms(1-3)] cnt_others show ?thesis by fastforce
next
  case True
  then show ?thesis
  proof (cases act)
    case (A_Send m j)
    with assms True show ?thesis by (cases j) (auto split: local_splits)
  next
    case (A_Dispatch a d)
    with assms True show ?thesis by (cases d) (auto simp: section_defs split: local_splits)
  qed (use assms in \<open>auto simp: section_defs call_action_cases split: local_splits\<close>)
qed

fun reset_of :: "action \<Rightarrow> nat option" where
  "reset_of (A_SetReset a c m) = Some a"
| "reset_of _ = None"

definition in_table :: "Session \<Rightarrow> nat \<Rightarrow> bool" where
  "in_table s a \<longleftrightarrow> map_of (s_streams s) (st_id (obj s a)) = Some a"

text \<open>A stream that someone holds is in the table, or it is gone, or its reset is on the way.\<close>

definition table_covers :: "Session \<Rightarrow> action multiset \<Rightarrow> bool" where
  "table_covers s P \<longleftrightarrow>
     (\<forall>a < nstreams s. 0 < live a P \<longrightarrow> gone (obj s a) \<or> 0 < cnt reset_of a P \<or> in_table s a)"

definition covers_prior :: "Session \<Rightarrow> action multiset \<Rightarrow> bool" where
  "covers_prior s P \<longleftrightarrow> hold_inv s P \<and> id_inv s P \<and> (\<forall>a < nstreams s. det_ok (obj s a) P a)"

lemma covers_prior_reachable: "reachable reg (s, ts) \<Longrightarrow> covers_prior s (pool ts)"
  using hold_inv_reachable id_si.holds det_si.holds by (simp add: covers_prior_def)

lemma fail_in_table:
  assumes "fail e s = (s', k, new)" and tab: "in_table s b"
  shows "0 < cnt reset_of b (mset k) \<or> in_table s' b"
proof -
  have "(st_id (obj s b), b) \<in> set (s_streams s)"
    using tab by (simp add: in_table_def map_of_SomeD)
  then have "A_SetReset b c m \<in># image_mset (\<lambda>(sid, a). A_SetReset a c m) (mset (s_streams s))" for c m
    by force
  then have "0 < cnt reset_of b (image_mset (\<lambda>(sid, a). A_SetReset a c m) (mset (s_streams s)))" for c m
    by (rule cnt_pos) simp
  with assms show ?thesis
    by (cases "s_closed s") (auto simp: fail_def)
qed

lemma detach_in_table: "detach a s = (s', k, new) \<Longrightarrow> a \<noteq> b \<Longrightarrow> in_table s b \<Longrightarrow> in_table s' b"
  by (auto simp: detach_def in_table_def AList.delete_conv' split: if_splits)

lemma handleOpen_in_table: "handleOpen m s = (s', k, new) \<Longrightarrow> b < nstreams s \<Longrightarrow> in_table s b \<Longrightarrow> in_table s' b"
  by (auto simp: handleOpen_def Let_def in_table_def update_conv' split: if_splits)

lemma Open_in_table:
  assumes "Open service meta s = (s', k, new)" and "id_inv s P" and b: "b < nstreams s" and "in_table s b"
  shows "in_table s' b"
  using assms(1,4) b next_id_fresh [OF assms(2) _ b]
  by (auto simp: Open_def Let_def in_table_def update_conv' split: if_splits)

lemma exec_in_table_old:
  assumes prior: "covers_prior s (add_mset act P)" and ex: "exec reg i act s = Some (s', k, new)"
    and b: "b < nstreams s" and live: "0 < live b (add_mset act P)" and tab: "in_table s b"
  shows "gone (obj s b) \<or> 0 < cnt reset_of b (mset k) \<or> in_table s' b"
proof -
  have addr: "\<forall>a. addr_of act = Some a \<longrightarrow> a < nstreams s"
    using prior by (simp add: covers_prior_def hold_inv_def table_inv_def)
  have same: "st_id (obj s' b) = st_id (obj s b)"
    using exec_extends [OF ex addr] b by (simp add: extends_def)
  have ids: "id_inv s (add_mset act P)" and det: "det_ok (obj s b) (add_mset act P) b"
    using prior b by (simp_all add: covers_prior_def)
  consider e where "act = A_Fail e" | a where "act = A_Detach a" | m where "act = A_HandleOpen m"
    | service meta where "act = A_Open service meta" | "s_streams s' = s_streams s"
    using exec_same_table [OF ex] by blast
  then show ?thesis
  proof cases
    case 1
    with ex have "fail e s = (s', k, new)" by simp
    from fail_in_table [OF this tab] show ?thesis by blast
  next
    case (2 a)
    show ?thesis
    proof (cases "a = b")
      case True
      have "gone (obj s b) \<or> live b (add_mset act P) = 0"
        using det by (rule det_ok_def [THEN iffD1, rule_format]) (simp add: True 2)
      then show ?thesis using live by (elim disjE) simp_all
    next
      case False
      from 2 ex have "detach a s = (s', k, new)" by simp
      from detach_in_table [OF this False tab] show ?thesis by blast
    qed
  next
    case (3 m)
    then show ?thesis using handleOpen_in_table [OF _ b tab] ex by simp
  next
    case (4 service meta)
    then show ?thesis using Open_in_table [OF _ ids b tab] ex by simp
  next
    case 5
    with same tab show ?thesis by (simp add: in_table_def)
  qed
qed

lemma exec_in_table_new:
  assumes "exec reg i act s = Some (s', k, new)" and "nstreams s < nstreams s'"
  shows "nstreams s' = Suc (nstreams s) \<and> in_table s' (nstreams s)"
proof -
  consider m where "act = A_HandleOpen m" | service meta where "act = A_Open service meta"
    using exec_same_ids [OF assms(1)] assms(2) by (cases act) auto
  then show ?thesis
    by cases (use assms in \<open>auto simp: handleOpen_def Open_def Let_def in_table_def update_conv' split: if_splits\<close>)
qed

lemma setReset_gone: "a < nstreams s \<Longrightarrow> exec reg i (A_SetReset a c m) s = Some (s', k, new) \<Longrightarrow> gone (obj s' a)"
  by (auto simp: setReset_def Let_def obj_upd gone_set split: if_splits) (simp add: gone_def)

lemma covers_exec:
  assumes inv: "table_covers s (add_mset act P)" and prior: "covers_prior s (add_mset act P)"
    and ex: "exec reg i act s = Some (s', k, new)"
  shows "table_covers s' (P + mset k + pool new)"
  unfolding table_covers_def
proof (intro allI impI)
  fix b assume b: "b < nstreams s'" and live: "0 < live b (P + mset k + pool new)"
  have addr: "\<forall>a. addr_of act = Some a \<longrightarrow> a < nstreams s"
    using prior by (simp add: covers_prior_def hold_inv_def table_inv_def)
  show "gone (obj s' b) \<or> 0 < cnt reset_of b (P + mset k + pool new) \<or> in_table s' b"
  proof (cases "b < nstreams s")
    case False
    with exec_in_table_new [OF ex] b have "b = nstreams s" by simp
    with exec_in_table_new [OF ex] b show ?thesis by simp
  next
    case True
    have old: "0 < live b (add_mset act P)"
      using live exec_live [OF ex addr True] by auto
    with inv True consider "gone (obj s b)" | "0 < cnt reset_of b (add_mset act P)" | "in_table s b"
      by (auto simp: table_covers_def)
    then show ?thesis
    proof cases
      case 1
      with exec_gone [OF ex addr True] show ?thesis by simp
    next
      case 2
      show ?thesis
      proof (cases "reset_of act = Some b")
        case 3: True
        then obtain c m where "act = A_SetReset b c m" by (auto elim: reset_of.elims)
        with ex setReset_gone [OF True] show ?thesis by blast
      qed (use 2 in simp)
    next
      case 3
      from exec_in_table_old [OF prior ex True old this] show ?thesis
        using exec_gone [OF ex addr True] by auto
    qed
  qed
qed

interpretation covers_si: session_invariant table_covers covers_prior
  by unfold_locales (erule covers_prior_reachable, simp add: table_covers_def NewSession_def, erule (2) covers_exec,
    simp_all add: table_covers_def)

section \<open>Waiting on the condition variable\<close>

text \<open>
  A goroutine that waits and was not woken has no reason to go on, except for a write loop
  whose stream was closed while its queue was empty: \<open>CloseWrite\<close> does not
  broadcast then.
\<close>

primrec idle :: "waiter \<Rightarrow> Stream \<Rightarrow> bool" where
  "idle Wait_Loop st \<longleftrightarrow> (st_sendQ st = [] \<or> st_sndCredit st = 0) \<and> (st_closeAfterFlush st \<and> st_sendQ st = [] \<longrightarrow> st_localClosed st)"
| "idle (Wait_Read sz) st \<longleftrightarrow> st_inQ st = [] \<and> \<not> st_remoteClosed st"

definition wait_ok :: "Stream \<Rightarrow> action multiset \<Rightarrow> nat \<Rightarrow> bool" where
  "wait_ok st P a \<longleftrightarrow>
     (\<forall>e w. A_CondWait a e w \<in># P \<longrightarrow> e < st_epoch st \<or> e = st_epoch st \<and> \<not> st_reset st \<and> idle w st)"

lemma idle_upd [simp]:
  "idle w (st\<lparr>st_opening := b\<rparr>) = idle w st" "idle w (st\<lparr>st_ready := b\<rparr>) = idle w st"
  "idle w (st\<lparr>st_finished := b\<rparr>) = idle w st" "idle w (st\<lparr>st_ep := ep\<rparr>) = idle w st"
  "idle w (st\<lparr>st_acceptMeta := m\<rparr>) = idle w st" "idle w (st\<lparr>st_openErr := x\<rparr>) = idle w st"
  "idle w (st\<lparr>st_opened := b\<rparr>) = idle w st" "idle w (st\<lparr>st_sendBytes := n\<rparr>) = idle w st"
  "idle w (st\<lparr>st_inBytes := n\<rparr>) = idle w st"
  by (cases w; simp)+

lemma idle_moves:
  "idle w st \<Longrightarrow> idle w (st\<lparr>st_localClosed := True\<rparr>)"
  "idle w st \<Longrightarrow> idle w (st\<lparr>st_closeAfterFlush := True, st_localClosed := True\<rparr>)"
  "idle w st \<Longrightarrow> st_sendQ st \<noteq> [] \<Longrightarrow> 0 < st_sndCredit st \<Longrightarrow> idle w (take_chunk st)"
  "idle w st \<Longrightarrow> st_inQ st \<noteq> [] \<Longrightarrow> idle w (read_upd n st)"
  by (cases w; simp)+

lemma wait_ok_local:
  assumes "wait_ok (obj s a) (add_mset act P) a" and "addr_of act = Some a" and "a < nstreams s"
    and "exec reg i act s = Some (s', k, new)" and "expo_ok (obj s a) (add_mset act P) a"
  shows "wait_ok (obj s' a) (P + mset k + pool new) a"
proof -
  have undecided: "A_CondWait a e w \<notin># P" if "st_opening (obj s a) \<or> st_accepting (obj s a)" for e w
    using assms(5) that cnt_pos [of "A_CondWait a e w" P expo_of a] by (auto simp: expo_ok_def split: if_splits)
  show ?thesis
  proof (cases act)
    case (A_Send m j)
    with assms show ?thesis
      by (cases j) (auto simp: local_defs elim!: sendApp_heap split: local_splits, simp_all add: wait_ok_def)
  next
    case (A_Dispatch b d)
    with assms undecided show ?thesis
      by (cases d) (auto simp: local_defs split: local_splits, simp_all add: wait_ok_def, auto simp: less_Suc_eq)
  qed (use assms in \<open>auto simp: local_defs split: local_splits, simp_all add: wait_ok_def, (auto simp: less_Suc_eq word_gt_0 intro!: idle_moves)?\<close>)
qed

lemma wait_others: "others a R \<Longrightarrow> A_CondWait a e w \<notin># R"
  by (auto simp: others_def)

lemma wait_new: "addr_ok s P \<Longrightarrow> A_CondWait (nstreams s) e w \<notin># P"
  by (auto simp: addr_ok_def)

interpretation wait_si: stream_invariant wait_ok hold_inv
proof unfold_locales
  show "wait_ok (obj s' a) (P + mset k + pool new) a"
    if "wait_ok (obj s a) (add_mset act P) a" "addr_of act = Some a" "a < nstreams s" "hold_inv s (add_mset act P)"
      "exec reg i act s = Some (s', k, new)" for s a act P reg i s' k new
    using that by (intro wait_ok_local) (auto simp: hold_inv_def)
qed (erule hold_inv_reachable, simp add: hold_inv_def, auto simp: wait_ok_def wait_others wait_new)

section \<open>Nobody stays blocked in a closed session\<close>

lemma closed_holder:
  assumes r: "reachable reg (s, ts)" and "s_closed s" and x: "x \<in># pool ts" "expo_of x = Some a"
    and "\<And>c m. A_SetReset a c m \<notin># pool ts"
  shows "st_reset (obj s a) \<or> closed_both (obj s a) \<and> st_closeAfterFlush (obj s a)"
proof -
  have t: "table_inv s (pool ts)" and cov: "table_covers s (pool ts)" and hold: "hold_inv s (pool ts)"
    using table_si.holds covers_si.holds hold_inv_reachable r by blast+
  have a: "a < nstreams s"
    using t x of_addr(5) by (auto simp: table_inv_def addr_ok_def)
  have e: "0 < cnt expo_of a (pool ts)"
    using x by (rule cnt_pos)
  have "cnt reset_of a (pool ts) = 0"
    using assms(5) by (auto simp: cnt_zero elim!: reset_of.elims)
  moreover have "\<not> in_table s a"
    using t \<open>s_closed s\<close> by (simp add: table_inv_def table_ok_def in_table_def)
  ultimately have "gone (obj s a)"
    using cov a e by (auto simp: table_covers_def)
  moreover have "st_openErr (obj s a) = None" "st_localClosed (obj s a) \<longrightarrow> st_closeAfterFlush (obj s a)"
    using hold a e by (simp_all add: hold_inv_def expo_ok_def flags_ok_def)
  ultimately show ?thesis
    by (auto simp: gone_def closed_both_def)
qed

lemma exec_enabled:
  assumes "\<And>a e w. act \<noteq> A_CondWait a e w" "\<And>a. act \<noteq> A_OpenWait a" "act \<noteq> A_WgWait"
  shows "\<exists>inp. exec reg inp act s \<noteq> None"
proof (cases act)
  case (A_AcceptOpen a meta)
  have "exec reg (I_Handler (Inl ErrSessionClosed)) act s \<noteq> None"
    by (simp add: A_AcceptOpen acceptOpen_def Let_def)
  then show ?thesis by blast
next
  case (A_App a)
  have "exec reg (I_Call C_CloseWrite) act s \<noteq> None"
    by (simp add: A_App)
  then show ?thesis by blast
next
  case A_Serve
  have "exec reg (I_Frame (Inl EOF)) act s \<noteq> None"
    by (simp add: A_Serve)
  then show ?thesis by blast
qed (use assms in \<open>auto split: prod.splits option.splits\<close>)

text \<open>A waiting goroutine of a closed session was woken, or it is the write loop of a stream that ended cleanly.\<close>

lemma closed_waiter:
  assumes r: "reachable reg (s, ts)" and "s_closed s" and x: "A_CondWait a e w \<in># pool ts"
    and "\<And>c m. A_SetReset a c m \<notin># pool ts"
  shows "e < st_epoch (obj s a) \<or> w = Wait_Loop \<and> closed_both (obj s a)"
proof -
  have "st_reset (obj s a) \<or> closed_both (obj s a)"
    using closed_holder [OF r \<open>s_closed s\<close> x _ assms(4)] by auto
  moreover have "a < nstreams s"
    using table_si.holds [OF r] x by (auto simp: table_inv_def addr_ok_def)
  then have "e < st_epoch (obj s a) \<or> \<not> st_reset (obj s a) \<and> idle w (obj s a)"
    using wait_si.holds [OF r] x by (auto simp: wait_ok_def)
  ultimately show ?thesis
    by (cases w) (auto simp: closed_both_def)
qed

end
