(* ===== verification/App_Run.thy ===== *)
theory App_Run
  imports App_Session
begin

text \<open>
  Running a session under a given schedule, the frames of the app channel as the read
  loop of the peer sees them, and one example run that opens a stream.
\<close>

section \<open>Schedules\<close>

datatype sched = S_Run nat input | S_Open string bytes | S_Close

definition run_one :: "registry \<Rightarrow> sched \<Rightarrow> conf \<Rightarrow> conf option" where
  "run_one reg x c =
     (case (x, c) of
        (S_Run i inp, (s, ts)) \<Rightarrow>
          if i < length ts
          then (case ts ! i of
                  [] \<Rightarrow> None
                | act # rest \<Rightarrow>
                    (case exec reg inp act s of
                       None \<Rightarrow> None
                     | Some (s', k, new) \<Rightarrow> Some (s', ts[i := k @ rest] @ new)))
          else None
      | (S_Open service meta, (s, ts)) \<Rightarrow> Some (s, ts @ [[A_Open service meta]])
      | (S_Close, (s, ts)) \<Rightarrow> Some (s, ts @ [Close]))"

primrec run_all :: "registry \<Rightarrow> sched list \<Rightarrow> conf \<Rightarrow> conf option" where
  "run_all reg [] c = Some c"
| "run_all reg (x # xs) c = (case run_one reg x c of None \<Rightarrow> None | Some c' \<Rightarrow> run_all reg xs c')"

lemma run_one_step: "run_one reg x c = Some c' \<Longrightarrow> step reg c c'"
  by (auto simp: run_one_def split: sched.splits prod.splits if_splits list.splits option.splits intro: step.intros)

lemma run_all_reachable: "reachable reg c \<Longrightarrow> run_all reg xs c = Some c' \<Longrightarrow> reachable reg c'"
proof (induction xs arbitrary: c)
  case (Cons x xs)
  then obtain c1 where c1: "run_one reg x c = Some c1" "run_all reg xs c1 = Some c'"
    by (auto split: option.splits)
  have "reachable reg c1"
    using Cons.prems(1) run_one_step [OF c1(1)] by (rule reachable.step)
  with c1(2) show ?case by (rule Cons.IH [rotated])
qed simp

lemma run_all_append:
  "run_all reg xs c = Some c' \<Longrightarrow> run_all reg (xs @ ys) c = run_all reg ys c'"
  by (induction xs arbitrary: c) (auto split: option.splits)

section \<open>Frames of the app channel\<close>

primrec layout_app :: "app_message \<Rightarrow> bytes" where
  "layout_app (Open_msg m) = layout_AppOpen m"
| "layout_app (Accept_msg m) = layout_AppAccept m"
| "layout_app (Reject_msg m) = layout_AppReject m"
| "layout_app (Data_msg m) = layout_AppData m"
| "layout_app (Credit_msg m) = layout_AppCredit m"
| "layout_app (Close_msg m) = layout_AppClose m"
| "layout_app (Reset_msg m) = layout_AppReset m"

primrec fits_app :: "app_message \<Rightarrow> bool" where
  "fits_app (Open_msg m) = fits_AppOpen m"
| "fits_app (Accept_msg m) = fits_AppAccept m"
| "fits_app (Reject_msg m) = fits_AppReject m"
| "fits_app (Data_msg m) = fits_AppData m"
| "fits_app (Credit_msg m) = fits_AppCredit m"
| "fits_app (Close_msg m) = fits_AppClose m"
| "fits_app (Reset_msg m) = fits_AppReset m"

definition app_frame :: "app_message \<Rightarrow> Frame" where
  "app_frame m = \<lparr>f_Type = appMessageType m, f_Flags = 0, f_MsgID = 0, f_Body = layout_app m\<rparr>"

lemma app_marshal: "app_MarshalBinary m = Inr b \<Longrightarrow> b = layout_app m"
  by (cases m) (simp_all add: appOpen.marshal appAccept.marshal appReject.marshal appData.marshal appCredit.marshal
      appClose.marshal appReset.marshal)

text \<open>A message that fails to encode is not sent; one that does is one write of its frame.\<close>

lemma sendApp_frame:
  "sendApp m s =
     (case app_MarshalBinary m of
        Inl e \<Rightarrow> (Some e, s)
      | Inr b \<Rightarrow>
          (case io_Write (EncodeMVCPFrame (app_frame m)) (s_wr s) of (e, w) \<Rightarrow> (e, s\<lparr>s_wr := w\<rparr>)))"
  by (auto simp: sendApp_def send_def app_frame_def WriteMVCPFrame_def EncodeMVCPFrame_def WriteFrame_enc
      enc_frame_def split: sum.splits dest: app_marshal)

text \<open>What the read loop of the peer does with each message.\<close>

primrec route :: "app_message \<Rightarrow> action" where
  "route (Open_msg m) = A_HandleOpen m"
| "route (Accept_msg m) = A_Stream (aa_StreamID m) (D_Accept m)"
| "route (Reject_msg m) = A_Stream (aj_StreamID m) (D_Reject m)"
| "route (Data_msg m) = A_Stream (ad_StreamID m) (D_Data (ad_Data m))"
| "route (Credit_msg m) = A_Stream (ac_StreamID m) (D_Credit (ac_Bytes m))"
| "route (Close_msg m) = A_Stream (al_StreamID m) D_Close"
| "route (Reset_msg m) = A_Stream (ar_StreamID m) (D_Reset (ar_Code m) (ar_Message m))"

lemma run_body_decoded: "run_body p b = Inr x \<Longrightarrow> \<exists>r. p (bytes_NewReader b) = Inr (x, r)"
  by (auto simp: run_body_def split: sum.splits)

lemma decoded_layouts:
  "fits_AppOpen m1 \<Longrightarrow> \<exists>r. decode_AppOpen (bytes_NewReader (layout_AppOpen m1)) = Inr (m1, r)"
  "fits_AppAccept m2 \<Longrightarrow> \<exists>r. decode_AppAccept (bytes_NewReader (layout_AppAccept m2)) = Inr (m2, r)"
  "fits_AppReject m3 \<Longrightarrow> \<exists>r. decode_AppReject (bytes_NewReader (layout_AppReject m3)) = Inr (m3, r)"
  "fits_AppData m4 \<Longrightarrow> \<exists>r. decode_AppData (bytes_NewReader (layout_AppData m4)) = Inr (m4, r)"
  "fits_AppCredit m5 \<Longrightarrow> \<exists>r. decode_AppCredit (bytes_NewReader (layout_AppCredit m5)) = Inr (m5, r)"
  "fits_AppClose m6 \<Longrightarrow> \<exists>r. decode_AppClose (bytes_NewReader (layout_AppClose m6)) = Inr (m6, r)"
  "fits_AppReset m7 \<Longrightarrow> \<exists>r. decode_AppReset (bytes_NewReader (layout_AppReset m7)) = Inr (m7, r)"
  by (rule run_body_decoded, simp add: appOpen.decode_agrees appOpen.unmarshal appAccept.decode_agrees appAccept.unmarshal
      appReject.decode_agrees appReject.unmarshal appData.decode_agrees appData.unmarshal appCredit.decode_agrees
      appCredit.unmarshal appClose.decode_agrees appClose.unmarshal appReset.decode_agrees appReset.unmarshal)+

lemma handleFrame_route:
  assumes "fits_app m"
  shows "handleFrame (decodeRegistry jd jm) (app_frame m) = ([route m], None)"
  using assms
  by (cases m) (auto dest!: decoded_layouts simp: handleFrame_def app_frame_def DecodeMessage_def decodeRegistry_eq
      as_message_def rbind_def ret_def)

section \<open>An example\<close>

text \<open>
  The host opens a stream, the peer accepts it with the usual window: the read loop waits
  for the next frame, a write loop is running, and both the observer and the caller
  of \<open>Open\<close> hold the stream at address 0.
\<close>

definition demo_reg :: registry where
  "demo_reg = decodeRegistry (\<lambda>b. Inl EOF) (\<lambda>b. False)"

definition demo_start :: conf where
  "demo_start = (NewSession (Writer [] []) RoleHost True True, [[A_Serve]])"

definition demo_accept :: app_message where
  "demo_accept = Accept_msg \<lparr>aa_StreamID = 1, aa_Meta = [], aa_Grant = AppInitialWindow\<rparr>"

definition demo_open :: "sched list" where
  "demo_open =
     [S_Open ''echo'' [], S_Run 1 I_None, S_Run 1 I_None,
      S_Run 0 (I_Frame (Inr (app_frame demo_accept))), S_Run 0 I_None, S_Run 0 I_None, S_Run 0 I_None,
      S_Run 1 (I_Wake W_Ready), S_Run 1 I_None, S_Run 1 I_None, S_Run 1 I_None, S_Run 1 I_None]"

definition demo_session :: Session where
  "demo_session =
     \<lparr>s_Role = RoleHost, s_hasHandler = True, s_hasObserver = True,
      s_wr = Writer [EncodeMVCPFrame (app_frame (Open_msg \<lparr>ao_StreamID = 1, ao_Service = ''echo'', ao_Meta = []\<rparr>))] [],
      s_heap = [(newStream 1 ''echo'' False)\<lparr>st_ready := True, st_opened := True, st_sndCredit := AppInitialWindow,
                  st_rcvWindow := AppInitialWindow\<rparr>],
      s_streams = [(1, 0)], s_nextID = 1, s_closed = False, s_closeCh = False, s_buffered = 0, s_wg = 1,
      s_log = [Ev_Opened 0, Ev_Open (Inr 0)], s_panic = False\<rparr>"

definition demo_goroutines :: "action list list" where
  "demo_goroutines = [[A_Serve], [], [A_WriteLoop 0, A_WgDone], [A_App 0], [A_App 0]]"

lemma valid_echo [simp]: "ValidAppService ''echo''"
  by code_simp

lemma demo_open_frame: "app_MarshalBinary (Open_msg \<lparr>ao_StreamID = 1, ao_Service = ''echo'', ao_Meta = []\<rparr>) =
    Inr (layout_app (Open_msg \<lparr>ao_StreamID = 1, ao_Service = ''echo'', ao_Meta = []\<rparr>))"
  by (auto simp: AppOpen_MarshalBinary_def layout_AppOpen_def intro!: Marshal_emits emits_intros)

lemma demo_accept_frame: "handleFrame demo_reg (app_frame demo_accept) =
    ([A_Stream 1 (D_Accept \<lparr>aa_StreamID = 1, aa_Meta = [], aa_Grant = AppInitialWindow\<rparr>)], None)"
  unfolding demo_reg_def demo_accept_def by (subst handleFrame_route) (simp_all add: fits_AppAccept_def fits32_def)

lemmas run_defs =
  run_one_def Open_def Let_def localBit_def sendApp_frame io_Write_def Serve_def stream_def on_stream_def
  handleAccept_def closeReady_def openWait_def openFinish_def startWriteLoop_def markOpened_def after_opened_def
  log_event_def obj_def upd_def newStream_def

lemma demo_run: "run_all demo_reg demo_open demo_start = Some (demo_session, demo_goroutines)"
  unfolding demo_open_def demo_start_def
  by (simp add: run_defs NewSession_def demo_open_frame [simplified] demo_accept_frame demo_session_def demo_goroutines_def)

lemma demo_reachable: "reachable demo_reg (demo_session, demo_goroutines)"
  by (rule run_all_reachable [OF _ demo_run]) (simp add: demo_start_def reachable.start)

text \<open>Then the caller writes three bytes, which are queued.\<close>

definition demo_write :: "sched list" where
  "demo_write = [S_Run 4 (I_Call (C_Write [1, 2, 3])), S_Run 5 I_None]"

definition demo_written :: conf where
  "demo_written =
     (demo_session\<lparr>s_heap := [hd (s_heap demo_session)\<lparr>st_sendQ := [[1, 2, 3]], st_sendBytes := 3, st_epoch := 1\<rparr>], s_buffered := 3,
        s_log := [Ev_Opened 0, Ev_Open (Inr 0), Ev_Write 0 [1, 2, 3] None]\<rparr>,
      demo_goroutines @ [[]])"

lemma demo_write_run: "run_all demo_reg demo_write (demo_session, demo_goroutines) = Some demo_written"
  by (simp add: demo_write_def demo_written_def run_defs demo_session_def demo_goroutines_def Write_def reserveBuffer_def)

lemma demo_written_reachable: "reachable demo_reg demo_written"
  by (rule run_all_reachable [OF demo_reachable demo_write_run])

text \<open>Then it reads, which waits, and the session is closed, up to the reset of the stream.\<close>

definition demo_close :: "sched list" where
  "demo_close = [S_Run 4 (I_Call (C_Read 10)), S_Run 6 I_None, S_Close, S_Run 7 I_None, S_Run 7 I_None, S_Run 7 I_None]"

definition demo_closed :: conf where
  "demo_closed =
     ((fst demo_written)\<lparr>s_heap := [hd (s_heap (fst demo_written))\<lparr>st_reset := True,
          st_resetErr := Some (ResetError ErrorCodeAppPeerGone ''connection closed''), st_epoch := 2\<rparr>],
        s_streams := [], s_closed := True, s_closeCh := True, s_buffered := 0\<rparr>,
      snd demo_written @ [[A_CondWait 0 1 (Wait_Read 10)], [A_Finish 0, A_CloseConn, A_WgWait]])"

lemma demo_close_run: "run_all demo_reg demo_close demo_written = Some demo_closed"
  by (simp add: demo_close_def demo_closed_def demo_written_def run_defs demo_session_def demo_goroutines_def Close_def
      fail_def setReset_def Read_def)

lemma demo_closed_reachable: "reachable demo_reg demo_closed"
  by (rule run_all_reachable [OF demo_written_reachable demo_close_run])

section \<open>Two runs with an unwanted end\<close>

text \<open>
  The write loop takes the queued bytes from the queue; before it sends them, the caller closes the
  stream and finds the queue empty.
\<close>

definition overtake :: "sched list" where
  "overtake =
     [S_Run 2 I_None, S_Run 4 (I_Call C_CloseWrite), S_Run 6 I_None, S_Run 6 I_None, S_Run 2 I_None, S_Run 2 I_None]"

text \<open>
  The write loop waits; the peer closes, which wakes it and lets it wait again; the caller closes; the
  connection ends and the session is closed.
\<close>

definition end_cleanly :: "sched list" where
  "end_cleanly =
     [S_Run 2 I_None,
      S_Run 0 (I_Frame (Inr (app_frame (Close_msg \<lparr>al_StreamID = 1\<rparr>)))), S_Run 0 I_None, S_Run 0 I_None, S_Run 0 I_None,
      S_Run 2 I_None, S_Run 2 I_None,
      S_Run 4 (I_Call C_CloseWrite), S_Run 5 I_None, S_Run 5 I_None, S_Run 5 I_None, S_Run 5 I_None, S_Run 5 I_None,
      S_Run 5 I_None, S_Run 5 I_None, S_Run 5 I_None,
      S_Close, S_Run 6 I_None, S_Run 6 I_None, S_Run 6 I_None,
      S_Run 0 (I_Frame (Inl EOF)), S_Run 0 I_None, S_Run 0 I_None]"

lemma close_frame: "handleFrame demo_reg (app_frame (Close_msg \<lparr>al_StreamID = 1\<rparr>)) = ([A_Stream 1 D_Close], None)"
  unfolding demo_reg_def by (subst handleFrame_route) (simp_all add: fits_AppClose_def)

lemma close_marshal: "app_MarshalBinary (Close_msg m) = Inr (layout_app (Close_msg m))"
  by (auto simp: AppClose_MarshalBinary_def layout_AppClose_def intro!: Marshal_unchecked_emits Marshal_emits emits_intros)

lemma data_marshal: "length (ad_Data m) \<le> AppMaxDataBytes \<Longrightarrow> app_MarshalBinary (Data_msg m) = Inr (layout_app (Data_msg m))"
  by (auto simp: AppData_MarshalBinary_def layout_AppData_def intro!: Marshal_unchecked_emits Marshal_emits emits_intros)

lemmas close_defs =
  run_defs demo_session_def demo_goroutines_def demo_written_def CloseWrite_def writeLoop_def condWait_def chunk_len_def
  take_chunk_def releaseBuffer_def remoteClose_def maybeFinish_def finish_def detach_def detachBytes_def closeEndpoint_def
  fail_def Close_def close_frame close_marshal [simplified] data_marshal [simplified]

lemma overtake_run:
  "\<exists>s ts. run_all demo_reg overtake demo_written = Some (s, ts)
     \<and> wr_log (s_wr s) =
         [EncodeMVCPFrame (app_frame (Open_msg \<lparr>ao_StreamID = 1, ao_Service = ''echo'', ao_Meta = []\<rparr>)),
          EncodeMVCPFrame (app_frame (Close_msg \<lparr>al_StreamID = 1\<rparr>)),
          EncodeMVCPFrame (app_frame (Data_msg \<lparr>ad_StreamID = 1, ad_Data = [1, 2, 3]\<rparr>))]"
  by (simp add: overtake_def close_defs)

lemma end_cleanly_run:
  "\<exists>s. run_all demo_reg end_cleanly (demo_session, demo_goroutines) =
         Some (s, [[], [], [A_CondWait 0 1 Wait_Loop, A_WgDone], [A_App 0], [A_App 0], [], [A_WgWait]])
     \<and> s_closed s \<and> s_wg s = 1 \<and> st_epoch (obj s 0) = 1"
  by (simp add: end_cleanly_def close_defs)

end
