(* ===== verification/App_Queue.thy ===== *)
theory App_Queue
  imports App_Flow
begin

text \<open>
  The two queues of a stream as byte queues. The specification is a list of bytes; delivery and
  \<open>Read\<close> implement it on the receiving side, \<open>Write\<close> and the write loop on the
  sending side, although both store chunks, split them, and account for them in four
  counters.
\<close>

section \<open>Specification\<close>

text \<open>
  A queue of bytes: \<open>put\<close> appends all bytes or refuses them, \<open>get\<close> takes some from the
  front, at least one when it takes any.
\<close>

datatype qop = Put bytes | Get nat

text \<open>
  What went in, what came out, and the queue after a sequence of operations; a refused \<open>put\<close>
  and a \<open>get\<close> that finds nothing change nothing.
\<close>

fun perform :: "(bytes \<Rightarrow> 'q \<Rightarrow> 'q option) \<Rightarrow> (nat \<Rightarrow> 'q \<Rightarrow> (bytes \<times> 'q) option)
    \<Rightarrow> qop list \<Rightarrow> 'q \<Rightarrow> bytes \<times> bytes \<times> 'q" where
  "perform put get [] q = ([], [], q)"
| "perform put get (Put x # ops) q =
     (case put x q of
        None \<Rightarrow> perform put get ops q
      | Some q' \<Rightarrow> (case perform put get ops q' of (i, out, r) \<Rightarrow> (x @ i, out, r)))"
| "perform put get (Get n # ops) q =
     (case get n q of
        None \<Rightarrow> perform put get ops q
      | Some (d, q') \<Rightarrow> (case perform put get ops q' of (i, out, r) \<Rightarrow> (i, d @ out, r)))"

locale byte_queue =
  fixes bytes_of :: "'q \<Rightarrow> bytes"
    and ok :: "'q \<Rightarrow> bool"
    and put :: "bytes \<Rightarrow> 'q \<Rightarrow> 'q option"
    and get :: "nat \<Rightarrow> 'q \<Rightarrow> (bytes \<times> 'q) option"
  assumes put: "ok q \<Longrightarrow> put x q = Some q' \<Longrightarrow> ok q' \<and> bytes_of q' = bytes_of q @ x"
    and get: "ok q \<Longrightarrow> get n q = Some (d, q') \<Longrightarrow> ok q' \<and> bytes_of q = d @ bytes_of q' \<and> d \<noteq> []"
begin

lemma fifo:
  "ok q \<Longrightarrow> perform put get ops q = (i, out, r) \<Longrightarrow> ok r \<and> bytes_of q @ i = out @ bytes_of r"
proof (induction ops arbitrary: q i out)
  case (Cons op ops)
  show ?case
  proof (cases op)
    case (Put x)
    with Cons put show ?thesis by (fastforce split: option.splits prod.splits)
  next
    case (Get n)
    with Cons get show ?thesis by (fastforce split: option.splits prod.splits)
  qed
qed simp

end

section \<open>The receiving side\<close>

text \<open>The stream was opened and is not reset, and its counters agree with its queues.\<close>

definition usable :: "nat \<Rightarrow> Session \<Rightarrow> bool" where
  "usable a s \<longleftrightarrow> a < nstreams s \<and> sums (obj s a) \<and> bounded (obj s a) \<and> \<not> st_reset (obj s a)"

definition recv_bytes :: "nat \<Rightarrow> Session \<Rightarrow> bytes" where
  "recv_bytes a s = concat (st_inQ (obj s a))"

definition recv_put :: "nat \<Rightarrow> bytes \<Rightarrow> Session \<Rightarrow> Session option" where
  "recv_put a data s = (case deliver a data s of (s', k, new) \<Rightarrow> if k = [] then Some s' else None)"

definition recv_get :: "nat \<Rightarrow> nat \<Rightarrow> Session \<Rightarrow> (bytes \<times> Session) option" where
  "recv_get a sz s =
     (case Read a sz s of
        (s', k, new) \<Rightarrow>
          (case drop (length (s_log s)) (s_log s') of
             [Ev_Read b d None] \<Rightarrow> if d = [] then None else Some (d, s')
           | _ \<Rightarrow> None))"

interpretation recv: byte_queue "recv_bytes a" "usable a" "recv_put a" "recv_get a" for a
proof unfold_locales
  fix q q' x
  assume "usable a q" and "recv_put a x q = Some q'"
  then show "usable a q' \<and> recv_bytes a q' = recv_bytes a q @ x"
    by (auto simp: recv_put_def usable_def recv_bytes_def deliver_def Let_def resetRemote_def reserveBuffer_def obj_upd
        deliver_sums deliver_bounded split: if_splits)
next
  fix q n d q'
  assume "usable a q" and "recv_get a n q = Some (d, q')"
  then show "usable a q' \<and> recv_bytes a q = d @ recv_bytes a q' \<and> d \<noteq> []"
    by (auto simp: recv_get_def usable_def recv_bytes_def Read_def Let_def obj_upd
        read_upd_ok split: if_splits list.splits event.splits option.splits)
      (simp add: min_def split: if_splits)
qed

section \<open>The sending side\<close>

text \<open>With credit, the write loop takes at least one byte.\<close>

lemma take_chunk_some:
  assumes "sums st" and "bounded st" and "st_sendQ st \<noteq> []" and "0 < st_sndCredit st"
  shows "take (unat (chunk_len st)) (hd (st_sendQ st)) \<noteq> []"
  using chunk_len_le [of st] sums_sendQ [OF assms(1,2,3)] assms(4)
  by (simp add: word_less_nat_alt min_def split: if_splits)

definition send_bytes :: "nat \<Rightarrow> Session \<Rightarrow> bytes" where
  "send_bytes a s = concat (st_sendQ (obj s a))"

definition send_put :: "nat \<Rightarrow> bytes \<Rightarrow> Session \<Rightarrow> Session option" where
  "send_put a p s =
     (if length p < 2 ^ 63
      then (case Write a p s of
              (s', k, new) \<Rightarrow> if drop (length (s_log s)) (s_log s') = [Ev_Write a p None] then Some s' else None)
      else None)"

definition send_get :: "nat \<Rightarrow> nat \<Rightarrow> Session \<Rightarrow> (bytes \<times> Session) option" where
  "send_get a n s =
     (case writeLoop a s of
        (s', k, new) \<Rightarrow>
          (case k of
             [A_Release r, A_Send (Data_msg m) (SendData b)] \<Rightarrow> Some (ad_Data m, s')
           | _ \<Rightarrow> None))"

interpretation send: byte_queue "send_bytes a" "usable a" "send_put a" "send_get a" for a
proof unfold_locales
  fix q q' x
  assume "usable a q" and "send_put a x q = Some q'"
  then show "usable a q' \<and> send_bytes a q' = send_bytes a q @ x"
    by (auto simp: send_put_def usable_def send_bytes_def Write_def Let_def resetRemote_def reserveBuffer_def obj_upd
        Write_sums Write_bounded split: if_splits)
next
  fix q n d q'
  assume "usable a q" and "send_get a n q = Some (d, q')"
  then show "usable a q' \<and> send_bytes a q = d @ send_bytes a q' \<and> d \<noteq> []"
    using take_chunk_some [of "obj q a"]
    by (auto simp: send_get_def usable_def send_bytes_def writeLoop_def Let_def obj_upd
        take_chunk_ok split: if_splits list.splits action.splits)
qed

end
