(* ===== verification/App_Properties.thy ===== *)
theory App_Properties
  imports App_Observer App_Flow App_Teardown App_Run App_Queue
begin

text \<open>
  What the invariants of the app channel say about every session, under every
  interleaving of its goroutines and whatever the peer, the handler and the application do.
\<close>

section \<open>Memory and flow control\<close>

text \<open>What the invariants say of a stream that the application holds.\<close>

lemma held_stream_flow:
  assumes "reachable reg (s, ts)" and "A_App a \<in># pool ts"
  shows "a < nstreams s \<and> \<not> st_accepting (obj s a) \<and> bounded (obj s a)
    \<and> (\<not> st_reset (obj s a) \<longrightarrow> sums (obj s a))"
proof -
  have e: "0 < cnt expo_of a (pool ts)"
    using assms(2) by (rule cnt_pos) simp
  have hold: "hold_inv s (pool ts)"
    using assms(1) by (rule hold_inv_reachable)
  then have a: "a < nstreams s"
    using assms(2) by (auto simp: hold_inv_def table_inv_def addr_ok_def)
  then have "expo_ok (obj s a) (pool ts) a" "flow_ok (obj s a) (pool ts) a"
    using hold flow_si.holds [OF assms(1)] by (simp_all add: hold_inv_def)
  with e a show ?thesis
    by (auto simp: expo_ok_def flow_ok_def)
qed

text \<open>
  C3. The buffer ledger is exact. A session never accounts for more than 8 MiB of
  buffered data, and until it is closed the ledger is the sum of the bytes that its streams
  count as queued and of the releases that are under way, so nothing leaks and the
  ledger never falls below what is queued.
\<close>

theorem session_buffer_ledger:
  assumes "reachable reg (s, ts)"
  shows "s_buffered s \<le> AppMaxBuffered
    \<and> (\<not> s_closed s \<longrightarrow>
         unat (s_buffered s) = (\<Sum>st \<leftarrow> s_heap s. unat (st_sendBytes st) + unat (st_inBytes st))
           + (\<Sum>act \<in># pool ts. case act of A_Release n \<Rightarrow> unat n | _ \<Rightarrow> 0))"
proof -
  have "release_of = (\<lambda>act. case act of A_Release n \<Rightarrow> unat n | _ \<Rightarrow> 0)"
    by (rule ext) (simp split: action.split)
  then show ?thesis
    using ledger_si.holds [OF assms] by (simp add: ledger_inv_def total_def held_def [abs_def] releases_def)
qed

theorem session_buffer_ledger_witness:
  "unat (s_buffered (fst demo_written)) = 3
    \<and> (\<Sum>st \<leftarrow> s_heap (fst demo_written). unat (st_sendBytes st) + unat (st_inBytes st)) = 3"
proof -
  have "reachable demo_reg (fst demo_written, snd demo_written)"
    using demo_written_reachable by simp
  from session_buffer_ledger [OF this] show ?thesis
    by (simp add: demo_written_def demo_session_def demo_goroutines_def pool_def)
qed

text \<open>
  C10. The counters of a stream agree with its queues. As long as the application holds a
  stream that was not reset, the byte counters are the sizes of the queues (none of their
  additions and subtractions has wrapped around), the receive window and the bytes waiting
  to be read make up the initial window, at most 1 MiB is queued for sending, and
  the send credit is within its cap. That the credit never wraps around is not claimed; it may, see \<open>addCredit\<close> below.
\<close>

theorem stream_counters_exact:
  assumes "reachable reg (s, ts)" and "A_App a \<in># pool ts" and "\<not> st_reset (obj s a)"
  shows "unat (st_sendBytes (obj s a)) = length (concat (st_sendQ (obj s a)))
    \<and> unat (st_inBytes (obj s a)) = length (concat (st_inQ (obj s a)))
    \<and> unat (st_rcvWindow (obj s a)) + length (concat (st_inQ (obj s a))) = unat AppInitialWindow
    \<and> st_sendBytes (obj s a) \<le> AppMaxSendQueue \<and> st_sndCredit (obj s a) \<le> AppMaxCredit"
  using held_stream_flow [OF assms(1,2)] assms(3) by (auto simp: sums_def bounded_def)

theorem stream_counters_exact_witness:
  "unat (st_sendBytes (obj (fst demo_written) 0)) = length (concat [[1, 2, 3 :: byte]])
    \<and> unat (st_rcvWindow (obj (fst demo_written) 0)) = 0x40000"
proof -
  have r: "reachable demo_reg (fst demo_written, snd demo_written)"
    using demo_written_reachable by simp
  have q: "st_sendQ (obj (fst demo_written) 0) = [[1, 2, 3]]" "st_inQ (obj (fst demo_written) 0) = []"
    "\<not> st_reset (obj (fst demo_written) 0)"
    by (simp_all add: demo_written_def demo_session_def obj_def newStream_def)
  have "A_App 0 \<in># pool (snd demo_written)"
    by (simp add: demo_written_def demo_goroutines_def pool_def)
  from stream_counters_exact [OF r this q(3)] show ?thesis
    unfolding q by simp
qed

section \<open>The table\<close>

text \<open>
  C11. The stream table. At most 64 streams are registered, each under its own ID and no ID twice; a
  stream of this side carries this side's initiator bit and a number that was given
  out, one of the peer carries the peer's bit and is not 0; the IDs of the streams opened by this side
  never repeat, even after they ended; a closed session has no streams.
\<close>

theorem session_table:
  assumes "reachable reg (s, ts)"
  shows "length (s_streams s) \<le> AppMaxStreams \<and> distinct (map fst (s_streams s))
    \<and> (\<forall>(sid, a) \<in> set (s_streams s). a < length (s_heap s) \<and> st_id (obj s a) = sid \<and> sid \<noteq> 0
         \<and> (sid AND 0x80000000 = (if st_inbound (obj s a) then remoteBit s else localBit s)))
    \<and> (\<forall>a < length (s_heap s). \<forall>b < length (s_heap s). \<not> st_inbound (obj s a) \<and> \<not> st_inbound (obj s b)
         \<and> st_id (obj s a) = st_id (obj s b) \<longrightarrow> a = b)
    \<and> (s_closed s \<longrightarrow> s_streams s = [])"
proof -
  have t: "table_ok s" and i: "id_inv s (pool ts)"
    using table_si.holds [OF assms] id_si.holds [OF assms] by (simp_all add: table_inv_def)
  have "sid \<noteq> 0 \<and> (sid AND 0x80000000 = (if st_inbound (obj s a) then remoteBit s else localBit s))"
    if "(sid, a) \<in> set (s_streams s)" for sid a
  proof -
    have "st_id (obj s a) = sid" "id_ok s (obj s a)"
      using that t i by (auto simp: table_ok_def id_inv_def)
    then show ?thesis by (auto simp: id_ok_def split: if_splits)
  qed
  then show ?thesis
    using t i by (auto simp: table_ok_def wf_gomap_def id_inv_def)
qed

theorem session_table_witness:
  "s_streams demo_session = [(1, 0)] \<and> distinct (map fst (s_streams demo_session))
    \<and> 1 AND 0x80000000 = localBit demo_session"
proof -
  have t: "s_streams demo_session = [(1, 0)]" "\<not> st_inbound (obj demo_session 0)"
    by (simp_all add: demo_session_def obj_def newStream_def)
  from session_table [OF demo_reachable] show ?thesis
    unfolding t(1) using t(2) by simp
qed

section \<open>Panics, callbacks, teardown\<close>

text \<open>
  C8. A session never panics: no channel is closed twice and the wait group never goes below
  zero; its counter is the number of write loops that have not returned.
\<close>

theorem session_never_panics:
  assumes "reachable reg (s, ts)"
  shows "\<not> s_panic s \<and> s_wg s = count (pool ts) A_WgDone"
  using quiet_si.holds [OF assms] by (simp add: quiet_inv_def)

theorem session_never_panics_witness: "\<not> s_panic demo_session \<and> s_wg demo_session = count (pool demo_goroutines) A_WgDone"
  by (rule session_never_panics [OF demo_reachable])

text \<open>
  C27. The observer sees each stream at most once opened and then at most once closed, in this order:
  it was told of the opening exactly when the stream is marked opened, and of the end
  exactly when an opened stream is finished.
\<close>

theorem observer_order:
  assumes "reachable reg (s, ts)" and "a < length (s_heap s)"
  shows "filter (\<lambda>e. e = Ev_Opened a \<or> e = Ev_Closed a) (s_log s) =
    (if s_hasObserver s \<and> st_opened (obj s a)
     then (if st_finished (obj s a) then [Ev_Opened a, Ev_Closed a] else [Ev_Opened a]) else [])"
proof -
  have "life_event a = (\<lambda>e. e = Ev_Opened a \<or> e = Ev_Closed a)"
    by (rule ext) (auto elim: life_event.elims)
  moreover have "filter (life_event a) (s_log s) = told s a"
    using observer_si.holds [OF assms(1)] by (simp add: observer_inv_def)
  ultimately show ?thesis
    using assms(2) by (simp add: told_def)
qed

theorem observer_order_witness: "filter (\<lambda>e. e = Ev_Opened 0 \<or> e = Ev_Closed 0) (s_log demo_session) = [Ev_Opened 0]"
proof -
  have "0 < length (s_heap demo_session)" "s_hasObserver demo_session" "st_opened (obj demo_session 0)"
    "\<not> st_finished (obj demo_session 0)"
    by (simp_all add: demo_session_def obj_def newStream_def)
  then show ?thesis
    using observer_order [OF demo_reachable, of 0] by simp
qed

text \<open>
  C26. Who may be blocked in a closed session. Once the session is closed and the
  resets of its streams have run, the next section of every goroutine can run, whether
  it reads, writes, waits for an open or does anything else, with some input where it waits
  for one from outside, with two exceptions: the write loop of a stream that both sides had
  closed before, and a caller of \<open>Close\<close> (\<open>A_WgWait\<close>) while some goroutine still has to call \<^verbatim>\<open>wg.Done\<close>,
  that is, while a write loop has not returned.
\<close>

theorem closed_session_progress:
  assumes "reachable reg (s, ts)" and "s_closed s" and "\<forall>a c m. A_SetReset a c m \<notin># pool ts"
    and "i < length ts" and "ts ! i = act # rest"
  shows "(\<exists>inp. exec reg inp act s \<noteq> None)
    \<or> (\<exists>a e. act = A_CondWait a e Wait_Loop \<and> closed_both (obj s a))
    \<or> act = A_WgWait \<and> (\<exists>j < length ts. A_WgDone \<in> set (ts ! j))"
proof -
  have act: "act \<in># pool ts"
    using assms(4,5) nth_mem [of i ts] by (force simp: pool_def)
  consider (cond) a e w where "act = A_CondWait a e w" | (wait) a where "act = A_OpenWait a"
    | (close) "act = A_WgWait" | (other) "\<exists>inp. exec reg inp act s \<noteq> None"
    using exec_enabled [of act reg s] by blast
  then show ?thesis
  proof cases
    case (cond a e w)
    with closed_waiter [OF assms(1,2), of a e w] act assms(3) show ?thesis
      by (auto simp: condWait_def)
  next
    case (wait a)
    have "s_closeCh s"
      using table_si.holds [OF assms(1)] assms(2) by (simp add: table_inv_def table_ok_def)
    then have "exec reg (I_Wake W_Closed) act s \<noteq> None"
      by (simp add: wait openWait_def)
    then show ?thesis by blast
  next
    case close
    show ?thesis
    proof (cases "A_WgDone \<in># pool ts")
      case True
      then have "\<exists>j < length ts. A_WgDone \<in> set (ts ! j)"
        unfolding pool_def set_mset_mset set_concat by (metis UN_E in_set_conv_nth)
      with close show ?thesis by blast
    next
      case False
      then have "s_wg s = 0"
        using quiet_si.holds [OF assms(1)] by (simp add: quiet_inv_def not_in_iff)
      with close show ?thesis by simp
    qed
  next
    case other
    then show ?thesis by blast
  qed
qed

theorem closed_session_progress_witness: "\<exists>inp. exec demo_reg inp (A_CondWait 0 1 (Wait_Read 10)) (fst demo_closed) \<noteq> None"
proof -
  have r: "reachable demo_reg (fst demo_closed, snd demo_closed)"
    using demo_closed_reachable by simp
  have c: "s_closed (fst demo_closed)"
    by (simp add: demo_closed_def)
  have p: "\<forall>a c m. A_SetReset a c m \<notin># pool (snd demo_closed)" "6 < length (snd demo_closed)"
    "snd demo_closed ! 6 = A_CondWait 0 1 (Wait_Read 10) # []"
    by (simp_all add: demo_closed_def demo_written_def demo_goroutines_def pool_def)
  from closed_session_progress [OF r c p] show ?thesis by simp
qed

text \<open>
  C28. A stream that ended cleanly can block \<open>Close\<close>. There is a run in which the peer closes
  its direction, then the application closes its own with nothing queued: the stream
  finishes and leaves the table, but its write loop is not woken. When the session is closed after that,
  the write loop and \<open>Close\<close>, which waits for it, are the only goroutines with work
  left, and no input lets either go on. (The caller and the endpoint, \<open>A_App 0\<close>,
  could still call \<open>Reset\<close> on the finished stream, which is the only way out.)
\<close>

theorem close_blocks_after_clean_end:
  "\<exists>s ts. reachable demo_reg (s, ts) \<and> s_closed s
    \<and> concat ts = [A_CondWait 0 1 Wait_Loop, A_WgDone, A_App 0, A_App 0, A_WgWait]
    \<and> (\<forall>inp. exec demo_reg inp (A_CondWait 0 1 Wait_Loop) s = None \<and> exec demo_reg inp A_WgWait s = None)"
proof -
  obtain s where s: "run_all demo_reg end_cleanly (demo_session, demo_goroutines) =
      Some (s, [[], [], [A_CondWait 0 1 Wait_Loop, A_WgDone], [A_App 0], [A_App 0], [], [A_WgWait]])"
    "s_closed s" "s_wg s = 1" "st_epoch (obj s 0) = 1"
    using end_cleanly_run by blast
  from run_all_reachable [OF demo_reachable s(1)] s(2-) show ?thesis
    by (intro exI [of _ s] exI conjI) (assumption, simp_all add: condWait_def)
qed

text \<open>
  An \<open>APP_CLOSE\<close> can overtake data of its own stream. There is a run in which the write
  loop took the last chunk from the queue, and before it sends the chunk the application closes
  its direction: the queue is empty, so the close is sent at once, and the data after it.
\<close>

lemma close_overtakes_data:
  "\<exists>s ts. reachable demo_reg (s, ts)
    \<and> wr_log (s_wr s) =
        [EncodeMVCPFrame (app_frame (Open_msg \<lparr>ao_StreamID = 1, ao_Service = ''echo'', ao_Meta = []\<rparr>)),
         EncodeMVCPFrame (app_frame (Close_msg \<lparr>al_StreamID = 1\<rparr>)),
         EncodeMVCPFrame (app_frame (Data_msg \<lparr>ad_StreamID = 1, ad_Data = [1, 2, 3]\<rparr>))]"
  using overtake_run run_all_reachable [OF demo_written_reachable] by blast

section \<open>Single streams\<close>

text \<open>
  C9. The queues of a stream are byte queues. As long as the application holds a stream that was
  not reset, and however chunks are delivered, split and read, what \<open>Read\<close> returned
  followed by what still waits is what waited before followed by what was delivered: no byte is
  lost, repeated or reordered. The same holds between \<open>Write\<close> and the frames of the write loop.
\<close>

theorem stream_queues_fifo:
  assumes "reachable reg (s, ts)" and "A_App a \<in># pool ts" and "\<not> st_reset (obj s a)"
  shows "(case perform (recv_put a) (recv_get a) ops s of
            (delivered, got, s') \<Rightarrow> recv_bytes a s @ delivered = got @ recv_bytes a s')
    \<and> (case perform (send_put a) (send_get a) ops s of
            (written, sent, s') \<Rightarrow> send_bytes a s @ written = sent @ send_bytes a s')"
proof -
  have "usable a s"
    using held_stream_flow [OF assms(1,2)] assms(3) by (simp add: usable_def)
  then show ?thesis
    by (auto split: prod.split dest: recv.fifo send.fifo)
qed

theorem stream_queues_fifo_witness:
  "case perform (send_put 0) (send_get 0) [Put [4, 5], Get 0, Get 0] (fst demo_written) of
     (written, sent, s') \<Rightarrow> written = [4, 5] \<and> [1, 2, 3] @ written = sent @ send_bytes 0 s'"
proof -
  have r: "reachable demo_reg (fst demo_written, snd demo_written)"
    using demo_written_reachable by simp
  have st: "send_bytes 0 (fst demo_written) = [1, 2, 3]" "\<not> st_reset (obj (fst demo_written) 0)"
    by (simp_all add: send_bytes_def demo_written_def demo_session_def obj_def newStream_def)
  have held: "A_App 0 \<in># pool (snd demo_written)"
    by (simp add: demo_written_def demo_goroutines_def pool_def)
  obtain q where "send_put 0 [4, 5] (fst demo_written) = Some q"
    by (simp add: send_put_def Write_def demo_written_def demo_session_def obj_def newStream_def Let_def reserveBuffer_def)
  then have "fst (perform (send_put 0) (send_get 0) [Put [4, 5], Get 0, Get 0] (fst demo_written)) = [4, 5]"
    by (simp split: option.split prod.split)
  with stream_queues_fifo [OF r held st(2), of "[Put [4, 5], Get 0, Get 0]"] show ?thesis
    unfolding st(1) by (simp only: split_beta)
qed

text \<open>
  C29. Credit and its wrap-around. Credit within the cap is added exactly and wakes the writer, and
  credit above the cap resets the stream, as long as the sum fits 32 bits. A sum of \<open>2^32\<close> or more
  wraps around before it is compared with the cap: the update is accepted and
  lowers the credit.
\<close>

theorem addCredit_wraps:
  assumes "a < length (s_heap s)" and "\<not> st_reset (obj s a)" and "n \<noteq> 0"
  defines "credit \<equiv> unat (st_sndCredit (obj s a))"
  shows "case addCredit a n s of
      (s', acts, new) \<Rightarrow>
        (credit + unat n \<le> unat AppMaxCredit \<longrightarrow>
           unat (st_sndCredit (obj s' a)) = credit + unat n \<and> st_epoch (obj s' a) = st_epoch (obj s a) + 1 \<and> acts = [])
      \<and> (unat AppMaxCredit < credit + unat n \<and> credit + unat n < 2 ^ 32 \<longrightarrow>
           s' = s \<and> acts = resetRemote a ErrorCodeAppProtocolError ''credit cap exceeded'' s)
      \<and> (2 ^ 32 \<le> credit + unat n \<and> credit + unat n - 2 ^ 32 \<le> unat AppMaxCredit \<longrightarrow>
           unat (st_sndCredit (obj s' a)) = credit + unat n - 2 ^ 32 \<and> acts = [])"
proof -
  have sum: "unat (st_sndCredit (obj s a) + n) =
      (if credit + unat n < 2 ^ 32 then credit + unat n else credit + unat n - 2 ^ 32)"
    using unsigned_less [where 'a=nat, of n] unsigned_less [where 'a=nat, of "st_sndCredit (obj s a)"]
    by (simp add: credit_def unat_word_ariths le_mod_geq)
  show ?thesis
    using assms(1-3) sum by (auto simp: addCredit_def Let_def obj_upd word_less_nat_alt)
qed

theorem addCredit_wraps_witness:
  "st_sndCredit (obj demo_session 0) = 0x40000
    \<and> unat (st_sndCredit (obj (fst (addCredit 0 0xFFFFFFFF demo_session)) 0)) = 0x3FFFF"
proof -
  have d: "0 < length (s_heap demo_session)" "\<not> st_reset (obj demo_session 0)" "(0xFFFFFFFF :: uint32) \<noteq> 0"
    "st_sndCredit (obj demo_session 0) = 0x40000"
    by (simp_all add: demo_session_def obj_def newStream_def)
  from addCredit_wraps [OF d(1-3)] show ?thesis
    unfolding d(4) by (simp split: prod.splits)
qed

end
