(* ===== verification/App_Bridge.thy ===== *)
theory App_Bridge
  imports App_Session
begin

text \<open>
  The bridge between a stream and its local endpoint, \<^verbatim>\<open>protocol/app/bridge.go\<close>, as the sequence
  of the calls its two goroutines make. What their reads and writes return is an input: in a session the calls on the stream are those
  that the holder of the stream may make at any time (\<open>A_App\<close> with a \<open>call\<close>).
\<close>

section \<open>io.Copy\<close>

text \<open>
  \<^verbatim>\<open>io.Copy\<close> between a reader and a writer without methods of their own for copying. \<open>reads\<close> is what the successive reads return,
  \<open>wr k d\<close> what the \<open>k\<close>-th write returns for \<open>d\<close>. The result is the data of the writes, in
  order, and the error that \<^verbatim>\<open>Copy\<close> returns, or nothing if it still waits for the next read.
\<close>

definition write_result :: "bytes \<Rightarrow> nat \<times> goerr option \<Rightarrow> goerr option" where
  "write_result d res =
     (case res of
        (nw, ew) \<Rightarrow>
          if nw > length d then (case ew of None \<Rightarrow> Some (NewError ''invalid write result'') | Some e \<Rightarrow> Some e)
          else (case ew of Some e \<Rightarrow> Some e | None \<Rightarrow> if nw \<noteq> length d then Some (NewError ''short write'') else None))"

fun io_Copy :: "(nat \<Rightarrow> bytes \<Rightarrow> nat \<times> goerr option) \<Rightarrow> nat \<Rightarrow> (bytes \<times> goerr option) list
    \<Rightarrow> bytes list \<times> goerr option option" where
  "io_Copy wr k [] = ([], None)"
| "io_Copy wr k ((d, er) # rs) =
     (case (if d = [] then None else write_result d (wr k d)) of
        Some e \<Rightarrow> ([d], Some (Some e))
      | None \<Rightarrow>
          (let (ws, res) =
             (case er of
                Some e \<Rightarrow> ([], Some (if e = EOF then None else Some e))
              | None \<Rightarrow> io_Copy wr (if d = [] then k else Suc k) rs)
           in ((if d = [] then [] else [d]) @ ws, res)))"

section \<open>Bridge\<close>

text \<open>What the bridge calls: an operation of the stream, or one of the endpoint.\<close>

datatype bridge_call = B_Stream call | B_Write bytes | B_CloseWrite | B_Close

definition closeWrite :: "bool \<Rightarrow> bridge_call" where
  "closeWrite isCloseWriter = (if isCloseWriter then B_CloseWrite else B_Close)"

definition copy_reset :: "goerr option \<Rightarrow> bridge_call list" where
  "copy_reset err =
     (case err of
        Some e \<Rightarrow> if errors_Is e EOF then [] else [B_Stream (C_Reset ErrorCodeAppLocalError (Error e))]
      | None \<Rightarrow> [])"

text \<open>The two goroutines: from the endpoint to the stream, and from the stream to the endpoint.\<close>

definition Bridge_out ::
    "bool \<Rightarrow> (nat \<Rightarrow> bytes \<Rightarrow> nat \<times> goerr option) \<Rightarrow> (bytes \<times> goerr option) list \<Rightarrow> bridge_call list \<times> bool" where
  "Bridge_out cw wr reads =
     (case io_Copy wr 0 reads of
        (ws, res) \<Rightarrow>
          (map (B_Stream \<circ> C_Write) ws
             @ (case res of None \<Rightarrow> [] | Some err \<Rightarrow> copy_reset err @ [B_Stream C_CloseWrite, closeWrite cw]),
           res \<noteq> None))"

definition Bridge_in ::
    "bool \<Rightarrow> (nat \<Rightarrow> bytes \<Rightarrow> nat \<times> goerr option) \<Rightarrow> (bytes \<times> goerr option) list \<Rightarrow> bridge_call list \<times> bool" where
  "Bridge_in cw wr reads =
     (case io_Copy wr 0 reads of
        (ws, res) \<Rightarrow>
          (map B_Write ws @ (case res of None \<Rightarrow> [] | Some err \<Rightarrow> copy_reset err @ [closeWrite cw]), res \<noteq> None))"

text \<open>\<open>Bridge\<close> itself: the calls of the two goroutines interleave, and when both have returned the endpoint is closed.\<close>

definition Bridge :: "bridge_call list \<times> bool \<Rightarrow> bridge_call list \<times> bool \<Rightarrow> bridge_call list set" where
  "Bridge out inn = (\<lambda>calls. calls @ (if snd out \<and> snd inn then [B_Close] else [])) ` shuffles (fst out) (fst inn)"

section \<open>What the bridge copies\<close>

lemma io_Copy_bytes:
  assumes "\<And>k d. wr k d = (length d, None)" and "\<forall>(d, er) \<in> set rs. er = None"
  shows "io_Copy wr k (rs @ [(d, Some e)]) =
    (filter (\<lambda>d. d \<noteq> []) (map fst rs @ [d]), Some (if e = EOF then None else Some e))"
  using assms(2) by (induction rs arbitrary: k) (auto simp: assms(1) write_result_def)

text \<open>
  C25. What a bridge copies. While the writes succeed, the bytes that one side delivers are written to the other side as they were
  read, in order and without empty writes. When the source ends, the direction is closed without a
  reset; when reading fails, the stream is reset with the error before the direction is closed, so that
  the peer does not take a failure for the end of the data.
\<close>

theorem bridge_copies:
  fixes e :: goerr and cw :: bool
  assumes "\<And>k d. wr k d = (length d, None)" and "\<forall>(d, er) \<in> set rs. er = None"
  defines "reset \<equiv> if errors_Is e EOF then [] else [B_Stream (C_Reset ErrorCodeAppLocalError (Error e))]"
    and "close \<equiv> if cw then B_CloseWrite else B_Close"
  shows "\<exists>ws. concat ws = concat (map fst rs) @ d \<and> [] \<notin> set ws
    \<and> Bridge_out cw wr (rs @ [(d, Some e)]) = (map (B_Stream \<circ> C_Write) ws @ reset @ [B_Stream C_CloseWrite, close], True)
    \<and> Bridge_in cw wr (rs @ [(d, Some e)]) = (map B_Write ws @ reset @ [close], True)"
proof -
  let ?ws = "filter (\<lambda>d. d \<noteq> []) (map fst rs @ [d])"
  have "concat (filter (\<lambda>d. d \<noteq> []) xs) = concat xs" for xs :: "bytes list"
    by (induction xs) auto
  from this [of "map fst rs @ [d]"] have "concat ?ws = concat (map fst rs) @ d"
    by simp
  moreover have "copy_reset (if e = EOF then None else Some e) = reset"
    by (simp add: copy_reset_def reset_def)
  ultimately show ?thesis
    unfolding Bridge_out_def Bridge_in_def io_Copy_bytes [OF assms(1,2)] close_def
    by (intro exI [of _ ?ws]) (auto simp: closeWrite_def)
qed

theorem bridge_copies_witness:
  "\<exists>ws. concat ws = [1, 2, 3]
    \<and> Bridge_out True (\<lambda>k d. (length d, None)) [([1, 2], None), ([], None), ([3], Some (NetErr ''reset''))] =
        (map (B_Stream \<circ> C_Write) ws
           @ [B_Stream (C_Reset ErrorCodeAppLocalError ''reset''), B_Stream C_CloseWrite, B_CloseWrite], True)"
  using bridge_copies [where wr = "\<lambda>k d. (length d, None)" and rs = "[([1, 2], None), ([], None)]" and d = "[3]" and e = "NetErr ''reset''" and cw = True] by auto

end
