(* ===== verification/RPC_Server.thy ===== *)
theory RPC_Server
  imports Frame
begin

text \<open>
  The types and the server of the RPC layer, \<^verbatim>\<open>protocol/rpc/types.go\<close> and
  \<^verbatim>\<open>protocol/rpc/server.go\<close>. A handler is code of the application; the server only looks it up
  and starts it, so handlers are values of any type \<open>'h\<close>, and what \<^verbatim>\<open>Serve\<close> does
  with them is the list of the goroutines it starts.
\<close>

section \<open>Requests and their answers\<close>

record Response =
  rs_Type :: uint8
  rs_Body :: bytes

record StreamFrame =
  sf_Type :: uint8
  sf_Body :: bytes
  sf_More :: bool

record Request =
  rq_Type :: uint8
  rq_MsgID :: uint32
  rq_Flags :: uint8
  rq_Body :: bytes

definition Request_Respond :: "Request \<Rightarrow> uint8 \<Rightarrow> bytes \<Rightarrow> wop" where
  "Request_Respond r msgType body =
     WriteMVCPFrame \<lparr>f_Type = msgType, f_Flags = FlagResponse, f_MsgID = rq_MsgID r, f_Body = body\<rparr>"

definition Request_Stream :: "Request \<Rightarrow> uint8 \<Rightarrow> bytes \<Rightarrow> wop" where
  "Request_Stream r msgType body =
     WriteMVCPFrame \<lparr>f_Type = msgType, f_Flags = FlagStreamMore, f_MsgID = rq_MsgID r, f_Body = body\<rparr>"

definition Request_StreamEnd :: "Request \<Rightarrow> uint8 \<Rightarrow> bytes \<Rightarrow> wop" where
  "Request_StreamEnd r msgType body =
     WriteMVCPFrame \<lparr>f_Type = msgType, f_Flags = FlagResponse, f_MsgID = rq_MsgID r, f_Body = body\<rparr>"

definition Request_Error :: "Request \<Rightarrow> uint16 \<Rightarrow> string \<Rightarrow> wop" where
  "Request_Error r code message =
     (let buf = wr_bytes (snd (wseq (WriteUint16 code) (WriteString message) new_Buffer)) in
      WriteMVCPFrame \<lparr>f_Type = TypeERROR, f_Flags = FlagResponse, f_MsgID = rq_MsgID r, f_Body = buf\<rparr>)"

definition Request_Started :: "Request \<Rightarrow> bool \<Rightarrow> wop" where
  "Request_Started r stream =
     WriteMVCPFrame \<lparr>f_Type = TypeSTARTED, f_Flags = 0, f_MsgID = rq_MsgID r, f_Body = EncodeStarted stream\<rparr>"

section \<open>The server\<close>

text \<open>
  The server with the outcomes of its own writes. \<^verbatim>\<open>Handle\<close> and the lookup in
  \<^verbatim>\<open>Serve\<close> hold the lock; the table is taken as it is when \<^verbatim>\<open>Serve\<close> is called.
\<close>

record 'h Server =
  sv_wr :: writer
  sv_handlers :: "(uint8, 'h) gomap"

definition NewServer :: "writer \<Rightarrow> 'h Server" where
  "NewServer conn = \<lparr>sv_wr = conn, sv_handlers = []\<rparr>"

definition Server_Handle :: "uint8 \<Rightarrow> 'h \<Rightarrow> 'h Server \<Rightarrow> 'h Server" where
  "Server_Handle msgType h s = s\<lparr>sv_handlers := AList.update msgType h (sv_handlers s)\<rparr>"

definition Server_sendError :: "uint32 \<Rightarrow> uint16 \<Rightarrow> string \<Rightarrow> 'h Server \<Rightarrow> 'h Server" where
  "Server_sendError msgID code message s =
     (let req = \<lparr>rq_Type = 0, rq_MsgID = msgID, rq_Flags = 0, rq_Body = []\<rparr> in
      s\<lparr>sv_wr := snd (Request_Error req code message (sv_wr s))\<rparr>)"

text \<open>One frame: nothing, an error answer, or a handler to start.\<close>

definition serve_frame :: "Frame \<Rightarrow> 'h Server \<Rightarrow> (Request \<times> 'h) option \<times> 'h Server" where
  "serve_frame frame s =
     (if f_Flags frame AND FlagResponse \<noteq> 0 then (None, s)
      else
        (case map_of (sv_handlers s) (f_Type frame) of
           None \<Rightarrow> (None, Server_sendError (f_MsgID frame) ErrorCodeUnknownType ''unknown message type'' s)
         | Some handler \<Rightarrow>
             (Some (\<lparr>rq_Type = f_Type frame, rq_MsgID = f_MsgID frame, rq_Flags = f_Flags frame,
                     rq_Body = f_Body frame\<rparr>, handler), s)))"

lemma ReadMVCPFrame_shorter:
  "ReadMVCPFrame r = Inr (f, r') \<Longrightarrow> length (rd_data r') < length (rd_data r)"
  using mvcpf.dec_exact [of r f r'] by (simp add: EncodeMVCPFrame_def Let_def)

text \<open>
  The loop. \<open>ctx n\<close> is what the \<open>n\<close>-th look at the context sees: nothing, or the
  error with which it is done. The result is what \<^verbatim>\<open>Serve\<close> returns, the goroutines it
  started, in order, and the server.
\<close>

function Server_Serve ::
    "(nat \<Rightarrow> goerr option) \<Rightarrow> nat \<Rightarrow> reader \<Rightarrow> 'h Server \<Rightarrow> goerr option \<times> (Request \<times> 'h) list \<times> 'h Server" where
  "Server_Serve ctx n r s =
     (case ctx n of
        Some e \<Rightarrow> (Some e, [], s)
      | None \<Rightarrow>
          (case ReadMVCPFrame r of
             Inl err \<Rightarrow> ((if ctx (Suc n) \<noteq> None then None else Some err), [], s)
           | Inr (frame, r') \<Rightarrow>
               (case serve_frame frame s of
                  (started, s1) \<Rightarrow>
                    (case Server_Serve ctx (Suc n) r' s1 of
                       (res, more_started, s2) \<Rightarrow>
                         (res, (case started of None \<Rightarrow> more_started | Some h \<Rightarrow> h # more_started), s2)))))"
  by pat_completeness auto

termination
  by (relation "measure (\<lambda>(ctx, n, r, s). length (rd_data r))") (auto dest: ReadMVCPFrame_shorter)

declare Server_Serve.simps [simp del]

section \<open>What Serve does\<close>

text \<open>The frames that ask for something, with and without a handler.\<close>

definition is_request :: "Frame \<Rightarrow> bool" where
  "is_request f \<longleftrightarrow> f_Flags f AND FlagResponse = 0"

definition request_of :: "Frame \<Rightarrow> Request" where
  "request_of f = \<lparr>rq_Type = f_Type f, rq_MsgID = f_MsgID f, rq_Flags = f_Flags f, rq_Body = f_Body f\<rparr>"

definition unknown_type :: "Frame \<Rightarrow> Frame" where
  "unknown_type f =
     \<lparr>f_Type = TypeERROR, f_Flags = FlagResponse, f_MsgID = f_MsgID f,
      f_Body = enc_u16 ErrorCodeUnknownType @ enc_string ''unknown message type''\<rparr>"

lemma emits_error [emits_intros]:
  "emits (Request_Error r code message)
     (EncodeMVCPFrame \<lparr>f_Type = TypeERROR, f_Flags = FlagResponse, f_MsgID = rq_MsgID r,
        f_Body = enc_u16 code @ enc_string message\<rparr>)"
proof -
  have "emits (wseq (WriteUint16 code) (WriteString message)) (enc_u16 code @ enc_string message)"
    by (intro emits_intros)
  then show ?thesis
    by (simp add: Request_Error_def emits_bytes_eq emits_frame)
qed

lemma serve_frame_cases:
  assumes "wr_errs (sv_wr s) = []"
  obtains s' where "serve_frame f s =
      (if is_request f then map_option (\<lambda>h. (request_of f, h)) (map_of (sv_handlers s) (f_Type f)) else None, s')"
    and "sv_handlers s' = sv_handlers s" and "wr_errs (sv_wr s') = []"
    and "wr_bytes (sv_wr s') = wr_bytes (sv_wr s) @
      (if is_request f \<and> map_of (sv_handlers s) (f_Type f) = None then EncodeMVCPFrame (unknown_type f) else [])"
proof (rule that [of "snd (serve_frame f s)"])
  have *: "wr_errs (snd (Request_Error r c m (sv_wr s))) = []"
    "wr_bytes (snd (Request_Error r c m (sv_wr s))) = wr_bytes (sv_wr s) @
       EncodeMVCPFrame \<lparr>f_Type = TypeERROR, f_Flags = FlagResponse, f_MsgID = rq_MsgID r, f_Body = enc_u16 c @ enc_string m\<rparr>"
    for r c m
    using emits_error [of r c m] assms by (auto simp: emits_def)
  show "serve_frame f s =
      (if is_request f then map_option (\<lambda>h. (request_of f, h)) (map_of (sv_handlers s) (f_Type f)) else None,
       snd (serve_frame f s))"
    by (simp add: serve_frame_def is_request_def request_of_def split: option.split)
  show "sv_handlers (snd (serve_frame f s)) = sv_handlers s" "wr_errs (sv_wr (snd (serve_frame f s))) = []"
    "wr_bytes (sv_wr (snd (serve_frame f s))) = wr_bytes (sv_wr s) @
      (if is_request f \<and> map_of (sv_handlers s) (f_Type f) = None then EncodeMVCPFrame (unknown_type f) else [])"
    using assms
    by (simp_all add: serve_frame_def Server_sendError_def is_request_def unknown_type_def * split: option.split)
qed

text \<open>The goroutines and the error answers that a sequence of frames calls for.\<close>

definition started :: "(uint8, 'h) gomap \<Rightarrow> Frame list \<Rightarrow> (Request \<times> 'h) list" where
  "started hs fs =
     map (\<lambda>f. (request_of f, the (map_of hs (f_Type f)))) (filter (\<lambda>f. is_request f \<and> map_of hs (f_Type f) \<noteq> None) fs)"

definition refused :: "(uint8, 'h) gomap \<Rightarrow> Frame list \<Rightarrow> Frame list" where
  "refused hs fs = map unknown_type (filter (\<lambda>f. is_request f \<and> map_of hs (f_Type f) = None) fs)"

lemma Serve_frames:
  assumes "list_all wf_frame fs" and "wr_errs (sv_wr s) = []" and "\<forall>j < length fs. ctx (n + j) = None"
  shows "\<exists>s1. sv_handlers s1 = sv_handlers s
    \<and> wr_bytes (sv_wr s1) = wr_bytes (sv_wr s) @ concat (map EncodeMVCPFrame (refused (sv_handlers s) fs))
    \<and> Server_Serve ctx n (Reader (concat (map EncodeMVCPFrame fs) @ rest) e) s =
        (case Server_Serve ctx (n + length fs) (Reader rest e) s1 of
           (res, hs, s2) \<Rightarrow> (res, started (sv_handlers s) fs @ hs, s2))"
  using assms
proof (induction fs arbitrary: s n)
  case Nil
  then show ?case by (auto simp: started_def refused_def split: prod.split)
next
  case (Cons f fs)
  obtain s' where s': "serve_frame f s =
      (if is_request f then map_option (\<lambda>h. (request_of f, h)) (map_of (sv_handlers s) (f_Type f)) else None, s')"
    "sv_handlers s' = sv_handlers s" "wr_errs (sv_wr s') = []"
    "wr_bytes (sv_wr s') = wr_bytes (sv_wr s) @
      (if is_request f \<and> map_of (sv_handlers s) (f_Type f) = None then EncodeMVCPFrame (unknown_type f) else [])"
    using serve_frame_cases [OF Cons.prems(2)] by blast
  have "ctx (Suc n + j) = None" if "j < length fs" for j
    using Cons.prems(3) that by (metis Suc_less_eq add_Suc_shift length_Cons)
  then obtain s1 where s1: "sv_handlers s1 = sv_handlers s'"
    "wr_bytes (sv_wr s1) = wr_bytes (sv_wr s') @ concat (map EncodeMVCPFrame (refused (sv_handlers s') fs))"
    "Server_Serve ctx (Suc n) (Reader (concat (map EncodeMVCPFrame fs) @ rest) e) s' =
        (case Server_Serve ctx (Suc n + length fs) (Reader rest e) s1 of
           (res, hs, s2) \<Rightarrow> (res, started (sv_handlers s') fs @ hs, s2))"
    using Cons.IH [of s' "Suc n"] Cons.prems(1) s'(3) by auto
  have "ctx n = None"
    using Cons.prems(3) by force
  then have "Server_Serve ctx n (Reader (concat (map EncodeMVCPFrame (f # fs)) @ rest) e) s =
        (case Server_Serve ctx (n + length (f # fs)) (Reader rest e) s1 of
           (res, hs, s2) \<Rightarrow> (res, started (sv_handlers s) (f # fs) @ hs, s2))"
    using Cons.prems(1) s' s1
    by (subst Server_Serve.simps) (auto simp: mvcpf.dec_enc started_def split: prod.split)
  then show ?case
    using s' s1 by (intro exI [of _ s1]) (auto simp: refused_def)
qed

lemma Serve_end:
  "ctx n = Some err \<Longrightarrow> Server_Serve ctx n r s = (Some err, [], s)"
  "ctx n = None \<Longrightarrow> ctx (Suc n) = None \<Longrightarrow> Server_Serve ctx n (Reader [] e) s = (Some e, [], s)"
  by (simp_all add: Server_Serve.simps ReadMVCPFrame_def ReadFrame_def rbind_def io_ReadFull_def)

text \<open>
  C19. The server's loop. On a connection that carries the frames \<open>fs\<close> and then ends, the loop runs until the
  connection ends or the \<open>k\<close>-th look at the context finds it done. Of the frames read by then it
  starts the handler for every request of a registered type, in order and with the
  frame's type, flags, ID and body; it answers every request of another type with one ERROR frame of
  the same ID; and it ignores responses.
\<close>

theorem Serve_exact:
  assumes "list_all wf_frame fs" and "wr_errs (sv_wr s) = []" and "k \<le> length fs" and "\<forall>j < k. ctx j = None"
    and "ctx k \<noteq> None \<or> k = length fs \<and> ctx (Suc k) = None"
  shows "\<exists>s'. Server_Serve ctx 0 (Reader (concat (map EncodeMVCPFrame fs)) e) s =
      ((if ctx k = None then Some e else ctx k), started (sv_handlers s) (take k fs), s')
    \<and> wr_bytes (sv_wr s') = wr_bytes (sv_wr s) @ concat (map EncodeMVCPFrame (refused (sv_handlers s) (take k fs)))"
proof -
  let ?rest = "concat (map EncodeMVCPFrame (drop k fs))"
  have fs: "concat (map EncodeMVCPFrame fs) = concat (map EncodeMVCPFrame (take k fs)) @ ?rest"
    by (metis append_take_drop_id concat_append map_append)
  have k: "length (take k fs) = k"
    using assms(3) by simp
  have "list_all wf_frame (take k fs)"
    using assms(1) by (auto simp: list_all_iff dest: in_set_takeD)
  then obtain s1 where s1:
    "wr_bytes (sv_wr s1) = wr_bytes (sv_wr s) @ concat (map EncodeMVCPFrame (refused (sv_handlers s) (take k fs)))"
    "Server_Serve ctx 0 (Reader (concat (map EncodeMVCPFrame fs)) e) s =
        (case Server_Serve ctx k (Reader ?rest e) s1 of (res, hs, s2) \<Rightarrow> (res, started (sv_handlers s) (take k fs) @ hs, s2))"
    using Serve_frames [of "take k fs" s ctx 0 ?rest e] assms(2,4) k fs by auto
  have "Server_Serve ctx k (Reader ?rest e) s1 = ((if ctx k = None then Some e else ctx k), [], s1)"
    using assms(5) Serve_end by (cases "ctx k") auto
  with s1 show ?thesis by auto
qed

definition demo_rpc :: "nat Server" where
  "demo_rpc = Server_Handle TypePING 1 (NewServer new_Buffer)"

theorem Serve_exact_witness:
  "\<exists>s'. Server_Serve (\<lambda>n. None) 0
      (Reader (concat (map EncodeMVCPFrame
         [\<lparr>f_Type = TypePING, f_Flags = 0, f_MsgID = 1, f_Body = []\<rparr>,
          \<lparr>f_Type = TypeEXEC, f_Flags = 0, f_MsgID = 2, f_Body = []\<rparr>])) EOF) demo_rpc =
      (Some EOF, [(\<lparr>rq_Type = TypePING, rq_MsgID = 1, rq_Flags = 0, rq_Body = []\<rparr>, 1)], s')
    \<and> wr_bytes (sv_wr s') = EncodeMVCPFrame \<lparr>f_Type = TypeERROR, f_Flags = FlagResponse, f_MsgID = 2,
        f_Body = enc_u16 1 @ enc_string ''unknown message type''\<rparr>"
proof -
  let ?fs = "[\<lparr>f_Type = TypePING, f_Flags = 0, f_MsgID = 1, f_Body = []\<rparr>,
    \<lparr>f_Type = TypeEXEC, f_Flags = 0, f_MsgID = 2, f_Body = []\<rparr>]"
  have h: "list_all wf_frame ?fs" "wr_errs (sv_wr demo_rpc) = []" "wr_bytes (sv_wr demo_rpc) = []"
    "sv_handlers demo_rpc = [(TypePING, 1)]"
    by (simp_all add: wf_frame_def demo_rpc_def Server_Handle_def NewServer_def new_Buffer_def wr_bytes_def)
  then show ?thesis
    using Serve_exact [OF h(1,2), of 2 "\<lambda>n. None" EOF]
    by (simp add: started_def refused_def is_request_def request_of_def unknown_type_def)
qed

end
