(* ===== verification/RPC_Client.thy ===== *)
theory RPC_Client
  imports RPC_Server Goroutines
begin

text \<open>
  The RPC client, \<^verbatim>\<open>protocol/rpc/client.go\<close>. Calls are objects in a heap with two buffered
  channels each, and a goroutine is the list of the sections it still has to run: a critical
  section, or one operation on a channel, the connection or the wait group. A
  \<^verbatim>\<open>select\<close> takes any of its cases that is ready, and which one is an input; a section whose case is
  not ready cannot run.
\<close>

section \<open>Calls\<close>

text \<open>
  \<open>pc_outClosed\<close> and \<open>pc_done\<close> say that the channels \<^verbatim>\<open>out\<close> and \<^verbatim>\<open>done\<close> are
  closed. The fields after them are a record of what happened: the ID
  of the request, the frames that the read loop found for this call, and those that its
  consumer received.
\<close>

record pendingCall =
  pc_inbox :: "StreamFrame list"
  pc_out :: "StreamFrame list"
  pc_outClosed :: bool
  pc_done :: bool
  pc_id :: uint32
  pc_routed :: "Frame list"
  pc_got :: "StreamFrame list"

definition chan_cap :: nat where
  [simp]: "chan_cap = 16"

definition newPendingCall :: "uint32 \<Rightarrow> pendingCall" where
  "newPendingCall msgID =
     \<lparr>pc_inbox = [], pc_out = [], pc_outClosed = False, pc_done = False, pc_id = msgID, pc_routed = [], pc_got = []\<rparr>"

text \<open>What the world outside the client sees.\<close>

datatype rpc_event =
    Rv_Call nat "goerr + Response"
  | Rv_Stream nat "goerr option"
  | Rv_Recv nat "StreamFrame option"
  | Rv_Log goerr
  | Rv_ConnClosed

text \<open>
  The client. \<open>c_closer\<close> says that the connection is an \<^verbatim>\<open>io.Closer\<close>, \<open>c_cancel\<close> that
  \<^verbatim>\<open>cancel\<close> is set, \<open>c_cancelled\<close> that the context of the read loop is done, and \<open>c_panic\<close> that
  a channel was closed twice or written after it was closed, the wait group went below zero, or a type
  assertion failed.
\<close>

record Client =
  c_closer :: bool
  c_wr :: writer
  c_msgID :: uint32
  c_heap :: "pendingCall list"
  c_pending :: "(uint32, nat) gomap"
  c_closed :: bool
  c_closeCh :: bool
  c_cancel :: bool
  c_cancelled :: bool
  c_wg :: nat
  c_log :: "rpc_event list"
  c_panic :: bool

definition NewClient :: "bool \<Rightarrow> writer \<Rightarrow> Client" where
  "NewClient closer conn =
     \<lparr>c_closer = closer, c_wr = conn, c_msgID = 0, c_heap = [], c_pending = [], c_closed = False, c_closeCh = False,
      c_cancel = False, c_cancelled = False, c_wg = 0, c_log = [], c_panic = False\<rparr>"

definition pcall :: "Client \<Rightarrow> nat \<Rightarrow> pendingCall" where
  "pcall c a = c_heap c ! a"

definition pupd :: "nat \<Rightarrow> (pendingCall \<Rightarrow> pendingCall) \<Rightarrow> Client \<Rightarrow> Client" where
  "pupd a f c = c\<lparr>c_heap := (c_heap c)[a := f (c_heap c ! a)]\<rparr>"

definition rlog :: "rpc_event \<Rightarrow> Client \<Rightarrow> Client" where
  "rlog e c = c\<lparr>c_log := c_log c @ [e]\<rparr>"

section \<open>Sections\<close>

datatype kind = K_Call | K_Stream

datatype rpc_action =
    R_Start
  | R_Spawn
  | R_CtxWait
  | R_Shutdown
  | R_WgWait
  | R_WgDone
  | R_CloseConn
  | R_ReadLoop
  | R_ReadFrame
  | R_ReadErr goerr
  | R_Route Frame
  | R_Send nat Frame
  | R_Unroute uint32
  | R_Forward nat
  | R_ForwardOut nat StreamFrame
  | R_CloseOut nat
  | R_Alloc kind uint8 uint8 bytes
  | R_AddPending kind uint32 uint8 uint8 bytes
  | R_WriteRequest kind nat uint32 uint8 uint8 bytes
  | R_Receive nat uint32 bool
  | R_Watch nat uint32
  | R_Finish nat
  | R_Remove uint32
  | R_App nat
  | R_Return rpc_event

text \<open>What a section leaves: the client, what its goroutine does next, and new goroutines.\<close>

type_synonym rpc_outcome = "Client \<times> rpc_action list \<times> rpc_action list list"

text \<open>The case that a \<^verbatim>\<open>select\<close> takes.\<close>

datatype sel = Sel_In | Sel_Out | Sel_Done | Sel_Ctx goerr | Sel_CloseCh

datatype rpc_input = J_None | J_Frame "goerr + Frame" | J_Sel sel

section \<open>pendingCall\<close>

text \<open>The forwarder: its outer and its inner \<^verbatim>\<open>select\<close>, and the deferred close.\<close>

definition forward :: "sel \<Rightarrow> nat \<Rightarrow> Client \<Rightarrow> rpc_outcome option" where
  "forward x a c =
     (case x of
        Sel_In \<Rightarrow>
          (case pc_inbox (pcall c a) of
             [] \<Rightarrow> None
           | f # q \<Rightarrow> Some (pupd a (\<lambda>p. p\<lparr>pc_inbox := q\<rparr>) c, [R_ForwardOut a f], []))
      | Sel_Done \<Rightarrow> if pc_done (pcall c a) then Some (c, [R_CloseOut a], []) else None
      | _ \<Rightarrow> None)"

definition forwardOut :: "sel \<Rightarrow> nat \<Rightarrow> StreamFrame \<Rightarrow> Client \<Rightarrow> rpc_outcome option" where
  "forwardOut x a f c =
     (case x of
        Sel_Out \<Rightarrow>
          if pc_outClosed (pcall c a) then Some (c\<lparr>c_panic := True\<rparr>, [], [])
          else if length (pc_out (pcall c a)) < chan_cap
          then Some (pupd a (\<lambda>p. p\<lparr>pc_out := pc_out p @ [f]\<rparr>) c,
                     [if sf_More f then R_Forward a else R_CloseOut a], [])
          else None
      | Sel_Done \<Rightarrow> if pc_done (pcall c a) then Some (c, [R_CloseOut a], []) else None
      | _ \<Rightarrow> None)"

definition closeOut :: "nat \<Rightarrow> Client \<Rightarrow> Client" where
  "closeOut a c =
     pupd a (\<lambda>p. p\<lparr>pc_outClosed := True\<rparr>) (c\<lparr>c_panic := c_panic c \<or> pc_outClosed (pcall c a)\<rparr>)"

definition pendingCall_send :: "sel \<Rightarrow> nat \<Rightarrow> StreamFrame \<Rightarrow> Client \<Rightarrow> Client option" where
  "pendingCall_send x a f c =
     (case x of
        Sel_In \<Rightarrow>
          if length (pc_inbox (pcall c a)) < chan_cap
          then Some (pupd a (\<lambda>p. p\<lparr>pc_inbox := pc_inbox p @ [f]\<rparr>) c) else None
      | Sel_Done \<Rightarrow> if pc_done (pcall c a) then Some c else None
      | _ \<Rightarrow> None)"

definition pendingCall_finish :: "pendingCall \<Rightarrow> pendingCall" where
  "pendingCall_finish p = p\<lparr>pc_done := True\<rparr>"

section \<open>Start and shutdown\<close>

definition Client_Start :: "Client \<Rightarrow> rpc_outcome" where
  "Client_Start c = (if c_cancel c then (c, [], []) else (c\<lparr>c_cancel := True\<rparr>, [R_Spawn], []))"

text \<open>The rest of \<^verbatim>\<open>Start\<close>, after its lock.\<close>

definition Client_spawn :: "Client \<Rightarrow> rpc_outcome" where
  "Client_spawn c = (c\<lparr>c_wg := c_wg c + 1\<rparr>, [], [[R_ReadLoop, R_WgDone], [R_CtxWait]])"

text \<open>
  \<^verbatim>\<open>shutdown\<close> up to its \<^verbatim>\<open>wg.Wait\<close>. It holds the lock, and what it does to
  channels and to the context commutes with what others can do meanwhile.
\<close>

definition Client_shutdown :: "Client \<Rightarrow> rpc_outcome" where
  "Client_shutdown c =
     (if c_closed c then (c, [], [])
      else
        ((fold (\<lambda>(i, a). pupd a pendingCall_finish) (c_pending c) c)
           \<lparr>c_closed := True, c_closeCh := True, c_panic := c_panic c \<or> c_closeCh c,
            c_cancelled := c_cancelled c \<or> c_cancel c, c_pending := []\<rparr>,
         [R_WgWait], []))"

definition Client_Close :: "rpc_action list" where
  "Client_Close = [R_Shutdown, R_CloseConn]"

definition closeConn :: "Client \<Rightarrow> Client" where
  "closeConn c = (if c_closer c then rlog Rv_ConnClosed c else c\<lparr>c_panic := True\<rparr>)"

definition Client_IsClosed :: "Client \<Rightarrow> bool" where
  "Client_IsClosed c = c_closed c"

section \<open>The table of calls\<close>

definition Client_allocMsgID :: "Client \<Rightarrow> uint32 \<times> Client" where
  "Client_allocMsgID c =
     (let next = c_msgID c + 1; msgID = (if next = 0 then 1 else next) in (msgID, c\<lparr>c_msgID := msgID\<rparr>))"

definition Client_addPending :: "uint32 \<Rightarrow> Client \<Rightarrow> nat \<times> Client" where
  "Client_addPending msgID c =
     (length (c_heap c),
      c\<lparr>c_heap := c_heap c @ [newPendingCall msgID],
        c_pending := AList.update msgID (length (c_heap c)) (c_pending c)\<rparr>)"

definition Client_removePending :: "uint32 \<Rightarrow> Client \<Rightarrow> Client" where
  "Client_removePending msgID c = c\<lparr>c_pending := AList.delete msgID (c_pending c)\<rparr>"

definition Client_writeRequest :: "uint32 \<Rightarrow> uint8 \<Rightarrow> uint8 \<Rightarrow> bytes \<Rightarrow> Client \<Rightarrow> goerr option \<times> Client" where
  "Client_writeRequest msgID msgType flags body c =
     (case WriteMVCPFrame \<lparr>f_Type = msgType, f_Flags = flags, f_MsgID = msgID, f_Body = body\<rparr> (c_wr c) of
        (e, w) \<Rightarrow> (e, c\<lparr>c_wr := w\<rparr>))"

section \<open>The read loop\<close>

text \<open>
  The look at the context, what follows an error and what follows a frame. The frame found for
  a call is a final one exactly when it is a response; \<open>R_Send\<close> hands it over and goes on.
\<close>

definition readLoop :: "Client \<Rightarrow> rpc_outcome" where
  "readLoop c = (c, if c_cancelled c then [] else [R_ReadFrame], [])"

definition readErr :: "goerr \<Rightarrow> Client \<Rightarrow> rpc_outcome" where
  "readErr err c =
     (if c_cancelled c then (c, [], [])
      else (if errors_Is err EOF then c else rlog (Rv_Log err) c, [R_Shutdown], []))"

definition routeFrame :: "Frame \<Rightarrow> Client \<Rightarrow> rpc_outcome" where
  "routeFrame frame c =
     (if c_closed c then (c, [], [])
      else
        (case map_of (c_pending c) (f_MsgID frame) of
           None \<Rightarrow> (c, [R_ReadLoop], [])
         | Some a \<Rightarrow> (pupd a (\<lambda>p. p\<lparr>pc_routed := pc_routed p @ [frame]\<rparr>) c, [R_Send a frame], [])))"

definition stream_frame :: "Frame \<Rightarrow> StreamFrame" where
  "stream_frame frame =
     (if f_Flags frame AND FlagResponse \<noteq> 0
      then \<lparr>sf_Type = f_Type frame, sf_Body = f_Body frame, sf_More = False\<rparr>
      else \<lparr>sf_Type = f_Type frame, sf_Body = f_Body frame, sf_More = True\<rparr>)"

definition deliver_frame :: "sel \<Rightarrow> nat \<Rightarrow> Frame \<Rightarrow> Client \<Rightarrow> rpc_outcome option" where
  "deliver_frame x a frame c =
     (case pendingCall_send x a (stream_frame frame) c of
        None \<Rightarrow> None
      | Some c1 \<Rightarrow>
          Some (c1, [if f_Flags frame AND FlagResponse \<noteq> 0 then R_Unroute (f_MsgID frame) else R_ReadLoop], []))"

section \<open>Call and Stream\<close>

text \<open>\<open>receive\<close> on the channel of a call; a closed channel gives what it still holds first.\<close>

definition Client_receive :: "sel \<Rightarrow> nat \<Rightarrow> Client \<Rightarrow> ((goerr + StreamFrame) \<times> Client) option" where
  "Client_receive x a c =
     (case x of
        Sel_Out \<Rightarrow>
          (case pc_out (pcall c a) of
             f # q \<Rightarrow> Some (Inr f, pupd a (\<lambda>p. p\<lparr>pc_out := q, pc_got := pc_got p @ [f]\<rparr>) c)
           | [] \<Rightarrow> if pc_outClosed (pcall c a) then Some (Inl (NewError ''mvcp rpc: call closed''), c) else None)
      | Sel_Ctx err \<Rightarrow> Some (Inl err, c)
      | Sel_CloseCh \<Rightarrow> if c_closeCh c then Some (Inl (NewError ''mvcp rpc: client closed''), c) else None
      | _ \<Rightarrow> None)"

definition Client_CallFlags :: "uint8 \<Rightarrow> uint8 \<Rightarrow> bytes \<Rightarrow> rpc_action list" where
  "Client_CallFlags msgType flags body = [R_Alloc K_Call msgType flags body]"

definition Client_Call :: "uint8 \<Rightarrow> bytes \<Rightarrow> rpc_action list" where
  "Client_Call msgType body = Client_CallFlags msgType 0 body"

definition Client_StreamFlags :: "uint8 \<Rightarrow> uint8 \<Rightarrow> bytes \<Rightarrow> rpc_action list" where
  "Client_StreamFlags msgType flags body = [R_Alloc K_Stream msgType flags body]"

definition Client_Stream :: "uint8 \<Rightarrow> bytes \<Rightarrow> rpc_action list" where
  "Client_Stream msgType body = Client_StreamFlags msgType 0 body"

text \<open>The deferred function of \<^verbatim>\<open>CallFlags\<close>, which the error path of \<^verbatim>\<open>StreamFlags\<close> repeats.\<close>

definition call_cleanup :: "nat \<Rightarrow> uint32 \<Rightarrow> rpc_action list" where
  "call_cleanup a msgID = [R_Finish a, R_Remove msgID]"

definition after_write :: "kind \<Rightarrow> nat \<Rightarrow> uint32 \<Rightarrow> goerr option \<Rightarrow> rpc_action list \<times> rpc_action list list" where
  "after_write k a msgID e =
     (case (k, e) of
        (K_Call, Some err) \<Rightarrow> (call_cleanup a msgID @ [R_Return (Rv_Call a (Inl err))], [])
      | (K_Call, None) \<Rightarrow> ([R_Receive a msgID True], [])
      | (K_Stream, Some err) \<Rightarrow> (call_cleanup a msgID @ [R_Return (Rv_Stream a (Some err))], [])
      | (K_Stream, None) \<Rightarrow> ([R_Return (Rv_Stream a None)], [[R_Watch a msgID]]))"

text \<open>What \<^verbatim>\<open>CallFlags\<close> does with what it received: a first frame of type STARTED is skipped.\<close>

definition after_receive :: "nat \<Rightarrow> uint32 \<Rightarrow> bool \<Rightarrow> goerr + StreamFrame \<Rightarrow> rpc_action list" where
  "after_receive a msgID first res =
     (case res of
        Inl err \<Rightarrow> call_cleanup a msgID @ [R_Return (Rv_Call a (Inl err))]
      | Inr f \<Rightarrow>
          if first \<and> sf_Type f = TypeSTARTED then [R_Receive a msgID False]
          else call_cleanup a msgID @ [R_Return (Rv_Call a (Inr \<lparr>rs_Type = sf_Type f, rs_Body = sf_Body f\<rparr>))])"

text \<open>The goroutine that \<^verbatim>\<open>StreamFlags\<close> leaves behind.\<close>

definition watch :: "sel \<Rightarrow> nat \<Rightarrow> uint32 \<Rightarrow> Client \<Rightarrow> rpc_outcome option" where
  "watch x a msgID c =
     (case x of
        Sel_Ctx err \<Rightarrow> Some (c, call_cleanup a msgID, [])
      | Sel_CloseCh \<Rightarrow> if c_closeCh c then Some (c, call_cleanup a msgID, []) else None
      | _ \<Rightarrow> None)"

section \<open>Running the sections\<close>

definition the_sel :: "rpc_input \<Rightarrow> sel option" where
  "the_sel i = (case i of J_Sel x \<Rightarrow> Some x | _ \<Rightarrow> None)"

text \<open>
  \<open>R_App a\<close> is the application that reads the channel which \<^verbatim>\<open>Stream\<close> returned; it may read
  at any time and as often as it likes.
\<close>

primrec rexec :: "rpc_input \<Rightarrow> rpc_action \<Rightarrow> Client \<Rightarrow> rpc_outcome option" where
  "rexec i R_Start c = Some (Client_Start c)"
| "rexec i R_Spawn c = Some (Client_spawn c)"
| "rexec i R_CtxWait c = (case i of J_Sel (Sel_Ctx err) \<Rightarrow> Some (c, [R_Shutdown], []) | _ \<Rightarrow> None)"
| "rexec i R_Shutdown c = Some (Client_shutdown c)"
| "rexec i R_WgWait c = (if c_wg c = 0 then Some (c, [], []) else None)"
| "rexec i R_WgDone c = Some (c\<lparr>c_wg := c_wg c - 1, c_panic := c_panic c \<or> c_wg c = 0\<rparr>, [], [])"
| "rexec i R_CloseConn c = Some (closeConn c, [], [])"
| "rexec i R_ReadLoop c = Some (readLoop c)"
| "rexec i R_ReadFrame c =
     (case i of
        J_Frame (Inl err) \<Rightarrow> Some (c, [R_ReadErr err], [])
      | J_Frame (Inr frame) \<Rightarrow> Some (c, [R_Route frame], [])
      | _ \<Rightarrow> None)"
| "rexec i (R_ReadErr err) c = Some (readErr err c)"
| "rexec i (R_Route frame) c = Some (routeFrame frame c)"
| "rexec i (R_Send a frame) c = Option.bind (the_sel i) (\<lambda>x. deliver_frame x a frame c)"
| "rexec i (R_Unroute msgID) c = Some (Client_removePending msgID c, [R_ReadLoop], [])"
| "rexec i (R_Forward a) c = Option.bind (the_sel i) (\<lambda>x. forward x a c)"
| "rexec i (R_ForwardOut a f) c = Option.bind (the_sel i) (\<lambda>x. forwardOut x a f c)"
| "rexec i (R_CloseOut a) c = Some (closeOut a c, [], [])"
| "rexec i (R_Alloc k msgType flags body) c =
     (case Client_allocMsgID c of (msgID, c1) \<Rightarrow> Some (c1, [R_AddPending k msgID msgType flags body], []))"
| "rexec i (R_AddPending k msgID msgType flags body) c =
     (case Client_addPending msgID c of
        (a, c1) \<Rightarrow> Some (c1, [R_WriteRequest k a msgID msgType flags body], [[R_Forward a]]))"
| "rexec i (R_WriteRequest k a msgID msgType flags body) c =
     (case Client_writeRequest msgID msgType flags body c of (e, c1) \<Rightarrow> Some (c1, after_write k a msgID e))"
| "rexec i (R_Receive a msgID first) c =
     Option.bind (the_sel i) (\<lambda>x.
       case Client_receive x a c of None \<Rightarrow> None | Some (res, c1) \<Rightarrow> Some (c1, after_receive a msgID first res, []))"
| "rexec i (R_Watch a msgID) c = Option.bind (the_sel i) (\<lambda>x. watch x a msgID c)"
| "rexec i (R_Finish a) c = Some (pupd a pendingCall_finish c, [], [])"
| "rexec i (R_Remove msgID) c = Some (Client_removePending msgID c, [], [])"
| "rexec i (R_App a) c =
     (if the_sel i = Some Sel_Out
      then (case Client_receive Sel_Out a c of
              None \<Rightarrow> None
            | Some (Inr f, c1) \<Rightarrow> Some (rlog (Rv_Recv a (Some f)) c1, [R_App a], [])
            | Some (Inl err, c1) \<Rightarrow> Some (rlog (Rv_Recv a None) c1, [R_App a], []))
      else None)"
| "rexec i (R_Return ev) c = Some (rlog ev c, [], (case ev of Rv_Stream a None \<Rightarrow> [[R_App a]] | _ \<Rightarrow> []))"

section \<open>Interleaving\<close>

type_synonym rpc_conf = "Client \<times> rpc_action list list"

inductive rstep :: "rpc_conf \<Rightarrow> rpc_conf \<Rightarrow> bool" where
  run: "rstep (c, ts) (c', ts[i := k @ rest] @ new)"
    if "i < length ts" and "ts ! i = act # rest" and "rexec inp act c = Some (c', k, new)"
| call_Start: "rstep (c, ts) (c, ts @ [[R_Start]])"
| call_Close: "rstep (c, ts) (c, ts @ [Client_Close])"
| call_Call: "rstep (c, ts) (c, ts @ [Client_CallFlags msgType flags body])"
| call_Stream: "rstep (c, ts) (c, ts @ [Client_StreamFlags msgType flags body])"

inductive rpc_reachable :: "rpc_conf \<Rightarrow> bool" where
  start: "rpc_reachable (NewClient closer conn, [])"
| step: "rpc_reachable y" if "rpc_reachable x" and "rstep x y"

inductive_cases rstep_cases: "rstep (c, ts) y"

end
