(* ===== verification/RPC_Invariant.thy ===== *)
theory RPC_Invariant
  imports RPC_Client "HOL-Library.Sublist"
begin

text \<open>
  Invariants of the RPC client under every interleaving of its goroutines, with the locale \<open>client_invariant\<close>
  that lifts the preservation by each section to all reachable configurations.
\<close>

section \<open>Invariants of the interleaving\<close>

locale client_invariant =
  fixes I :: "Client \<Rightarrow> rpc_action multiset \<Rightarrow> bool"
    and J :: "Client \<Rightarrow> rpc_action multiset \<Rightarrow> bool"
  assumes J: "rpc_reachable (c, ts) \<Longrightarrow> J c (pool ts)"
    and start: "I (NewClient closer conn) {#}"
    and exec: "I c (add_mset act P) \<Longrightarrow> J c (add_mset act P) \<Longrightarrow> rexec i act c = Some (c', k, new) \<Longrightarrow>
      I c' (P + mset k + pool new)"
    and call: "I c P \<Longrightarrow> I c (add_mset R_Start P)" "I c P \<Longrightarrow> I c (add_mset R_Shutdown (add_mset R_CloseConn P))"
      "I c P \<Longrightarrow> I c (add_mset (R_Alloc kd msgType flags body) P)"
begin

lemma reachable_pool: "rpc_reachable x \<Longrightarrow> I (fst x) (pool (snd x))"
proof (induction rule: rpc_reachable.induct)
  case (start closer conn)
  then show ?case by (simp add: client_invariant.start [OF client_invariant_axioms])
next
  case (step x y)
  from step.hyps(2) step.hyps(1) step.IH show ?case
  proof (cases rule: rstep.cases)
    case (run i ts act rest inp c c' k new)
    obtain P where P: "pool ts = add_mset act P" "pool (ts[i := k @ rest] @ new) = P + mset k + pool new"
      using pool_run [OF run(3,4)] by blast
    have "I c (pool ts)" "J c (pool ts)"
      using step.hyps(1) step.IH J [of c ts] by (simp_all add: run(1))
    then have "I c (add_mset act P)" "J c (add_mset act P)"
      by (simp_all only: P(1))
    then have "I c' (P + mset k + pool new)"
      using run(5) by (rule exec)
    then show ?thesis
      by (simp only: run(2) P(2) fst_conv snd_conv)
  next
    case (call_Start c ts)
    then have "I c (pool ts)" using step.IH by simp
    from call(1) [OF this] show ?thesis by (simp add: call_Start(2) pool_def)
  next
    case (call_Close c ts)
    then have "I c (pool ts)" using step.IH by simp
    from call(2) [OF this] show ?thesis by (simp add: call_Close(2) pool_def Client_Close_def add_mset_commute)
  next
    case (call_Call c ts msgType flags body)
    then have "I c (pool ts)" using step.IH by simp
    from call(3) [OF this] show ?thesis by (simp add: call_Call(2) pool_def Client_CallFlags_def)
  next
    case (call_Stream c ts msgType flags body)
    then have "I c (pool ts)" using step.IH by simp
    from call(3) [OF this] show ?thesis by (simp add: call_Stream(2) pool_def Client_StreamFlags_def)
  qed
qed

lemma holds: "rpc_reachable (c, ts) \<Longrightarrow> I c (pool ts)"
  using reachable_pool by fastforce

end

section \<open>Calls and addresses\<close>

abbreviation ncalls :: "Client \<Rightarrow> nat" where
  "ncalls c \<equiv> length (c_heap c)"

lemma pupd_simps [simp]:
  "ncalls (pupd a f c) = ncalls c" "c_closer (pupd a f c) = c_closer c" "c_wr (pupd a f c) = c_wr c"
  "c_msgID (pupd a f c) = c_msgID c" "c_pending (pupd a f c) = c_pending c" "c_closed (pupd a f c) = c_closed c"
  "c_closeCh (pupd a f c) = c_closeCh c" "c_cancel (pupd a f c) = c_cancel c"
  "c_cancelled (pupd a f c) = c_cancelled c" "c_wg (pupd a f c) = c_wg c" "c_log (pupd a f c) = c_log c"
  "c_panic (pupd a f c) = c_panic c"
  by (simp_all add: pupd_def)

lemma rlog_simps [simp]:
  "c_heap (rlog e c) = c_heap c" "c_closer (rlog e c) = c_closer c" "c_wr (rlog e c) = c_wr c"
  "c_msgID (rlog e c) = c_msgID c" "c_pending (rlog e c) = c_pending c" "c_closed (rlog e c) = c_closed c"
  "c_closeCh (rlog e c) = c_closeCh c" "c_cancel (rlog e c) = c_cancel c"
  "c_cancelled (rlog e c) = c_cancelled c" "c_wg (rlog e c) = c_wg c" "c_log (rlog e c) = c_log c @ [e]"
  "c_panic (rlog e c) = c_panic c"
  by (simp_all add: rlog_def)

lemma pcall_pupd: "a < ncalls c \<Longrightarrow> pcall (pupd a f c) b = (if b = a then f (pcall c a) else pcall c b)"
  by (simp add: pcall_def pupd_def)

lemma pcall_simps [simp]:
  "pcall (rlog e c) a = pcall c a" "pcall (c\<lparr>c_wr := w\<rparr>) a = pcall c a" "pcall (c\<lparr>c_msgID := i\<rparr>) a = pcall c a"
  "pcall (c\<lparr>c_pending := m\<rparr>) a = pcall c a" "pcall (c\<lparr>c_closed := b\<rparr>) a = pcall c a"
  "pcall (c\<lparr>c_closeCh := b\<rparr>) a = pcall c a" "pcall (c\<lparr>c_cancel := b\<rparr>) a = pcall c a"
  "pcall (c\<lparr>c_cancelled := b\<rparr>) a = pcall c a" "pcall (c\<lparr>c_wg := n\<rparr>) a = pcall c a" "pcall (c\<lparr>c_panic := b\<rparr>) a = pcall c a"
  by (simp_all add: pcall_def rlog_def)

lemma pcall_new_old [simp]: "a < ncalls c \<Longrightarrow> pcall (c\<lparr>c_heap := c_heap c @ [p]\<rparr>) a = pcall c a"
  and pcall_new_new [simp]: "pcall (c\<lparr>c_heap := c_heap c @ [p]\<rparr>) (ncalls c) = p"
  by (simp_all add: pcall_def nth_append)

text \<open>Finishing all calls of the table.\<close>

abbreviation finish_all :: "(uint32, nat) gomap \<Rightarrow> Client \<Rightarrow> Client" where
  "finish_all m \<equiv> fold (\<lambda>(i, a). pupd a pendingCall_finish) m"

lemma finish_all_simps [simp]:
  "ncalls (finish_all m c) = ncalls c" "c_closer (finish_all m c) = c_closer c" "c_wr (finish_all m c) = c_wr c"
  "c_msgID (finish_all m c) = c_msgID c" "c_pending (finish_all m c) = c_pending c"
  "c_cancel (finish_all m c) = c_cancel c"
  "c_wg (finish_all m c) = c_wg c" "c_log (finish_all m c) = c_log c"
  by (induction m arbitrary: c) auto

lemma pcall_finish_all:
  "\<forall>(i, a) \<in> set m. a < ncalls c \<Longrightarrow>
    pcall (finish_all m c) a = (if a \<in> snd ` set m then pendingCall_finish (pcall c a) else pcall c a)"
proof (induction m arbitrary: c)
  case (Cons x m)
  then show ?case
    by (cases x) (auto simp: pcall_pupd pendingCall_finish_def split: if_splits)
qed simp

lemma pendingCall_finish_simps [simp]:
  "pc_inbox (pendingCall_finish p) = pc_inbox p" "pc_out (pendingCall_finish p) = pc_out p"
  "pc_outClosed (pendingCall_finish p) = pc_outClosed p" "pc_done (pendingCall_finish p) = True"
  "pc_id (pendingCall_finish p) = pc_id p" "pc_routed (pendingCall_finish p) = pc_routed p"
  "pc_got (pendingCall_finish p) = pc_got p"
  by (simp_all add: pendingCall_finish_def)

lemma newPendingCall_simps [simp]:
  "pc_inbox (newPendingCall i) = []" "pc_out (newPendingCall i) = []" "pc_outClosed (newPendingCall i) = False"
  "pc_done (newPendingCall i) = False" "pc_id (newPendingCall i) = i" "pc_routed (newPendingCall i) = []"
  "pc_got (newPendingCall i) = []"
  by (simp_all add: newPendingCall_def)

text \<open>The call a section works on.\<close>

fun rv_addr :: "rpc_event \<Rightarrow> nat option" where
  "rv_addr (Rv_Call a r) = Some a"
| "rv_addr (Rv_Stream a r) = Some a"
| "rv_addr _ = None"

fun raddr :: "rpc_action \<Rightarrow> nat option" where
  "raddr (R_Send a f) = Some a"
| "raddr (R_Forward a) = Some a"
| "raddr (R_ForwardOut a f) = Some a"
| "raddr (R_CloseOut a) = Some a"
| "raddr (R_WriteRequest k a m t fl b) = Some a"
| "raddr (R_Receive a m b) = Some a"
| "raddr (R_Watch a m) = Some a"
| "raddr (R_Finish a) = Some a"
| "raddr (R_App a) = Some a"
| "raddr (R_Return ev) = rv_addr ev"
| "raddr _ = None"

definition raddr_ok :: "Client \<Rightarrow> rpc_action multiset \<Rightarrow> bool" where
  "raddr_ok c P \<longleftrightarrow> (\<forall>act \<in># P. \<forall>a. raddr act = Some a \<longrightarrow> a < ncalls c)"

lemma raddr_ok_add [simp]: "raddr_ok c (add_mset act P) \<longleftrightarrow> (\<forall>a. raddr act = Some a \<longrightarrow> a < ncalls c) \<and> raddr_ok c P"
  and raddr_ok_plus [simp]: "raddr_ok c (P + Q) \<longleftrightarrow> raddr_ok c P \<and> raddr_ok c Q"
  and raddr_ok_empty [simp]: "raddr_ok c {#}"
  by (auto simp: raddr_ok_def)

lemma raddr_ok_mono: "raddr_ok c P \<Longrightarrow> ncalls c \<le> ncalls c' \<Longrightarrow> raddr_ok c' P"
  by (fastforce simp: raddr_ok_def)

definition calls_ok :: "Client \<Rightarrow> bool" where
  "calls_ok c \<longleftrightarrow> (\<forall>(i, a) \<in> set (c_pending c). a < ncalls c \<and> pc_id (pcall c a) = i) \<and> c_closeCh c = c_closed c"

text \<open>The sections of the read loop: there is at most one.\<close>

fun reader_act :: "rpc_action \<Rightarrow> bool" where
  "reader_act R_Spawn = True"
| "reader_act R_ReadLoop = True"
| "reader_act R_ReadFrame = True"
| "reader_act (R_ReadErr e) = True"
| "reader_act (R_Route f) = True"
| "reader_act (R_Send a f) = True"
| "reader_act (R_Unroute i) = True"
| "reader_act _ = False"

definition readers :: "rpc_action multiset \<Rightarrow> nat" where
  "readers P = size (filter_mset reader_act P)"

lemma readers_simps [simp]:
  "readers {#} = 0" "readers (add_mset x P) = (if reader_act x then Suc (readers P) else readers P)"
  "readers (P + Q) = readers P + readers Q"
  by (simp_all add: readers_def)

lemma readers_zero: "readers P = 0 \<Longrightarrow> x \<in># P \<Longrightarrow> \<not> reader_act x"
  by (induction P) (auto split: if_splits)

definition base_inv :: "Client \<Rightarrow> rpc_action multiset \<Rightarrow> bool" where
  "base_inv c P \<longleftrightarrow> calls_ok c \<and> raddr_ok c P \<and> readers P \<le> (if c_cancel c then 1 else 0) \<and> c_wg c = count P R_WgDone"

lemmas rpc_defs =
  Client_Start_def Client_spawn_def closeConn_def readLoop_def readErr_def routeFrame_def deliver_frame_def
  pendingCall_send_def forward_def forwardOut_def closeOut_def Client_allocMsgID_def Client_addPending_def
  Client_removePending_def Client_writeRequest_def after_write_def Client_receive_def after_receive_def call_cleanup_def
  watch_def the_sel_def Let_def

lemmas rpc_splits =
  if_splits option.splits sum.splits prod.splits list.splits sel.splits rpc_input.splits kind.splits rpc_event.splits

lemma shutdown_cases:
  assumes "Client_shutdown c = (c', k, new)" and "calls_ok c"
  obtains (closed) "c_closed c" "c' = c" "k = []" "new = []"
  | (closing) "\<not> c_closed c" "k = [R_WgWait]" "new = []"
      "ncalls c' = ncalls c" "c_pending c' = []" "c_closed c'" "c_closeCh c'" "c_cancel c' = c_cancel c" "c_wg c' = c_wg c"
      "c_log c' = c_log c" "c_panic c' = c_panic c" "c_closer c' = c_closer c" "c_wr c' = c_wr c"
      "\<And>a. pcall c' a = (if a \<in> snd ` set (c_pending c) then pendingCall_finish (pcall c a) else pcall c a)"
proof (cases "c_closed c")
  case True
  with assms show ?thesis by (intro closed) (auto simp: Client_shutdown_def)
next
  case False
  have "\<forall>(i, a) \<in> set (c_pending c). a < ncalls c"
    using assms(2) by (auto simp: calls_ok_def)
  then have "pcall (finish_all (c_pending c) c) a =
      (if a \<in> snd ` set (c_pending c) then pendingCall_finish (pcall c a) else pcall c a)" for a
    by (rule pcall_finish_all)
  moreover have "c' = (finish_all (c_pending c) c)\<lparr>c_closed := True, c_closeCh := True, c_panic := c_panic c,
      c_cancelled := c_cancelled c \<or> c_cancel c, c_pending := []\<rparr>" "k = [R_WgWait]" "new = []"
    using False assms by (auto simp: Client_shutdown_def calls_ok_def)
  ultimately show ?thesis
    using False by (intro closing) simp_all
qed

lemma calls_ok_simps [simp]:
  "calls_ok (rlog e c) = calls_ok c" "calls_ok (c\<lparr>c_wr := w\<rparr>) = calls_ok c" "calls_ok (c\<lparr>c_msgID := i\<rparr>) = calls_ok c"
  "calls_ok (c\<lparr>c_cancel := b\<rparr>) = calls_ok c" "calls_ok (c\<lparr>c_wg := n\<rparr>) = calls_ok c" "calls_ok (c\<lparr>c_panic := b\<rparr>) = calls_ok c"
  by (simp_all add: calls_ok_def)

lemma calls_ok_pupd: "calls_ok c \<Longrightarrow> a < ncalls c \<Longrightarrow> (\<And>p. pc_id (f p) = pc_id p) \<Longrightarrow> calls_ok (pupd a f c)"
  by (fastforce simp: calls_ok_def pcall_pupd)

lemma pending_lookup: "calls_ok c \<Longrightarrow> map_of (c_pending c) i = Some a \<Longrightarrow> a < ncalls c \<and> pc_id (pcall c a) = i"
  by (auto simp: calls_ok_def dest!: map_of_SomeD)

lemma set_update_subset': "x \<in> set (AList.update k v m) \<Longrightarrow> x = (k, v) \<or> x \<in> set m"
  by (induction m) (auto split: if_splits)

lemma set_delete_subset': "x \<in> set (AList.delete k m) \<Longrightarrow> x \<in> set m"
  by (auto simp: AList.delete_eq)

text \<open>The heap only grows, and a call keeps its ID.\<close>

lemma rexec_grows:
  assumes "rexec i act c = Some (c', k, new)" and "calls_ok c" and "\<forall>a. raddr act = Some a \<longrightarrow> a < ncalls c"
  shows "ncalls c \<le> ncalls c' \<and> (\<forall>a < ncalls c. pc_id (pcall c' a) = pc_id (pcall c a))"
proof (cases act)
  case R_Shutdown
  with assms show ?thesis by (auto elim: shutdown_cases)
qed (use assms in \<open>auto simp: rpc_defs pcall_pupd split: rpc_splits dest: pending_lookup\<close>)

lemma rexec_addr:
  assumes "rexec i act c = Some (c', k, new)" and "calls_ok c" and "\<forall>a. raddr act = Some a \<longrightarrow> a < ncalls c"
  shows "raddr_ok c' (mset k + pool new)"
proof (cases act)
  case R_Shutdown
  with assms show ?thesis by (auto elim: shutdown_cases)
qed (use assms in \<open>auto simp: rpc_defs pcall_pupd split: rpc_splits dest: pending_lookup\<close>)

lemma rexec_calls_ok:
  assumes "rexec i act c = Some (c', k, new)" and "calls_ok c" and "\<forall>a. raddr act = Some a \<longrightarrow> a < ncalls c"
  shows "calls_ok c'"
proof (cases act)
  case R_Shutdown
  with assms show ?thesis by (auto simp: calls_ok_def elim!: shutdown_cases)
next
  case (R_AddPending kd m t f b)
  with assms show ?thesis by (fastforce simp: rpc_defs calls_ok_def dest!: set_update_subset')
next
  case (R_Unroute m)
  with assms show ?thesis by (fastforce simp: rpc_defs calls_ok_def dest!: set_delete_subset')
next
  case (R_Remove m)
  with assms show ?thesis by (fastforce simp: rpc_defs calls_ok_def dest!: set_delete_subset')
next
  case (R_Route f)
  with assms show ?thesis
    by (auto simp: rpc_defs intro!: calls_ok_pupd split: rpc_splits dest: pending_lookup)
qed (use assms in \<open>auto simp: rpc_defs pendingCall_finish_def calls_ok_pupd split: rpc_splits\<close>)

lemma rexec_readers:
  assumes "rexec i act c = Some (c', k, new)" and "calls_ok c"
  shows "readers (mset k + pool new) + (if c_cancel c then 1 else 0)
    \<le> (if reader_act act then 1 else 0) + (if c_cancel c' then 1 else 0) \<and> (c_cancel c \<longrightarrow> c_cancel c')"
proof (cases act)
  case R_Shutdown
  with assms show ?thesis by (auto elim!: shutdown_cases)
qed (use assms in \<open>auto simp: rpc_defs split: rpc_splits\<close>)

lemma rexec_wg:
  assumes "rexec i act c = Some (c', k, new)" and "calls_ok c" and "c_wg c = count (add_mset act P) R_WgDone"
  shows "c_wg c' = count (P + mset k + pool new) R_WgDone"
proof (cases act)
  case R_Shutdown
  with assms show ?thesis by (auto elim!: shutdown_cases)
qed (use assms in \<open>auto simp: rpc_defs split: rpc_splits\<close>)

interpretation base_ci: client_invariant base_inv "\<lambda>c P. True"
proof unfold_locales
  fix c act P i c' k new
  assume inv: "base_inv c (add_mset act P)" and ex: "rexec i act c = Some (c', k, new)"
  then have a: "\<forall>a. raddr act = Some a \<longrightarrow> a < ncalls c" and t: "calls_ok c" and P: "raddr_ok c P"
    by (simp_all add: base_inv_def)
  have "raddr_ok c' P"
    using P rexec_grows [OF ex t a] by (auto intro: raddr_ok_mono)
  moreover have "readers (P + mset k + pool new) \<le> (if c_cancel c' then 1 else 0)"
    using inv rexec_readers [OF ex t] by (auto simp: base_inv_def split: if_splits)
  ultimately show "base_inv c' (P + mset k + pool new)"
    using rexec_addr [OF ex t a] rexec_calls_ok [OF ex t a] rexec_wg [OF ex t, of P] inv
    by (simp add: base_inv_def)
qed (auto simp: base_inv_def calls_ok_def NewClient_def split: if_splits)

end
