(* ===== verification/RPC_Delivery.thy ===== *)
theory RPC_Delivery
  imports RPC_Invariant
begin

text \<open>
  What happens to the frames that the read loop found for a call: on their way they are held by the read loop,
  by the channel \<^verbatim>\<open>inbox\<close>, by the forwarder, by the channel \<^verbatim>\<open>out\<close>, and in
  the end by the consumer.
\<close>

section \<open>Frames in flight\<close>

fun fwd_of :: "rpc_action \<Rightarrow> nat option" where
  "fwd_of (R_Forward a) = Some a"
| "fwd_of (R_ForwardOut a f) = Some a"
| "fwd_of (R_CloseOut a) = Some a"
| "fwd_of _ = None"

text \<open>What the forwarder of a call and the read loop hold for it.\<close>

fun fo :: "nat \<Rightarrow> rpc_action \<Rightarrow> StreamFrame multiset" where
  "fo a (R_ForwardOut b f) = (if b = a then {#f#} else {#})"
| "fo a _ = {#}"

definition fhand :: "nat \<Rightarrow> rpc_action multiset \<Rightarrow> StreamFrame multiset" where
  "fhand a P = (\<Sum>x \<in># P. fo a x)"

fun so :: "nat \<Rightarrow> rpc_action \<Rightarrow> Frame multiset" where
  "so a (R_Send b f) = (if b = a then {#f#} else {#})"
| "so a _ = {#}"

definition shand :: "nat \<Rightarrow> rpc_action multiset \<Rightarrow> Frame multiset" where
  "shand a P = (\<Sum>x \<in># P. so a x)"

lemma hand_simps [simp]:
  "fhand a {#} = {#}" "fhand a (add_mset x P) = fo a x + fhand a P" "fhand a (P + Q) = fhand a P + fhand a Q"
  "shand a {#} = {#}" "shand a (add_mset x P) = so a x + shand a P" "shand a (P + Q) = shand a P + shand a Q"
  by (simp_all add: fhand_def shand_def)

lemma fhand_empty: "cnt fwd_of a P = 0 \<Longrightarrow> fhand a P = {#}"
proof (induction P)
  case (add x P)
  then show ?case by (cases x) (auto split: if_splits)
qed simp

lemma shand_empty: "readers P = 0 \<Longrightarrow> shand a P = {#}"
proof (induction P)
  case (add x P)
  then show ?case by (cases x) auto
qed simp

lemma hand_fresh:
  assumes "raddr_ok c P" and "ncalls c \<le> a"
  shows "cnt fwd_of a P = 0" "shand a P = {#}"
proof -
  show "cnt fwd_of a P = 0"
    using assms unfolding cnt_zero raddr_ok_def by (auto elim!: fwd_of.elims)
  have "so a x = {#}" if "x \<in># P" for x
    using assms that by (cases x) (auto simp: raddr_ok_def)
  then show "shand a P = {#}"
    by (simp add: shand_def)
qed

section \<open>The cases of the selects\<close>

lemma forward_iff:
  "forward x a c = Some r \<longleftrightarrow>
     (\<exists>f q. x = Sel_In \<and> pc_inbox (pcall c a) = f # q \<and> r = (pupd a (\<lambda>p. p\<lparr>pc_inbox := q\<rparr>) c, [R_ForwardOut a f], []))
     \<or> x = Sel_Done \<and> pc_done (pcall c a) \<and> r = (c, [R_CloseOut a], [])"
  by (cases x) (auto simp: forward_def split: list.splits)

lemma forwardOut_iff:
  "\<not> pc_outClosed (pcall c a) \<Longrightarrow>
   forwardOut x a f c = Some r \<longleftrightarrow>
     x = Sel_Out \<and> length (pc_out (pcall c a)) < chan_cap
       \<and> r = (pupd a (\<lambda>p. p\<lparr>pc_out := pc_out p @ [f]\<rparr>) c, [if sf_More f then R_Forward a else R_CloseOut a], [])
     \<or> x = Sel_Done \<and> pc_done (pcall c a) \<and> r = (c, [R_CloseOut a], [])"
  by (cases x) (auto simp: forwardOut_def)

lemma send_iff:
  "pendingCall_send x a f c = Some c1 \<longleftrightarrow>
     x = Sel_In \<and> length (pc_inbox (pcall c a)) < chan_cap \<and> c1 = pupd a (\<lambda>p. p\<lparr>pc_inbox := pc_inbox p @ [f]\<rparr>) c
     \<or> x = Sel_Done \<and> pc_done (pcall c a) \<and> c1 = c"
  by (cases x) (auto simp: pendingCall_send_def)

lemma receive_iff:
  "Client_receive x a c = Some (res, c1) \<longleftrightarrow>
     (\<exists>f q. x = Sel_Out \<and> pc_out (pcall c a) = f # q \<and> res = Inr f
        \<and> c1 = pupd a (\<lambda>p. p\<lparr>pc_out := q, pc_got := pc_got p @ [f]\<rparr>) c)
     \<or> (\<exists>e. res = Inl e \<and> c1 = c
        \<and> (x = Sel_Out \<and> pc_out (pcall c a) = [] \<and> pc_outClosed (pcall c a) \<and> e = NewError ''mvcp rpc: call closed''
           \<or> x = Sel_Ctx e \<or> x = Sel_CloseCh \<and> c_closeCh c \<and> e = NewError ''mvcp rpc: client closed''))"
  by (cases x) (auto simp: Client_receive_def split: list.splits)

lemma watch_iff:
  "watch x a m c = Some r \<longleftrightarrow> ((\<exists>e. x = Sel_Ctx e) \<or> x = Sel_CloseCh \<and> c_closeCh c) \<and> r = (c, [R_Finish a, R_Remove m], [])"
  by (cases x) (auto simp: watch_def call_cleanup_def)

lemma deliver_frame_iff:
  "deliver_frame x a f c = Some r \<longleftrightarrow>
     (\<exists>c1. pendingCall_send x a (stream_frame f) c = Some c1
        \<and> r = (c1, [if f_Flags f AND FlagResponse \<noteq> 0 then R_Unroute (f_MsgID f) else R_ReadLoop], []))"
  by (auto simp: deliver_frame_def split: option.splits)

lemma R_Receive_iff:
  "rexec i (R_Receive a m first) c = Some r \<longleftrightarrow>
     (\<exists>x res c1. the_sel i = Some x \<and> Client_receive x a c = Some (res, c1) \<and> r = (c1, after_receive a m first res, []))"
  by (cases "the_sel i") (auto split: option.splits)

lemma R_App_iff:
  "rexec i (R_App a) c = Some r \<longleftrightarrow>
     (\<exists>res c1. the_sel i = Some Sel_Out \<and> Client_receive Sel_Out a c = Some (res, c1)
        \<and> r = (rlog (Rv_Recv a (case res of Inl e \<Rightarrow> None | Inr f \<Rightarrow> Some f)) c1, [R_App a], []))"
  by (auto split: option.splits sum.splits)

lemmas select_iffs =
  Option.bind_eq_Some_conv forward_iff forwardOut_iff deliver_frame_iff send_iff receive_iff watch_iff R_Receive_iff R_App_iff

section \<open>Nothing is lost\<close>

text \<open>An abandoned call may lose frames, but never reorders or repeats them.\<close>

definition agrees :: "bool \<Rightarrow> 'a list \<Rightarrow> 'a list \<Rightarrow> bool" where
  "agrees abandoned xs ys \<longleftrightarrow> subseq xs ys \<and> (\<not> abandoned \<longrightarrow> xs = ys)"

definition chain :: "pendingCall \<Rightarrow> nat \<Rightarrow> StreamFrame multiset \<Rightarrow> Frame multiset \<Rightarrow> bool" where
  "chain p n F S \<longleftrightarrow> n = (if pc_outClosed p then 0 else 1)
     \<and> (\<exists>hf hs. F = mset hf \<and> S = mset hs
          \<and> agrees (pc_done p) (pc_got p @ pc_out p @ hf @ pc_inbox p @ map stream_frame hs) (map stream_frame (pc_routed p)))"

lemma chainI:
  assumes "agrees (pc_done p) (pc_got p @ pc_out p @ hf @ pc_inbox p @ map stream_frame hs) (map stream_frame (pc_routed p))"
    and "n = (if pc_outClosed p then 0 else 1)"
  shows "chain p n (mset hf) (mset hs)"
  using assms by (auto simp: chain_def)

lemma agrees_drop: "agrees d (xs @ ys @ zs) us \<Longrightarrow> d \<Longrightarrow> agrees d (xs @ zs) us"
  by (auto simp: agrees_def) (metis list_emb_append_mono list_emb_append2 subseq_order.order_trans subseq_order.order_refl)

lemma agrees_append: "agrees d xs ys \<Longrightarrow> agrees d (xs @ [z]) (ys @ [z])"
  by (simp add: agrees_def list_emb_append_mono)

lemma chain_new: "chain (newPendingCall i) (Suc 0) {#} {#}"
  using chainI [of "newPendingCall i" "[]" "[]" "Suc 0"] by (simp add: agrees_def)

lemma chain_finish: "chain p n F S \<Longrightarrow> chain (pendingCall_finish p) n F S"
  by (fastforce simp: chain_def agrees_def)

lemma chain_route:
  assumes "chain p n F {#}"
  shows "chain (p\<lparr>pc_routed := pc_routed p @ [f]\<rparr>) n F {#f#}"
proof -
  obtain hf where hf: "F = mset hf" "n = (if pc_outClosed p then 0 else 1)"
    "agrees (pc_done p) (pc_got p @ pc_out p @ hf @ pc_inbox p) (map stream_frame (pc_routed p))"
    using assms by (auto simp: chain_def)
  then show ?thesis
    using agrees_append [OF hf(3), of "stream_frame f"] chainI [of "p\<lparr>pc_routed := pc_routed p @ [f]\<rparr>" hf "[f]" n]
    by simp
qed

lemma chain_send:
  assumes "chain p n F {#f#}"
  shows "chain (p\<lparr>pc_inbox := pc_inbox p @ [stream_frame f]\<rparr>) n F {#}"
  using assms by (auto simp: chain_def)

lemma chain_send_done:
  assumes "chain p n F {#f#}" and "pc_done p"
  shows "chain p n F {#}"
proof -
  obtain hf where "F = mset hf" "n = (if pc_outClosed p then 0 else 1)"
    "agrees True (pc_got p @ pc_out p @ hf @ pc_inbox p @ [stream_frame f]) (map stream_frame (pc_routed p))"
    using assms by (auto simp: chain_def)
  then show ?thesis
    using assms(2) agrees_drop [of True "pc_got p @ pc_out p @ hf @ pc_inbox p" "[stream_frame f]" "[]"]
    by (auto simp: chain_def)
qed

lemma chain_forward:
  assumes "chain p n {#} S" and "pc_inbox p = f # q"
  shows "chain (p\<lparr>pc_inbox := q\<rparr>) n {#f#} S"
  using assms by (auto simp: chain_def intro!: exI [of _ "[f]"])

lemma chain_forwardOut:
  assumes "chain p n {#f#} S"
  shows "chain (p\<lparr>pc_out := pc_out p @ [f]\<rparr>) n {#} S"
  using assms by (auto simp: chain_def)

lemma chain_forward_done:
  assumes "chain p n {#f#} S" and "pc_done p"
  shows "chain p n {#} S"
proof -
  obtain hs where "S = mset hs" "n = (if pc_outClosed p then 0 else 1)"
    "agrees True (pc_got p @ pc_out p @ [f] @ pc_inbox p @ map stream_frame hs) (map stream_frame (pc_routed p))"
    using assms by (auto simp: chain_def)
  then show ?thesis
    using assms(2) agrees_drop [of True "pc_got p @ pc_out p" "[f]" "pc_inbox p @ map stream_frame hs"]
    by (auto simp: chain_def)
qed

lemma chain_closeOut: "chain p n {#} S \<Longrightarrow> n = Suc 0 \<Longrightarrow> chain (p\<lparr>pc_outClosed := True\<rparr>) 0 {#} S"
  by (auto simp: chain_def)

lemma chain_receive:
  "chain p n F S \<Longrightarrow> pc_out p = f # q \<Longrightarrow> chain (p\<lparr>pc_out := q, pc_got := pc_got p @ [f]\<rparr>) n F S"
  by (auto simp: chain_def)

lemma chain_count: "chain p n F S \<Longrightarrow> n = (if pc_outClosed p then 0 else 1)"
  by (simp add: chain_def)

definition chain_inv :: "Client \<Rightarrow> rpc_action multiset \<Rightarrow> bool" where
  "chain_inv c P \<longleftrightarrow> (\<forall>a < ncalls c. chain (pcall c a) (cnt fwd_of a P) (fhand a P) (shand a P))"

lemma chain_invD:
  assumes "chain_inv c (add_mset act P)" and "a < ncalls c"
  shows "chain (pcall c a) (cnt fwd_of a (add_mset act P)) (fhand a (add_mset act P)) (shand a (add_mset act P))"
  using assms by (simp add: chain_inv_def)

lemma base_invD:
  assumes "base_inv c (add_mset act P)"
  shows "calls_ok c" "raddr_ok c P" "\<And>a. raddr act = Some a \<Longrightarrow> a < ncalls c" "reader_act act \<Longrightarrow> readers P = 0"
  using assms by (auto simp: base_inv_def split: if_splits)

lemma chain_exec:
  assumes inv: "chain_inv c (add_mset act P)" and base: "base_inv c (add_mset act P)"
    and ex: "rexec i act c = Some (c', k, new)" and a: "a < ncalls c'"
  shows "chain (pcall c' a) (cnt fwd_of a (P + mset k + pool new)) (fhand a (P + mset k + pool new))
    (shand a (P + mset k + pool new))"
proof -
  note at = chain_invD [OF inv, of a]
  show ?thesis
  proof (cases act)
    case R_Shutdown
    with at ex a base_invD(1) [OF base] show ?thesis
      by (auto simp: chain_finish elim!: shutdown_cases)
  next
    case (R_Route f)
    then have "shand b P = {#}" for b
      using base_invD(4) [OF base] shand_empty by simp
    with R_Route at ex a pending_lookup [OF base_invD(1) [OF base], of "f_MsgID f"] show ?thesis
      by (auto simp: routeFrame_def pcall_pupd chain_route split: if_splits option.splits)
  next
    case (R_Send b f)
    then have "shand d P = {#}" "b < ncalls c" for d
      using base_invD(3,4) [OF base] shand_empty by simp_all
    with R_Send at ex a chain_send_done [of "pcall c b" "cnt fwd_of b P" "fhand b P" f] show ?thesis
      by (cases "a = b") (auto simp: select_iffs pcall_pupd chain_send split: if_splits)
  next
    case (R_Forward b)
    then have b: "b < ncalls c" using base_invD(3) [OF base] by simp
    have "cnt fwd_of b P = 0"
      using chain_count [OF chain_invD [OF inv b]] R_Forward by (simp split: if_splits)
    with b R_Forward at ex a show ?thesis
      by (auto simp: select_iffs pcall_pupd fhand_empty chain_forward split: if_splits)
  next
    case (R_ForwardOut b f)
    then have b: "b < ncalls c" using base_invD(3) [OF base] by simp
    have "cnt fwd_of b P = 0" "\<not> pc_outClosed (pcall c b)"
      using chain_count [OF chain_invD [OF inv b]] R_ForwardOut by (simp_all split: if_splits)
    with b R_ForwardOut at ex a chain_forward_done [of "pcall c b" "Suc 0" f "shand b P"] show ?thesis
      by (cases "a = b") (auto simp: select_iffs pcall_pupd fhand_empty chain_forwardOut split: if_splits)
  next
    case (R_CloseOut b)
    then have b: "b < ncalls c" using base_invD(3) [OF base] by simp
    have "cnt fwd_of b P = 0" "\<not> pc_outClosed (pcall c b)"
      using chain_count [OF chain_invD [OF inv b]] R_CloseOut by (simp_all split: if_splits)
    with b R_CloseOut at ex a show ?thesis
      by (auto simp: closeOut_def pcall_pupd fhand_empty chain_closeOut split: if_splits)
  next
    case (R_AddPending kd m t f b)
    have "cnt fwd_of (ncalls c) P = 0" "shand (ncalls c) P = {#}"
      using hand_fresh [OF base_invD(2) [OF base]] by auto
    with R_AddPending at ex a show ?thesis
      by (auto simp: Client_addPending_def less_Suc_eq chain_new fhand_empty)
  next
    case (R_Finish b)
    with at ex a base_invD(3) [OF base] show ?thesis
      by (auto simp: pcall_pupd chain_finish)
  next
    case (R_Receive b m first)
    with at ex a base_invD(3) [OF base] show ?thesis
      by (auto simp: R_Receive_iff receive_iff after_receive_def call_cleanup_def pcall_pupd chain_receive
          simp del: rexec.simps)
  next
    case (R_App b)
    with at ex a base_invD(3) [OF base] show ?thesis
      by (auto simp: R_App_iff receive_iff pcall_pupd chain_receive simp del: rexec.simps)
  qed (use at ex a in \<open>auto simp: rpc_defs split: rpc_splits\<close>)
qed

interpretation chain_ci: client_invariant chain_inv base_inv
proof unfold_locales
  fix c act P i c' k new
  assume "chain_inv c (add_mset act P)" "base_inv c (add_mset act P)" "rexec i act c = Some (c', k, new)"
  then show "chain_inv c' (P + mset k + pool new)"
    unfolding chain_inv_def [of c'] by (intro allI impI chain_exec)
qed (use base_ci.holds in \<open>auto simp: chain_inv_def NewClient_def\<close>)

section \<open>Routing\<close>

text \<open>
  The frames found for a call carry its ID, and at most the last one is a response: after a response
  the read loop removes the call before it looks for the next frame.
\<close>

definition final_ok :: "Client \<Rightarrow> rpc_action multiset \<Rightarrow> nat \<Rightarrow> bool" where
  "final_ok c P a \<longleftrightarrow>
     (let p = pcall c a in
      (\<forall>f \<in> set (pc_routed p). f_MsgID f = pc_id p) \<and> (\<forall>f \<in> set (butlast (pc_routed p)). is_request f)
      \<and> (map_of (c_pending c) (pc_id p) = Some a \<and> pc_routed p \<noteq> [] \<and> \<not> is_request (last (pc_routed p)) \<longrightarrow>
           R_Send a (last (pc_routed p)) \<in># P \<or> R_Unroute (pc_id p) \<in># P))"

definition final_inv :: "Client \<Rightarrow> rpc_action multiset \<Rightarrow> bool" where
  "final_inv c P \<longleftrightarrow> (\<forall>a < ncalls c. final_ok c P a)"

text \<open>A section that leaves the frames of a call alone and keeps what may be pending for it.\<close>

lemma final_ok_mono:
  assumes "final_ok c (add_mset act P) a" and "pc_routed (pcall c' a) = pc_routed (pcall c a)"
    and "pc_id (pcall c' a) = pc_id (pcall c a)"
    and "map_of (c_pending c') (pc_id (pcall c a)) = Some a \<Longrightarrow> map_of (c_pending c) (pc_id (pcall c a)) = Some a"
    and "\<not> reader_act act"
  shows "final_ok c' (P + R) a"
  using assms by (fastforce simp: final_ok_def Let_def)

lemma rexec_routed:
  assumes "rexec i act c = Some (c', k, new)" and "base_inv c (add_mset act P)" and "\<not> reader_act act" and "a < ncalls c"
  shows "pc_routed (pcall c' a) = pc_routed (pcall c a)
    \<and> (map_of (c_pending c') (pc_id (pcall c a)) = Some a \<longrightarrow> map_of (c_pending c) (pc_id (pcall c a)) = Some a)"
proof (cases act)
  case R_Shutdown
  with assms base_invD(1) [OF assms(2)] show ?thesis by (auto elim!: shutdown_cases)
next
  case (R_App b)
  with assms base_invD(3) [OF assms(2)] show ?thesis
    by (auto simp: R_App_iff receive_iff pcall_pupd simp del: rexec.simps)
next
  case (R_Receive b m first)
  with assms base_invD(3) [OF assms(2)] show ?thesis
    by (auto simp: R_Receive_iff receive_iff pcall_pupd simp del: rexec.simps)
qed (use assms base_invD(3) [OF assms(2)] in
  \<open>auto simp: rpc_defs pcall_pupd update_conv' delete_conv' split: rpc_splits\<close>)

lemma rexec_new:
  assumes "rexec i act c = Some (c', k, new)" and "base_inv c (add_mset act P)" and "\<not> a < ncalls c" and "a < ncalls c'"
  shows "\<exists>kd m t f b. act = R_AddPending kd m t f b \<and> a = ncalls c \<and> pcall c' a = newPendingCall m
    \<and> k = [R_WriteRequest kd a m t f b] \<and> new = [[R_Forward a]]"
proof (cases act)
  case R_Shutdown
  with assms base_invD(1) [OF assms(2)] show ?thesis by (auto elim!: shutdown_cases)
next
  case (R_App b)
  with assms show ?thesis by (auto simp: R_App_iff receive_iff simp del: rexec.simps)
next
  case (R_Receive b m first)
  with assms show ?thesis by (auto simp: R_Receive_iff receive_iff simp del: rexec.simps)
next
  case (R_AddPending kd m t f b)
  with assms show ?thesis by (auto simp: Client_addPending_def less_Suc_eq)
qed (use assms in \<open>auto simp: rpc_defs split: rpc_splits\<close>)

lemma final_exec:
  assumes inv: "final_inv c (add_mset act P)" and base: "base_inv c (add_mset act P)"
    and ex: "rexec i act c = Some (c', k, new)" and a: "a < ncalls c'"
  shows "final_ok c' (P + mset k + pool new) a"
proof (cases "a < ncalls c")
  case False
  then have "pc_routed (pcall c' a) = []"
    using rexec_new [OF ex base _ a] by auto
  then show ?thesis by (simp add: final_ok_def)
next
  case True
  then have at: "final_ok c (add_mset act P) a"
    using inv by (simp add: final_inv_def)
  show ?thesis
  proof (cases "reader_act act")
    case False
    with True ex at base show ?thesis
      using final_ok_mono [of c act P a c' "mset k + pool new"] rexec_routed [OF ex base False True]
        rexec_grows [OF ex base_invD(1) [OF base]] base_invD(3) [OF base]
      by (auto simp: ac_simps)
  next
    case reader: True
    have none: "R_Send b f \<notin># P" "R_Unroute j \<notin># P" for b f j
      using readers_zero [OF base_invD(4) [OF base reader]] by (metis reader_act.simps(6), metis reader_act.simps(7))
    show ?thesis
    proof (cases act)
      case (R_Route f)
      have "\<forall>g \<in> set (pc_routed (pcall c a)). is_request g" if "map_of (c_pending c) (pc_id (pcall c a)) = Some a"
      proof (cases "pc_routed (pcall c a)" rule: rev_cases)
        case (snoc gs g)
        with at that none R_Route show ?thesis by (auto simp: final_ok_def Let_def)
      qed simp
      with R_Route at ex none pending_lookup [OF base_invD(1) [OF base], of "f_MsgID f"] show ?thesis
        by (auto simp: final_ok_def Let_def routeFrame_def pcall_pupd split: if_splits option.splits)
    next
      case (R_Send b f)
      then have "b < ncalls c" using base_invD(3) [OF base] by simp
      with R_Send at ex none show ?thesis
        by (auto simp: final_ok_def Let_def select_iffs pcall_pupd is_request_def split: if_splits)
    next
      case (R_Unroute j)
      with at ex none show ?thesis
        by (auto simp: final_ok_def Let_def Client_removePending_def delete_conv' split: if_splits)
    qed (use reader at ex none in
      \<open>auto simp: final_ok_def Let_def Client_spawn_def readLoop_def readErr_def split: if_splits rpc_input.splits sum.splits\<close>)
  qed
qed

interpretation final_ci: client_invariant final_inv base_inv
proof unfold_locales
  fix c act P i c' k new
  assume "final_inv c (add_mset act P)" "base_inv c (add_mset act P)" "rexec i act c = Some (c', k, new)"
  then show "final_inv c' (P + mset k + pool new)"
    unfolding final_inv_def [of c'] by (intro allI impI final_exec)
qed (use base_ci.holds in \<open>auto simp: final_inv_def final_ok_def NewClient_def Let_def\<close>)

end
