(* ===== verification/RPC_Calls.thy ===== *)
theory RPC_Calls
  imports RPC_Delivery
begin

text \<open>
  The owners of a call: the goroutine of \<^verbatim>\<open>Call\<close> or the reader of a stream, and the goroutine that will
  abandon the call. What \<^verbatim>\<open>Call\<close> returns, when the channel of a call is closed, and
  that the client never panics.
\<close>

section \<open>When the channel is closed\<close>

definition ended :: "pendingCall \<Rightarrow> bool \<Rightarrow> bool" where
  "ended p closing \<longleftrightarrow> (\<not> pc_done p \<and> (pc_outClosed p \<or> closing) \<longrightarrow>
     pc_got p @ pc_out p \<noteq> [] \<and> \<not> sf_More (last (pc_got p @ pc_out p)))"

definition ended_inv :: "Client \<Rightarrow> rpc_action multiset \<Rightarrow> bool" where
  "ended_inv c P \<longleftrightarrow> (\<forall>a < ncalls c. ended (pcall c a) (R_CloseOut a \<in># P))"

lemma ended_upd [simp]:
  "ended (newPendingCall m) False" "ended (pendingCall_finish p) b"
  "ended (p\<lparr>pc_inbox := q\<rparr>) b = ended p b" "ended (p\<lparr>pc_routed := r\<rparr>) b = ended p b"
  by (simp_all add: ended_def)

lemma ended_receive: "pc_out p = f # q \<Longrightarrow> ended (p\<lparr>pc_out := q, pc_got := pc_got p @ [f]\<rparr>) b = ended p b"
  by (simp add: ended_def)

lemma ended_out: "\<not> pc_outClosed p \<Longrightarrow> ended (p\<lparr>pc_out := pc_out p @ [f]\<rparr>) (\<not> sf_More f)"
  by (simp add: ended_def)

lemma ended_done: "pc_done p \<Longrightarrow> ended p b"
  by (simp add: ended_def)

lemma ended_closed: "ended p True \<Longrightarrow> ended (p\<lparr>pc_outClosed := True\<rparr>) b"
  by (simp add: ended_def)

definition calls_prior :: "Client \<Rightarrow> rpc_action multiset \<Rightarrow> bool" where
  "calls_prior c P \<longleftrightarrow> base_inv c P \<and> chain_inv c P"

lemma calls_prior_reachable: "rpc_reachable (c, ts) \<Longrightarrow> calls_prior c (pool ts)"
  by (simp add: calls_prior_def base_ci.holds chain_ci.holds)

text \<open>There is one forwarder at a time.\<close>

lemma one_forwarder:
  assumes "calls_prior c (add_mset act P)" and "fwd_of act = Some a"
  shows "R_CloseOut a \<notin># P" "\<not> pc_outClosed (pcall c a)" "a < ncalls c"
proof -
  have base: "base_inv c (add_mset act P)" and chain: "chain_inv c (add_mset act P)"
    using assms(1) by (simp_all add: calls_prior_def)
  have "raddr act = Some a"
    using assms(2) by (cases act) auto
  then show a: "a < ncalls c"
    by (rule base_invD(3) [OF base])
  have "cnt fwd_of a P = 0" and "\<not> pc_outClosed (pcall c a)"
    using chain_count [OF chain_invD [OF chain a]] assms(2) by (simp_all split: if_splits)
  then show "R_CloseOut a \<notin># P" "\<not> pc_outClosed (pcall c a)"
    using cnt_zero [of fwd_of a P] by fastforce+
qed

lemma ended_exec:
  assumes inv: "ended_inv c (add_mset act P)" and prior: "calls_prior c (add_mset act P)"
    and ex: "rexec i act c = Some (c', k, new)" and a: "a < ncalls c'"
  shows "ended (pcall c' a) (R_CloseOut a \<in># P + mset k + pool new)"
proof -
  have base: "base_inv c (add_mset act P)"
    using prior by (simp add: calls_prior_def)
  have at: "a < ncalls c \<Longrightarrow> ended (pcall c a) (R_CloseOut a = act \<or> R_CloseOut a \<in># P)"
    using inv by (auto simp: ended_inv_def)
  show ?thesis
  proof (cases act)
    case R_Shutdown
    with at ex a base_invD(1) [OF base] show ?thesis
      by (auto elim!: shutdown_cases)
  next
    case (R_Route f)
    with at ex a pending_lookup [OF base_invD(1) [OF base], of "f_MsgID f"] show ?thesis
      by (auto simp: routeFrame_def pcall_pupd split: if_splits option.splits)
  next
    case (R_Send b f)
    with at ex a base_invD(3) [OF base, of b] show ?thesis
      by (auto simp: select_iffs pcall_pupd split: if_splits)
  next
    case (R_Forward b)
    with at ex a one_forwarder [OF prior, of b] show ?thesis
      by (cases "a = b") (auto simp: select_iffs pcall_pupd ended_done split: if_splits)
  next
    case (R_ForwardOut b f)
    with at ex a one_forwarder [OF prior, of b] ended_out [of "pcall c b" f] show ?thesis
      by (cases "a = b") (auto simp: select_iffs pcall_pupd ended_done split: if_splits)
  next
    case (R_CloseOut b)
    with at ex a one_forwarder [OF prior, of b] show ?thesis
      by (cases "a = b") (auto simp: closeOut_def pcall_pupd ended_closed split: if_splits)
  next
    case (R_AddPending kd m t f b)
    have "R_CloseOut (ncalls c) \<notin># P"
      using base_invD(2) [OF base] by (fastforce simp: raddr_ok_def)
    with R_AddPending at ex a show ?thesis
      by (auto simp: Client_addPending_def less_Suc_eq)
  next
    case (R_Receive b m first)
    with at ex a base_invD(3) [OF base, of b] show ?thesis
      by (auto simp: R_Receive_iff receive_iff after_receive_def call_cleanup_def pcall_pupd ended_receive
          simp del: rexec.simps)
  next
    case (R_App b)
    with at ex a base_invD(3) [OF base, of b] show ?thesis
      by (auto simp: R_App_iff receive_iff pcall_pupd ended_receive simp del: rexec.simps)
  next
    case (R_Finish b)
    with at ex a base_invD(3) [OF base, of b] show ?thesis
      by (auto simp: pcall_pupd)
  qed (use at ex a in \<open>auto simp: rpc_defs split: rpc_splits\<close>)
qed

interpretation ended_ci: client_invariant ended_inv calls_prior
proof unfold_locales
  fix c act P i c' k new
  assume "ended_inv c (add_mset act P)" "calls_prior c (add_mset act P)" "rexec i act c = Some (c', k, new)"
  then show "ended_inv c' (P + mset k + pool new)"
    unfolding ended_inv_def [of c'] by (intro allI impI ended_exec)
qed (use calls_prior_reachable in \<open>auto simp: ended_inv_def NewClient_def\<close>)

section \<open>No panic\<close>

definition calm_inv :: "Client \<Rightarrow> rpc_action multiset \<Rightarrow> bool" where
  "calm_inv c P \<longleftrightarrow> (c_closer c \<longrightarrow> \<not> c_panic c)"

lemma calm_exec:
  assumes inv: "calm_inv c (add_mset act P)" and prior: "calls_prior c (add_mset act P)"
    and ex: "rexec i act c = Some (c', k, new)"
  shows "calm_inv c' Q"
proof -
  have base: "base_inv c (add_mset act P)"
    using prior by (simp add: calls_prior_def)
  show ?thesis
  proof (cases act)
    case R_Shutdown
    with inv ex base_invD(1) [OF base] show ?thesis by (auto simp: calm_inv_def elim!: shutdown_cases)
  next
    case (R_ForwardOut b f)
    with inv ex one_forwarder [OF prior, of b] show ?thesis
      by (auto simp: calm_inv_def select_iffs)
  next
    case (R_CloseOut b)
    with inv ex one_forwarder [OF prior, of b] show ?thesis
      by (auto simp: calm_inv_def closeOut_def)
  next
    case R_WgDone
    with inv ex base show ?thesis by (auto simp: calm_inv_def base_inv_def)
  next
    case (R_Receive b m first)
    with inv ex show ?thesis by (auto simp: calm_inv_def R_Receive_iff receive_iff simp del: rexec.simps)
  next
    case (R_App b)
    with inv ex show ?thesis by (auto simp: calm_inv_def R_App_iff receive_iff simp del: rexec.simps)
  qed (use inv ex in \<open>auto simp: calm_inv_def rpc_defs split: rpc_splits\<close>)
qed

interpretation calm_ci: client_invariant calm_inv calls_prior
  by unfold_locales (use calls_prior_reachable calm_exec in \<open>auto simp: calm_inv_def NewClient_def\<close>)

end
