(* ===== verification/RPC_Answers.thy ===== *)
theory RPC_Answers
  imports RPC_Calls
begin

text \<open>What a call returns, and who abandons it.\<close>

section \<open>The owner of a call\<close>

fun own_of :: "rpc_action \<Rightarrow> nat option" where
  "own_of (R_WriteRequest k a m t f b) = Some a"
| "own_of (R_Receive a m b) = Some a"
| "own_of (R_App a) = Some a"
| "own_of (R_Return ev) = rv_addr ev"
| "own_of _ = None"

definition own :: "nat \<Rightarrow> rpc_action multiset \<Rightarrow> rpc_action multiset" where
  "own a P = filter_mset (\<lambda>x. own_of x = Some a) P"

lemma own_simps [simp]:
  "own a {#} = {#}" "own a (add_mset x P) = (if own_of x = Some a then add_mset x (own a P) else own a P)"
  "own a (P + Q) = own a P + own a Q"
  by (simp_all add: own_def)

definition results :: "nat \<Rightarrow> rpc_event list \<Rightarrow> (goerr + Response) set" where
  "results a log = {r. Rv_Call a r \<in> set log}"

lemma results_simps [simp]:
  "results a (log @ [e]) = (case e of Rv_Call b r \<Rightarrow> if b = a then insert r (results a log) else results a log | _ \<Rightarrow> results a log)"
  by (auto simp: results_def split: rpc_event.split)

text \<open>The response of a call is the first frame, or the second one after a STARTED frame.\<close>

definition answers :: "Response \<Rightarrow> StreamFrame list \<Rightarrow> bool" where
  "answers r g \<longleftrightarrow>
     (\<exists>f. r = \<lparr>rs_Type = sf_Type f, rs_Body = sf_Body f\<rparr>
        \<and> (g = [f] \<and> sf_Type f \<noteq> TypeSTARTED \<or> (\<exists>s. g = [s, f] \<and> sf_Type s = TypeSTARTED)))"

fun progress :: "rpc_action \<Rightarrow> StreamFrame list \<Rightarrow> bool" where
  "progress (R_WriteRequest k a m t f b) g = (g = [])"
| "progress (R_Receive a m first) g = (if first then g = [] else (\<exists>s. g = [s] \<and> sf_Type s = TypeSTARTED))"
| "progress (R_Return (Rv_Call a (Inr r))) g = answers r g"
| "progress _ g = True"

definition resp :: "StreamFrame list \<Rightarrow> rpc_action multiset \<Rightarrow> (goerr + Response) set \<Rightarrow> bool" where
  "resp g Own L \<longleftrightarrow> (Own = {#} \<and> (\<forall>r. Inr r \<in> L \<longrightarrow> answers r g)) \<or> (\<exists>x. Own = {#x#} \<and> L = {} \<and> progress x g)"

lemma resp_owner [simp]: "resp g (add_mset x Own) L \<longleftrightarrow> Own = {#} \<and> L = {} \<and> progress x g"
  by (auto simp: resp_def)

lemma resp_free: "resp g {#} L \<longleftrightarrow> (\<forall>r. Inr r \<in> L \<longrightarrow> answers r g)"
  by (auto simp: resp_def)

definition resp_inv :: "Client \<Rightarrow> rpc_action multiset \<Rightarrow> bool" where
  "resp_inv c P \<longleftrightarrow> (\<forall>a < ncalls c. resp (pc_got (pcall c a)) (own a P) (results a (c_log c)))
     \<and> (\<forall>a. ncalls c \<le> a \<longrightarrow> results a (c_log c) = {})"

lemma own_fresh: "raddr_ok c P \<Longrightarrow> ncalls c \<le> a \<Longrightarrow> own a P = {#}"
proof -
  assume "raddr_ok c P" and "ncalls c \<le> a"
  then have "own_of x \<noteq> Some a" if "x \<in># P" for x
    using that by (cases x) (auto simp: raddr_ok_def)
  then show ?thesis by (simp add: own_def)
qed

lemma rexec_log:
  assumes "rexec i act c = Some (c', k, new)" and "base_inv c (add_mset act P)"
  shows "c_log c' = c_log c @ (case act of R_Return ev \<Rightarrow> [ev] | _ \<Rightarrow> drop (length (c_log c)) (c_log c'))
    \<and> (\<forall>a. (\<forall>r. act \<noteq> R_Return (Rv_Call a r)) \<longrightarrow> results a (c_log c') = results a (c_log c))"
proof (cases act)
  case R_Shutdown
  with assms base_invD(1) [OF assms(2)] show ?thesis by (auto elim!: shutdown_cases)
next
  case (R_App b)
  with assms show ?thesis by (auto simp: R_App_iff receive_iff simp del: rexec.simps)
next
  case (R_Receive b m first)
  with assms show ?thesis by (auto simp: R_Receive_iff receive_iff simp del: rexec.simps)
next
  case (R_Return ev)
  with assms show ?thesis by (auto split: rpc_event.splits)
qed (use assms in \<open>auto simp: rpc_defs split: rpc_splits\<close>)

lemma rexec_got:
  assumes "rexec i act c = Some (c', k, new)" and "base_inv c (add_mset act P)" and "a < ncalls c"
    and "own_of act \<noteq> Some a"
  shows "pc_got (pcall c' a) = pc_got (pcall c a) \<and> own a (mset k + pool new) = {#}"
proof (cases act)
  case R_Shutdown
  with assms base_invD(1) [OF assms(2)] show ?thesis by (auto elim!: shutdown_cases)
next
  case (R_App b)
  with assms base_invD(3) [OF assms(2), of b] show ?thesis
    by (auto simp: R_App_iff receive_iff pcall_pupd simp del: rexec.simps)
next
  case (R_Receive b m first)
  with assms base_invD(3) [OF assms(2), of b] show ?thesis
    by (auto simp: R_Receive_iff receive_iff after_receive_def call_cleanup_def pcall_pupd simp del: rexec.simps)
next
  case (R_Route f)
  with assms pending_lookup [OF base_invD(1) [OF assms(2)], of "f_MsgID f"] show ?thesis
    by (auto simp: routeFrame_def pcall_pupd split: if_splits option.splits)
next
  case (R_Return ev)
  with assms show ?thesis by (auto split: rpc_event.splits option.splits)
qed (use assms base_invD(3) [OF assms(2)] in \<open>auto simp: rpc_defs pcall_pupd split: rpc_splits\<close>)

lemma resp_exec_owner:
  assumes "resp (pc_got (pcall c a)) (add_mset act (own a P)) (results a (c_log c))" and "own_of act = Some a"
    and "rexec i act c = Some (c', k, new)" and "a < ncalls c"
  shows "resp (pc_got (pcall c' a)) (own a (P + mset k + pool new)) (results a (c_log c'))"
proof (cases act)
  case (R_WriteRequest kd b m t f bd)
  with assms show ?thesis
    by (auto simp: Client_writeRequest_def after_write_def call_cleanup_def split: prod.splits option.splits kind.splits)
next
  case (R_Receive b m first)
  with assms show ?thesis
    by (cases first) (auto simp: R_Receive_iff receive_iff after_receive_def call_cleanup_def pcall_pupd answers_def
        simp del: rexec.simps)
next
  case (R_App b)
  with assms show ?thesis
    by (auto simp: R_App_iff receive_iff pcall_pupd simp del: rexec.simps)
next
  case (R_Return ev)
  with assms show ?thesis
    by (cases ev) (auto simp: resp_free split: option.splits)
qed (use assms in auto)

interpretation resp_ci: client_invariant resp_inv base_inv
proof unfold_locales
  fix c act P i c' k new
  assume inv: "resp_inv c (add_mset act P)" and base: "base_inv c (add_mset act P)" and ex: "rexec i act c = Some (c', k, new)"
  have "resp (pc_got (pcall c' a)) (own a (P + mset k + pool new)) (results a (c_log c'))" if a: "a < ncalls c'" for a
  proof (cases "a < ncalls c")
    case True
    then have at: "resp (pc_got (pcall c a)) (own a (add_mset act P)) (results a (c_log c))"
      using inv by (simp add: resp_inv_def)
    show ?thesis
    proof (cases "own_of act = Some a")
      case own: True
      with at have "resp (pc_got (pcall c a)) (add_mset act (own a P)) (results a (c_log c))" by simp
      then show ?thesis by (rule resp_exec_owner [OF _ own ex True])
    next
      case False
      then have "act \<noteq> R_Return (Rv_Call a r)" for r by auto
      with False at rexec_got [OF ex base True False] rexec_log [OF ex base] show ?thesis by simp
    qed
  next
    case False
    with rexec_new [OF ex base False a] obtain kd m t f b where new: "act = R_AddPending kd m t f b" "a = ncalls c"
      "pcall c' a = newPendingCall m" "k = [R_WriteRequest kd a m t f b]" "new = [[R_Forward a]]"
      by blast
    then have "results a (c_log c') = {}"
      using inv rexec_log [OF ex base] by (simp add: resp_inv_def)
    with new own_fresh [OF base_invD(2) [OF base], of a] show ?thesis by simp
  qed
  moreover have "results a (c_log c') = {}" if "ncalls c' \<le> a" for a
  proof -
    have "ncalls c \<le> a"
      using that rexec_grows [OF ex base_invD(1) [OF base]] base_invD(3) [OF base] by auto
    moreover from this have "act \<noteq> R_Return (Rv_Call a r)" for r
      using base_invD(3) [OF base, of a] by auto
    ultimately show ?thesis
      using inv rexec_log [OF ex base] by (simp add: resp_inv_def)
  qed
  ultimately show "resp_inv c' (P + mset k + pool new)"
    by (simp add: resp_inv_def)
qed (use base_ci.holds in \<open>auto simp: resp_inv_def NewClient_def results_def\<close>)

section \<open>Who abandons a call\<close>

text \<open>Every call that is not abandoned yet has a goroutine that will abandon it.\<close>

fun hold_of :: "rpc_action \<Rightarrow> nat option" where
  "hold_of (R_WriteRequest k a m t f b) = Some a"
| "hold_of (R_Receive a m b) = Some a"
| "hold_of (R_Watch a m) = Some a"
| "hold_of (R_Finish a) = Some a"
| "hold_of _ = None"

definition held_inv :: "Client \<Rightarrow> rpc_action multiset \<Rightarrow> bool" where
  "held_inv c P \<longleftrightarrow> (\<forall>a < ncalls c. \<not> pc_done (pcall c a) \<longrightarrow> 0 < cnt hold_of a P)"

lemma held_exec:
  assumes "rexec i act c = Some (c', k, new)" and "base_inv c (add_mset act P)" and "a < ncalls c"
    and "\<not> pc_done (pcall c' a)"
  shows "\<not> pc_done (pcall c a) \<and> (hold_of act = Some a \<longrightarrow> 0 < cnt hold_of a (mset k + pool new))"
proof (cases act)
  case R_Shutdown
  with assms base_invD(1) [OF assms(2)] show ?thesis by (auto elim!: shutdown_cases split: if_splits)
next
  case (R_App b)
  with assms base_invD(3) [OF assms(2), of b] show ?thesis
    by (auto simp: R_App_iff receive_iff pcall_pupd simp del: rexec.simps split: if_splits)
next
  case (R_Receive b m first)
  with assms base_invD(3) [OF assms(2), of b] show ?thesis
    by (auto simp: R_Receive_iff receive_iff after_receive_def call_cleanup_def pcall_pupd simp del: rexec.simps split: if_splits)
next
  case (R_Route f)
  with assms pending_lookup [OF base_invD(1) [OF assms(2)], of "f_MsgID f"] show ?thesis
    by (auto simp: routeFrame_def pcall_pupd split: if_splits option.splits)
qed (use assms base_invD(3) [OF assms(2)] in \<open>auto simp: rpc_defs pcall_pupd split: rpc_splits\<close>)

interpretation held_ci: client_invariant held_inv base_inv
proof unfold_locales
  fix c act P i c' k new
  assume inv: "held_inv c (add_mset act P)" and base: "base_inv c (add_mset act P)" and ex: "rexec i act c = Some (c', k, new)"
  have "0 < cnt hold_of a (P + mset k + pool new)" if a: "a < ncalls c'" "\<not> pc_done (pcall c' a)" for a
  proof (cases "a < ncalls c")
    case True
    with inv held_exec [OF ex base True a(2)] show ?thesis
      by (cases "hold_of act = Some a") (auto simp: held_inv_def)
  next
    case False
    with rexec_new [OF ex base False a(1)] show ?thesis by auto
  qed
  then show "held_inv c' (P + mset k + pool new)"
    by (simp add: held_inv_def)
qed (use base_ci.holds in \<open>auto simp: held_inv_def NewClient_def\<close>)

end
