(* ===== verification/RPC_IDs.thy ===== *)
theory RPC_IDs
  imports RPC_Invariant
begin

text \<open>
  The message IDs of the calls of a client, under every interleaving of its goroutines: those that
  \<open>allocMsgID\<close> returned to the callers are consecutive, and the request of a call is written with its ID.
\<close>

section \<open>The sequence of the IDs\<close>

text \<open>The ID number \<open>i\<close>, counted from 0: 1, 2, and so on, from \<open>2^32 - 1\<close> back to 1.\<close>

definition msgID_at :: "nat \<Rightarrow> uint32" where
  "msgID_at i = word_of_nat (Suc (i mod (2 ^ 32 - 1)))"

lemma unat_msgID_at: "unat (msgID_at i) = Suc (i mod (2 ^ 32 - 1))"
proof -
  have "i mod (2 ^ 32 - 1) < 2 ^ 32 - 1"
    by (rule mod_less_divisor) simp
  then show ?thesis
    unfolding msgID_at_def unsigned_of_nat by (simp add: take_bit_nat_eq_self del: of_nat_Suc)
qed

lemma msgID_at_nonzero: "msgID_at i \<noteq> 0"
  using unat_msgID_at [of i] by (metis nat.distinct(1) unat_0)

lemma msgID_at_inj: "i < 2 ^ 32 - 1 \<Longrightarrow> j < 2 ^ 32 - 1 \<Longrightarrow> msgID_at i = msgID_at j \<Longrightarrow> i = j"
  by (metis Suc_inject mod_less unat_msgID_at)

lemma distinct_msgID_at: "n < 2 ^ 32 \<Longrightarrow> distinct (map msgID_at [0..<n])"
  by (auto simp: distinct_map inj_on_def intro: msgID_at_inj)

lemma distinct_mset_sub: "mset xs \<subseteq># mset ys \<Longrightarrow> distinct ys \<Longrightarrow> distinct xs"
  by (metis distinct_append mset_append mset_eq_imp_distinct_iff ex_mset mset_subset_eq_exists_conv)

text \<open>The counter of a client that has handed out \<open>n\<close> IDs.\<close>

definition last_msgID :: "nat \<Rightarrow> uint32" where
  "last_msgID n = (if n = 0 then 0 else msgID_at (n - 1))"

lemma alloc_after:
  assumes "c_msgID c = last_msgID n"
  shows "Client_allocMsgID c = (msgID_at n, c\<lparr>c_msgID := last_msgID (Suc n)\<rparr>)"
proof -
  let ?x = "last_msgID n + 1"
  have "(if ?x = 0 then 1 else ?x) = msgID_at n"
  proof (cases n)
    case 0
    then show ?thesis by (simp add: last_msgID_def msgID_at_def)
  next
    case (Suc m)
    then have m: "last_msgID n = word_of_nat (Suc (m mod (2 ^ 32 - 1)))"
      by (simp add: last_msgID_def msgID_at_def)
    show ?thesis
    proof (cases "Suc (m mod (2 ^ 32 - 1)) = 2 ^ 32 - 1")
      case True
      then have "n mod (2 ^ 32 - 1) = 0"
        by (simp add: Suc mod_Suc)
      moreover have "?x = 0"
        unfolding m True by simp
      ultimately show ?thesis by (simp add: msgID_at_def)
    next
      case False
      then have "n mod (2 ^ 32 - 1) = Suc (m mod (2 ^ 32 - 1))"
        by (simp add: Suc mod_Suc)
      then have x: "?x = msgID_at n"
        by (simp add: m msgID_at_def)
      with msgID_at_nonzero [of n] show ?thesis by simp
    qed
  qed
  moreover have "last_msgID (Suc n) = msgID_at n"
    by (simp add: last_msgID_def)
  ultimately show ?thesis
    by (simp only: Client_allocMsgID_def Let_def assms)
qed

section \<open>The IDs of the calls\<close>

text \<open>
  The IDs that the callers got: those of the calls in the heap, and those of the callers that have
  not entered their call yet.
\<close>

fun handed_to :: "rpc_action \<Rightarrow> uint32 multiset" where
  "handed_to (R_AddPending k msgID t f b) = {#msgID#}"
| "handed_to _ = {#}"

definition call_ids :: "Client \<Rightarrow> rpc_action multiset \<Rightarrow> uint32 multiset" where
  "call_ids c P = mset (map pc_id (c_heap c)) + (\<Sum>act \<in># P. handed_to act)"

fun requests_with :: "rpc_action \<Rightarrow> (nat \<times> uint32) option" where
  "requests_with (R_WriteRequest k a msgID t f b) = Some (a, msgID)"
| "requests_with _ = None"

definition ids_inv :: "Client \<Rightarrow> rpc_action multiset \<Rightarrow> bool" where
  "ids_inv c P \<longleftrightarrow>
     (\<exists>n. c_msgID c = last_msgID n \<and> call_ids c P = mset (map msgID_at [0..<n]))
     \<and> (\<forall>act \<in># P. \<forall>a msgID. requests_with act = Some (a, msgID) \<longrightarrow> pc_id (pcall c a) = msgID)"

text \<open>Only an allocation moves the counter, and only it adds an ID.\<close>

fun is_alloc :: "rpc_action \<Rightarrow> bool" where
  "is_alloc (R_Alloc k t f b) = True"
| "is_alloc _ = False"

lemma ids_same:
  assumes "rexec i act c = Some (c', k, new)" and "calls_ok c" and "\<forall>a. raddr act = Some a \<longrightarrow> a < ncalls c"
    and "ncalls c' = ncalls c"
  shows "map pc_id (c_heap c') = map pc_id (c_heap c)"
  using rexec_grows [OF assms(1-3)] assms(4) by (intro nth_equalityI) (simp_all add: pcall_def)

lemma rexec_keeps:
  assumes "rexec i act c = Some (c', k, new)" and "\<not> is_alloc act" and "handed_to act = {#}"
  shows "c_msgID c' = c_msgID c \<and> ncalls c' = ncalls c \<and> (\<Sum>x \<in># mset k + pool new. handed_to x) = {#}"
proof (cases act)
  case R_Shutdown
  with assms(1) show ?thesis by (auto simp: Client_shutdown_def split: if_splits)
qed (use assms in \<open>auto simp: rpc_defs split: rpc_splits\<close>)

lemma rexec_ids:
  assumes "rexec i act c = Some (c', k, new)" and "calls_ok c" and "\<forall>a. raddr act = Some a \<longrightarrow> a < ncalls c"
    and "\<not> is_alloc act"
  shows "c_msgID c' = c_msgID c"
    and "mset (map pc_id (c_heap c')) + (\<Sum>x \<in># mset k + pool new. handed_to x) = mset (map pc_id (c_heap c)) + handed_to act"
proof -
  consider (add) kd m t f b where "act = R_AddPending kd m t f b" | (other) "handed_to act = {#}"
    by (cases act) auto
  then have "c_msgID c' = c_msgID c
    \<and> mset (map pc_id (c_heap c')) + (\<Sum>x \<in># mset k + pool new. handed_to x) = mset (map pc_id (c_heap c)) + handed_to act"
  proof cases
    case add
    with assms(1) show ?thesis by (auto simp: rpc_defs)
  next
    case other
    then show ?thesis
      using rexec_keeps [OF assms(1,4)] ids_same [OF assms(1-3)] by (simp del: mset_map)
  qed
  then show "c_msgID c' = c_msgID c"
    and "mset (map pc_id (c_heap c')) + (\<Sum>x \<in># mset k + pool new. handed_to x) = mset (map pc_id (c_heap c)) + handed_to act"
    by blast+
qed

lemma rexec_requests:
  assumes "rexec i act c = Some (c', k, new)" and "x \<in># mset k + pool new" and "requests_with x = Some (a, msgID)"
  shows "pc_id (pcall c' a) = msgID \<and> \<not> is_alloc act"
proof (cases act)
  case R_Shutdown
  with assms show ?thesis by (auto simp: Client_shutdown_def split: if_splits)
qed (use assms in \<open>auto simp: rpc_defs split: rpc_splits\<close>)

interpretation ids_ci: client_invariant ids_inv base_inv
proof unfold_locales
  show "base_inv c (pool ts)" if "rpc_reachable (c, ts)" for c ts
    using that by (rule base_ci.holds)
next
  fix c act P i c' k new
  assume inv: "ids_inv c (add_mset act P)" and base: "base_inv c (add_mset act P)"
    and ex: "rexec i act c = Some (c', k, new)"
  have ok: "calls_ok c" "\<forall>a. raddr act = Some a \<longrightarrow> a < ncalls c" and P: "raddr_ok c P"
    using base by (simp_all add: base_inv_def)
  obtain n where n: "c_msgID c = last_msgID n" "call_ids c (add_mset act P) = mset (map msgID_at [0..<n])"
    using inv by (auto simp: ids_inv_def)
  have "\<exists>m. c_msgID c' = last_msgID m \<and> call_ids c' (P + mset k + pool new) = mset (map msgID_at [0..<m])"
  proof (cases "is_alloc act")
    case True
    then show ?thesis
      using ex n by (intro exI [of _ "Suc n"]) (auto simp: alloc_after [OF n(1)] call_ids_def elim!: is_alloc.elims)
  next
    case False
    show ?thesis
      using rexec_ids [OF ex ok False] n
      by (intro exI [of _ n]) (auto simp: call_ids_def ac_simps)
  qed
  moreover have "pc_id (pcall c' a) = msgID" if "x \<in># P" "requests_with x = Some (a, msgID)" for x a msgID
  proof -
    have "raddr x = Some a"
      using that(2) by (auto elim!: requests_with.elims)
    then have "a < ncalls c"
      using P that(1) by (auto simp: raddr_ok_def)
    moreover have "pc_id (pcall c a) = msgID"
      using inv that by (auto simp: ids_inv_def)
    ultimately show ?thesis
      using rexec_grows [OF ex ok] by simp
  qed
  ultimately show "ids_inv c' (P + mset k + pool new)"
    using rexec_requests [OF ex] unfolding ids_inv_def by (metis union_iff add.assoc)
qed (auto simp: ids_inv_def call_ids_def last_msgID_def NewClient_def)

end
