(* ===== verification/RPC_Run.thy ===== *)
theory RPC_Run
  imports RPC_Client
begin

text \<open>
  Runs of the RPC client, given as schedules: which goroutine runs next and with which input, or what the
  application calls. Used to evaluate the model on concrete inputs.
\<close>

datatype rsched =
    Go nat rpc_input
  | Do_Start
  | Do_Close
  | Do_Call uint8 uint8 bytes
  | Do_Stream uint8 uint8 bytes

fun rrun_one :: "rsched \<Rightarrow> rpc_conf \<Rightarrow> rpc_conf option" where
  "rrun_one (Go i inp) (c, ts) =
     (if i < length ts
      then (case ts ! i of
              [] \<Rightarrow> None
            | act # rest \<Rightarrow>
                (case rexec inp act c of
                   None \<Rightarrow> None
                 | Some (c', k, new) \<Rightarrow> Some (c', ts[i := k @ rest] @ new)))
      else None)"
| "rrun_one Do_Start (c, ts) = Some (c, ts @ [[R_Start]])"
| "rrun_one Do_Close (c, ts) = Some (c, ts @ [Client_Close])"
| "rrun_one (Do_Call t f b) (c, ts) = Some (c, ts @ [Client_CallFlags t f b])"
| "rrun_one (Do_Stream t f b) (c, ts) = Some (c, ts @ [Client_StreamFlags t f b])"

primrec rrun :: "rsched list \<Rightarrow> rpc_conf \<Rightarrow> rpc_conf option" where
  "rrun [] x = Some x"
| "rrun (d # ds) x = Option.bind (rrun_one d x) (rrun ds)"

lemma rrun_one_step: "rrun_one d x = Some y \<Longrightarrow> rstep x y"
  by (cases "(d, x)" rule: rrun_one.cases)
    (auto intro: rstep.intros split: if_splits list.splits option.splits)

lemma rrun_reachable: "rrun ds x = Some y \<Longrightarrow> rpc_reachable x \<Longrightarrow> rpc_reachable y"
  by (induction ds arbitrary: x)
    (auto simp: Option.bind_eq_Some_conv intro: rpc_reachable.step dest!: rrun_one_step)

section \<open>A client with one call\<close>

abbreviation demo_client :: Client where
  "demo_client \<equiv> NewClient True new_Buffer"

text \<open>The client is started, and PING is called; the call waits for its answer.\<close>

definition demo_ping :: "rsched list" where
  "demo_ping =
     [Do_Start, Go 0 J_None, Go 0 J_None, Do_Call TypePING 0 [], Go 3 J_None, Go 3 J_None, Go 3 J_None, Go 1 J_None]"

definition demo_frame :: "uint8 \<Rightarrow> uint8 \<Rightarrow> bytes \<Rightarrow> Frame" where
  "demo_frame t flags body = \<lparr>f_Type = t, f_Flags = flags, f_MsgID = 1, f_Body = body\<rparr>"

text \<open>A frame comes in, is forwarded, received, and returned.\<close>

definition demo_answer :: "Frame \<Rightarrow> rsched list" where
  "demo_answer f =
     [Go 1 (J_Frame (Inr f)), Go 1 J_None, Go 1 (J_Sel Sel_In), Go 4 (J_Sel Sel_In), Go 4 (J_Sel Sel_Out),
      Go 3 (J_Sel Sel_Out), Go 3 J_None, Go 3 J_None, Go 3 J_None]"

lemmas rrun_defs =
  demo_ping_def demo_answer_def demo_frame_def Client_Start_def Client_spawn_def Client_CallFlags_def Client_StreamFlags_def
  Client_Close_def Client_allocMsgID_def Client_addPending_def Client_writeRequest_def WriteMVCPFrame_def io_Write_def
  NewClient_def new_Buffer_def after_write_def readLoop_def readErr_def routeFrame_def deliver_frame_def pendingCall_send_def
  forward_def forwardOut_def closeOut_def Client_receive_def after_receive_def call_cleanup_def Client_removePending_def
  pendingCall_finish_def newPendingCall_def stream_frame_def the_sel_def pcall_def pupd_def rlog_def watch_def
  Client_shutdown_def closeConn_def Let_def

lemma demo_answered:
  "\<exists>c ts. rrun (demo_ping @ demo_answer (demo_frame TypePONG FlagResponse [7])) (demo_client, []) = Some (c, ts)
     \<and> c_log c = [Rv_Call 0 (Inr \<lparr>rs_Type = TypePONG, rs_Body = [7]\<rparr>)] \<and> length (c_heap c) = 1 \<and> \<not> c_panic c"
  by (simp add: rrun_defs)

text \<open>A stream that ends as it should: its only frame is the final one, and the application has read it.\<close>

definition demo_streamed :: "rsched list" where
  "demo_streamed =
     [Do_Start, Go 0 J_None, Go 0 J_None, Do_Stream TypeEXEC 0 [], Go 3 J_None, Go 3 J_None, Go 3 J_None, Go 3 J_None,
      Go 1 J_None, Go 1 (J_Frame (Inr (demo_frame TypeEXECRESULT FlagResponse [7]))), Go 1 J_None, Go 1 (J_Sel Sel_In),
      Go 4 (J_Sel Sel_In), Go 4 (J_Sel Sel_Out), Go 4 J_None, Go 6 (J_Sel Sel_Out)]"

lemma demo_streamed_run:
  "\<exists>c ts. rrun demo_streamed (demo_client, []) = Some (c, ts) \<and> length (c_heap c) = 1 \<and> \<not> pc_done (pcall c 0)
     \<and> pc_outClosed (pcall c 0) \<and> pc_out (pcall c 0) = []
     \<and> pc_routed (pcall c 0) = [demo_frame TypeEXECRESULT FlagResponse [7]]"
  by (simp add: demo_streamed_def rrun_defs)

lemma demo_rpc_reachable: "rrun ds (demo_client, []) = Some x \<Longrightarrow> rpc_reachable x"
  by (erule rrun_reachable) (rule rpc_reachable.start)

section \<open>The connection ends\<close>

text \<open>The read loop gets EOF while the call waits.\<close>

definition demo_eof :: "rsched list" where
  "demo_eof = [Go 1 (J_Frame (Inl EOF)), Go 1 J_None, Go 1 J_None]"

lemma demo_eof_run:
  "\<exists>c. rrun (demo_ping @ demo_eof) (demo_client, []) =
         Some (c, [[], [R_WgWait, R_WgDone], [R_CtxWait], [R_Receive 0 1 True], [R_Forward 0]])
     \<and> c_closed c \<and> c_closer c \<and> length (c_heap c) = 1 \<and> pc_inbox (c_heap c ! 0) = []"
  by (simp add: demo_eof_def rrun_defs)

section \<open>Two runs with an unwanted end\<close>

text \<open>A chunk of a stream comes in as the first frame of a call.\<close>

lemma demo_chunk_run:
  "\<exists>c ts. rrun (demo_ping @ demo_answer (demo_frame TypeEXECSTREAM FlagStreamMore [7])) (demo_client, []) = Some (c, ts)
     \<and> c_log c = [Rv_Call 0 (Inr \<lparr>rs_Type = TypeEXECSTREAM, rs_Body = [7]\<rparr>)]
     \<and> pc_routed (pcall c 0) = [demo_frame TypeEXECSTREAM FlagStreamMore [7]]"
  by (simp add: rrun_defs)

text \<open>
  The final frame of a stream is in the inbox when the connection ends; the goroutine of \<^verbatim>\<open>Stream\<close>
  abandons the call, and the forwarder takes that case of its \<^verbatim>\<open>select\<close>.
\<close>

definition demo_stream :: "rsched list" where
  "demo_stream =
     [Do_Start, Go 0 J_None, Go 0 J_None, Do_Stream TypeEXEC 0 [], Go 3 J_None, Go 3 J_None, Go 3 J_None, Go 3 J_None,
      Go 1 J_None, Go 1 (J_Frame (Inr (demo_frame TypeEXECRESULT FlagResponse [7]))), Go 1 J_None, Go 1 (J_Sel Sel_In),
      Go 1 J_None, Go 1 J_None, Go 1 (J_Frame (Inl EOF)), Go 1 J_None, Go 1 J_None,
      Go 5 (J_Sel Sel_CloseCh), Go 5 J_None, Go 4 (J_Sel Sel_Done), Go 4 J_None, Go 6 (J_Sel Sel_Out)]"

lemma demo_stream_run:
  "\<exists>c ts. rrun demo_stream (demo_client, []) = Some (c, ts)
     \<and> c_log c = [Rv_Stream 0 None, Rv_Recv 0 None]
     \<and> pc_routed (pcall c 0) = [demo_frame TypeEXECRESULT FlagResponse [7]] \<and> pc_got (pcall c 0) = []"
  by (simp add: demo_stream_def rrun_defs)

end
