(* ===== verification/RPC_Properties.thy ===== *)
theory RPC_Properties
  imports RPC_Answers RPC_IDs RPC_Run
begin

text \<open>
  What the invariants say about every RPC client, under every interleaving of its goroutines and whatever the peer
  and the application do.
\<close>

section \<open>Delivery\<close>

lemma stream_frame_More: "sf_More (stream_frame f) = is_request f"
  by (simp add: stream_frame_def is_request_def)

lemma subseq_set: "subseq xs ys \<Longrightarrow> set xs \<subseteq> set ys"
  by (induction rule: list_emb.induct) auto

lemma only_last:
  assumes "xs @ ys = map g zs" and "xs \<noteq> []" and "\<not> P (last xs)" and "\<forall>z \<in> set (butlast zs). P (g z)"
  shows "ys = []"
proof (rule ccontr)
  assume "ys \<noteq> []"
  then have "last xs \<in> set (butlast (xs @ ys))"
    using assms(2) by (simp add: butlast_append)
  then have "last xs \<in> g ` set (butlast zs)"
    using assms(1) by (simp add: map_butlast [symmetric])
  with assms(3,4) show False by auto
qed

text \<open>
  C7. Frames reach their call. The frames that the read loop found for a call carry the ID of its request,
  and only the last may be a response. The consumer gets them in the order of the connection, and
  none twice; as long as the call is not abandoned it gets them without a gap, and when its channel
  is closed and drained it has got all of them, up to the final response.
\<close>

theorem rpc_delivery:
  assumes "rpc_reachable (c, ts)" and "a < length (c_heap c)"
  shows "(\<forall>f \<in> set (pc_routed (pcall c a)). f_MsgID f = pc_id (pcall c a))
    \<and> (\<forall>f \<in> set (butlast (pc_routed (pcall c a))). f_Flags f AND FlagResponse = 0)
    \<and> subseq (pc_got (pcall c a)) (map stream_frame (pc_routed (pcall c a)))
    \<and> (\<not> pc_done (pcall c a) \<longrightarrow> prefix (pc_got (pcall c a)) (map stream_frame (pc_routed (pcall c a))))
    \<and> (\<not> pc_done (pcall c a) \<and> pc_outClosed (pcall c a) \<and> pc_out (pcall c a) = [] \<longrightarrow>
         pc_got (pcall c a) = map stream_frame (pc_routed (pcall c a))
         \<and> pc_routed (pcall c a) \<noteq> [] \<and> f_Flags (last (pc_routed (pcall c a))) AND FlagResponse \<noteq> 0)"
proof -
  let ?p = "pcall c a" and ?R = "map stream_frame (pc_routed (pcall c a))"
  have final: "final_ok c (pool ts) a"
    using final_ci.holds [OF assms(1)] assms(2) by (simp add: final_inv_def)
  have ended: "ended ?p (R_CloseOut a \<in># pool ts)"
    using ended_ci.holds [OF assms(1)] assms(2) by (simp add: ended_inv_def)
  obtain rest where rest: "agrees (pc_done ?p) (pc_got ?p @ pc_out ?p @ rest) ?R"
    using chain_ci.holds [OF assms(1)] assms(2) by (auto simp: chain_inv_def chain_def)
  have sub: "subseq (pc_got ?p) ?R"
    using rest by (auto simp: agrees_def dest: list_emb_appendD intro: subseq_order.order_trans)
  have pre: "prefix (pc_got ?p) ?R" if "\<not> pc_done ?p"
    using rest that by (simp add: agrees_def) (metis prefixI)
  have all: "pc_got ?p = ?R \<and> pc_routed ?p \<noteq> [] \<and> \<not> is_request (last (pc_routed ?p))"
    if "\<not> pc_done ?p" "pc_outClosed ?p" "pc_out ?p = []"
  proof -
    have last: "pc_got ?p \<noteq> []" "\<not> sf_More (last (pc_got ?p))" and eq: "pc_got ?p @ rest = ?R"
      using ended rest that by (auto simp: ended_def agrees_def)
    have "rest = []"
      using only_last [of _ _ _ _ sf_More, OF eq last] final by (simp add: final_ok_def Let_def stream_frame_More)
    with eq last show ?thesis
      by (auto simp: stream_frame_More last_map)
  qed
  show ?thesis
    using final sub pre all by (auto simp: final_ok_def Let_def is_request_def)
qed

theorem rpc_delivery_witness:
  "\<exists>c ts. rpc_reachable (c, ts) \<and> pc_got (pcall c 0) = [\<lparr>sf_Type = TypeEXECRESULT, sf_Body = [7], sf_More = False\<rparr>]"
proof -
  obtain c ts where run: "rrun demo_streamed (demo_client, []) = Some (c, ts)" and
    st: "length (c_heap c) = 1" "\<not> pc_done (pcall c 0)" "pc_outClosed (pcall c 0)" "pc_out (pcall c 0) = []"
      "pc_routed (pcall c 0) = [demo_frame TypeEXECRESULT FlagResponse [7]]"
    using demo_streamed_run by blast
  have r: "rpc_reachable (c, ts)"
    using run by (rule demo_rpc_reachable)
  have "0 < length (c_heap c)"
    using st(1) by simp
  from rpc_delivery [OF r this] st(2-) have "pc_got (pcall c 0) = map stream_frame [demo_frame TypeEXECRESULT FlagResponse [7]]"
    by simp
  with r show ?thesis
    by (auto simp: stream_frame_def demo_frame_def)
qed

text \<open>
  C17. What \<open>Call\<close> returns. A call that returns a response returns type and body of a frame which the read loop read with the
  ID of this call; it is the first frame of the call, or the second one if the first was STARTED,
  and the call has received nothing else.
\<close>

theorem call_response:
  assumes "rpc_reachable (c, ts)" and "Rv_Call a (Inr r) \<in> set (c_log c)"
  shows "\<exists>f \<in> set (pc_routed (pcall c a)). f_MsgID f = pc_id (pcall c a)
    \<and> r = \<lparr>rs_Type = f_Type f, rs_Body = f_Body f\<rparr>
    \<and> (pc_got (pcall c a) = [stream_frame f] \<and> f_Type f \<noteq> TypeSTARTED
       \<or> (\<exists>s. pc_got (pcall c a) = [s, stream_frame f] \<and> sf_Type s = TypeSTARTED))"
proof -
  have resp: "resp_inv c (pool ts)"
    using assms(1) by (rule resp_ci.holds)
  have log: "Inr r \<in> results a (c_log c)"
    using assms(2) by (simp add: results_def)
  then have a: "a < ncalls c"
    using resp by (cases "a < ncalls c") (simp_all add: resp_inv_def)
  then have "resp (pc_got (pcall c a)) (own a (pool ts)) (results a (c_log c))"
    using resp by (simp add: resp_inv_def)
  with log have "answers r (pc_got (pcall c a))"
    by (auto simp: resp_def)
  then obtain g where g: "r = \<lparr>rs_Type = sf_Type g, rs_Body = sf_Body g\<rparr>"
    "pc_got (pcall c a) = [g] \<and> sf_Type g \<noteq> TypeSTARTED \<or> (\<exists>s. pc_got (pcall c a) = [s, g] \<and> sf_Type s = TypeSTARTED)"
    unfolding answers_def by blast
  from g(2) have in_got: "g \<in> set (pc_got (pcall c a))"
    by (elim disjE exE conjE) simp_all
  obtain rest where "agrees (pc_done (pcall c a)) (pc_got (pcall c a) @ rest) (map stream_frame (pc_routed (pcall c a)))"
    using chain_ci.holds [OF assms(1)] a by (auto simp: chain_inv_def chain_def)
  then have "set (pc_got (pcall c a) @ rest) \<subseteq> set (map stream_frame (pc_routed (pcall c a)))"
    unfolding agrees_def by (intro subseq_set) blast
  then obtain f where f: "f \<in> set (pc_routed (pcall c a))" "g = stream_frame f"
    using in_got by auto
  moreover have "f_MsgID f = pc_id (pcall c a)"
    using final_ci.holds [OF assms(1)] a f(1) by (auto simp: final_inv_def final_ok_def Let_def)
  moreover have "sf_Type (stream_frame f) = f_Type f" "sf_Body (stream_frame f) = f_Body f"
    by (simp_all add: stream_frame_def)
  ultimately show ?thesis
    using g by (intro bexI [of _ f]) simp_all
qed

theorem call_response_witness:
  "\<exists>c. Rv_Call 0 (Inr \<lparr>rs_Type = TypePONG, rs_Body = [7]\<rparr>) \<in> set (c_log c)
    \<and> (\<exists>f \<in> set (pc_routed (pcall c 0)). f_Type f = TypePONG \<and> f_Body f = [7])"
proof -
  obtain c ts where run: "rrun (demo_ping @ demo_answer (demo_frame TypePONG FlagResponse [7])) (demo_client, []) = Some (c, ts)"
    and log: "Rv_Call 0 (Inr \<lparr>rs_Type = TypePONG, rs_Body = [7]\<rparr>) \<in> set (c_log c)"
    using demo_answered by fastforce
  from call_response [OF demo_rpc_reachable [OF run] log]
  have "\<exists>f \<in> set (pc_routed (pcall c 0)). f_Type f = TypePONG \<and> f_Body f = [7]"
    by auto
  with log show ?thesis by blast
qed

text \<open>A call returns a chunk of a stream as its response.\<close>

lemma call_returns_chunk:
  "\<exists>c ts. rpc_reachable (c, ts) \<and> Rv_Call 0 (Inr \<lparr>rs_Type = TypeEXECSTREAM, rs_Body = [7]\<rparr>) \<in> set (c_log c)
    \<and> (\<forall>f \<in> set (pc_routed (pcall c 0)). f_Flags f = FlagStreamMore)"
proof -
  obtain c ts where "rrun (demo_ping @ demo_answer (demo_frame TypeEXECSTREAM FlagStreamMore [7])) (demo_client, []) = Some (c, ts)"
    "c_log c = [Rv_Call 0 (Inr \<lparr>rs_Type = TypeEXECSTREAM, rs_Body = [7]\<rparr>)]"
    "pc_routed (pcall c 0) = [demo_frame TypeEXECSTREAM FlagStreamMore [7]]"
    using demo_chunk_run by blast
  then show ?thesis
    using demo_rpc_reachable by (intro exI [of _ c] exI [of _ ts]) (auto simp: demo_frame_def)
qed

text \<open>
  The consumer of a stream that nobody cancelled finds the channel closed although the final frame was read from the
  connection and accepted by the inbox.
\<close>

lemma final_frame_lost:
  "\<exists>c ts. rpc_reachable (c, ts) \<and> c_log c = [Rv_Stream 0 None, Rv_Recv 0 None]
    \<and> (\<exists>f. pc_routed (pcall c 0) = [f] \<and> f_Flags f = FlagResponse) \<and> pc_got (pcall c 0) = []"
proof -
  obtain c ts where "rrun demo_stream (demo_client, []) = Some (c, ts)" "c_log c = [Rv_Stream 0 None, Rv_Recv 0 None]"
    "pc_routed (pcall c 0) = [demo_frame TypeEXECRESULT FlagResponse [7]]" "pc_got (pcall c 0) = []"
    using demo_stream_run by blast
  then show ?thesis
    using demo_rpc_reachable by (intro exI [of _ c] exI [of _ ts]) (auto simp: demo_frame_def)
qed

section \<open>Message IDs\<close>

text \<open>
  C24. Message IDs. Under every interleaving, the IDs that \<open>allocMsgID\<close> returned to the callers of \<open>Call\<close>
  and \<open>Stream\<close> (those of the calls in the heap, and of the callers about to enter their call) are the first \<open>n\<close> of the
  sequence 1, 2, \<open>\<dots>\<close>, \<open>2^32 - 1\<close>, 1, 2, \<open>\<dots>\<close>, each taken once, and the next call of \<open>allocMsgID\<close> returns the next one. So no call has the
  ID 0; as long as fewer than \<open>2^32\<close> IDs were handed out no two calls share an ID; and a request
  that is about to be written carries the ID of its call.
\<close>

theorem msgID_sequence:
  assumes "rpc_reachable (c, ts)"
  shows "call_ids c (pool ts) = mset (map msgID_at [0..<size (call_ids c (pool ts))])
    \<and> fst (Client_allocMsgID c) = msgID_at (size (call_ids c (pool ts)))
    \<and> (\<forall>i. unat (msgID_at i) = Suc (i mod (2 ^ 32 - 1)))
    \<and> (\<forall>p \<in> set (c_heap c). pc_id p \<noteq> 0)
    \<and> (size (call_ids c (pool ts)) < 2 ^ 32 \<longrightarrow> distinct (map pc_id (c_heap c)))
    \<and> (\<forall>k a msgID t f b. R_WriteRequest k a msgID t f b \<in># pool ts \<longrightarrow> pc_id (pcall c a) = msgID)"
proof -
  have inv: "ids_inv c (pool ts)"
    using assms by (rule ids_ci.holds)
  then obtain n where n: "c_msgID c = last_msgID n" "call_ids c (pool ts) = mset (map msgID_at [0..<n])"
    by (auto simp: ids_inv_def)
  then have size: "size (call_ids c (pool ts)) = n" by simp
  have heap: "mset (map pc_id (c_heap c)) \<subseteq># mset (map msgID_at [0..<n])"
    unfolding n(2) [symmetric] call_ids_def by simp
  then have "pc_id p \<noteq> 0" if "p \<in> set (c_heap c)" for p
    using that msgID_at_nonzero by (force dest!: set_mset_mono)
  moreover have "distinct (map pc_id (c_heap c))" if "n < 2 ^ 32"
    using heap distinct_msgID_at [OF that] by (rule distinct_mset_sub)
  moreover have "pc_id (pcall c a) = msgID" if "R_WriteRequest k a msgID t f b \<in># pool ts" for k a msgID t f b
    using inv that by (force simp: ids_inv_def)
  ultimately show ?thesis
    unfolding size using n by (simp add: alloc_after [OF n(1)] unat_msgID_at)
qed

theorem msgID_sequence_witness:
  "\<exists>c ts. rrun (demo_ping @ [Do_Call TypePING 0 [], Go 5 J_None]) (demo_client, []) = Some (c, ts)
    \<and> fst (Client_allocMsgID c) = msgID_at 2 \<and> unat (msgID_at 2) = 3 \<and> distinct (map pc_id (c_heap c))"
proof -
  obtain c ts where run: "rrun (demo_ping @ [Do_Call TypePING 0 [], Go 5 J_None]) (demo_client, []) = Some (c, ts)"
    "size (call_ids c (pool ts)) = 2"
    by (simp add: rrun_defs call_ids_def)
  from msgID_sequence [OF demo_rpc_reachable [OF run(1)]] run show ?thesis
    by (intro exI [of _ c] exI [of _ ts]) auto
qed

section \<open>Panics\<close>

text \<open>
  C23. A client on a connection that can be closed never panics: no channel is closed twice or written after it is
  closed, and the counter of the wait group is the number of
  read loops that have not returned.
\<close>

theorem client_never_panics:
  assumes "rpc_reachable (c, ts)" and "c_closer c"
  shows "\<not> c_panic c \<and> c_wg c = count (pool ts) R_WgDone"
  using calm_ci.holds [OF assms(1)] base_ci.holds [OF assms(1)] assms(2) by (simp add: calm_inv_def base_inv_def)

theorem client_never_panics_witness:
  "\<exists>c ts. rrun (demo_ping @ demo_eof) (demo_client, []) = Some (c, ts) \<and> c_closed c \<and> \<not> c_panic c"
proof -
  obtain c ts where run: "rrun (demo_ping @ demo_eof) (demo_client, []) = Some (c, ts)" and c: "c_closed c" "c_closer c"
    using demo_eof_run by blast
  from client_never_panics [OF demo_rpc_reachable [OF run] c(2)] run c(1) show ?thesis by blast
qed

end
