(* ===== verification/RPC_Shutdown.thy ===== *)
theory RPC_Shutdown
  imports RPC_Answers RPC_Run
begin

text \<open>
  What happens when an RPC client shuts down: which goroutines can go on, that all of them together do only finitely
  much, and which one waits for itself.
\<close>

section \<open>Who can go on\<close>

lemma hold_enabled:
  assumes "hold_of x = Some a" and "c_closeCh c"
  shows "\<exists>inp. rexec inp x c \<noteq> None"
proof -
  have "rexec (J_Sel Sel_CloseCh) x c \<noteq> None"
    using assms by (cases x) (auto simp: Client_receive_def watch_def the_sel_def split: prod.split)
  then show ?thesis by blast
qed

text \<open>Of the sections that do not belong to the application, these wait for others.\<close>

lemma rexec_enabled:
  assumes "c_closeCh c"
  shows "(\<exists>inp. rexec inp act c \<noteq> None) \<or> act = R_WgWait \<or> (\<exists>a. act = R_App a)
    \<or> (\<exists>a f. (act = R_Send a f \<or> act = R_Forward a \<or> (\<exists>g. act = R_ForwardOut a g)) \<and> \<not> pc_done (pcall c a))"
proof (cases act)
  case R_CtxWait
  then have "rexec (J_Sel (Sel_Ctx EOF)) act c \<noteq> None" by simp
  then show ?thesis by blast
next
  case R_ReadFrame
  then have "rexec (J_Frame (Inl EOF)) act c \<noteq> None" by simp
  then show ?thesis by blast
next
  case (R_Send a f)
  then have "pc_done (pcall c a) \<Longrightarrow> rexec (J_Sel Sel_Done) act c \<noteq> None"
    by (simp add: the_sel_def deliver_frame_def pendingCall_send_def)
  with R_Send show ?thesis by blast
next
  case (R_Forward a)
  then have "pc_done (pcall c a) \<Longrightarrow> rexec (J_Sel Sel_Done) act c \<noteq> None"
    by (simp add: the_sel_def forward_def)
  with R_Forward show ?thesis by blast
next
  case (R_ForwardOut a f)
  then have "pc_done (pcall c a) \<Longrightarrow> rexec (J_Sel Sel_Done) act c \<noteq> None"
    by (simp add: the_sel_def forwardOut_def)
  with R_ForwardOut show ?thesis by blast
next
  case (R_Receive a m first)
  with hold_enabled [of act a c] assms show ?thesis by simp
next
  case (R_Watch a m)
  with hold_enabled [of act a c] assms show ?thesis by simp
qed (simp_all split: prod.split)

text \<open>
  C21. No goroutine of a closed client is stuck behind a slow consumer. In a closed client the next section of every goroutine
  can run, with some input where it waits for one from outside, unless it is a wait for the
  read loop, the application reading a stream, or a section of a call that is not
  abandoned yet; and then the goroutine that owns the call has a section pending that can run.
\<close>

theorem closed_client_progress:
  assumes "rpc_reachable (c, ts)" and "c_closed c" and "i < length ts" and "ts ! i = act # rest"
  shows "(\<exists>inp. rexec inp act c \<noteq> None) \<or> act = R_WgWait \<or> (\<exists>a. act = R_App a)
    \<or> (\<exists>a x. (\<exists>f. act = R_Send a f \<or> act = R_Forward a \<or> (\<exists>g. act = R_ForwardOut a g))
         \<and> \<not> pc_done (pcall c a) \<and> x \<in># pool ts \<and> hold_of x = Some a \<and> (\<exists>inp. rexec inp x c \<noteq> None))"
proof -
  have base: "base_inv c (pool ts)" and held: "held_inv c (pool ts)"
    using base_ci.holds [OF assms(1)] held_ci.holds [OF assms(1)] by blast+
  have ch: "c_closeCh c"
    using base assms(2) by (simp add: base_inv_def calls_ok_def)
  have act: "act \<in># pool ts"
    using assms(3,4) by (rule pool_nth)
  consider (easy) "(\<exists>inp. rexec inp act c \<noteq> None) \<or> act = R_WgWait \<or> (\<exists>a. act = R_App a)"
    | (blocked) a f where "act = R_Send a f \<or> act = R_Forward a \<or> (\<exists>g. act = R_ForwardOut a g)" "\<not> pc_done (pcall c a)"
    using rexec_enabled [OF ch, of act] by blast
  then show ?thesis
  proof cases
    case (blocked a f)
    then have "raddr act = Some a" by auto
    then have "a < ncalls c"
      using base act by (auto simp: base_inv_def raddr_ok_def)
    then have "0 < cnt hold_of a (pool ts)"
      using held blocked(2) by (simp add: held_inv_def)
    then obtain x where "x \<in># pool ts" "hold_of x = Some a"
      using cnt_zero [of hold_of a "pool ts"] by auto
    with blocked hold_enabled [OF _ ch] show ?thesis by blast
  qed blast
qed

theorem closed_client_progress_witness:
  "\<exists>c. c_closed c \<and> (\<exists>inp. rexec inp (R_Receive 0 1 True) c \<noteq> None)"
proof -
  let ?ts = "[[], [R_WgWait, R_WgDone], [R_CtxWait], [R_Receive 0 1 True], [R_Forward 0]]"
  obtain c where run: "rrun (demo_ping @ demo_eof) (demo_client, []) = Some (c, ?ts)" and c: "c_closed c"
    using demo_eof_run by blast
  have "3 < length ?ts" "?ts ! 3 = R_Receive 0 1 True # []"
    by simp_all
  from closed_client_progress [OF demo_rpc_reachable [OF run] c this]
  have "\<exists>inp. rexec inp (R_Receive 0 1 True) c \<noteq> None"
    by (simp del: rexec.simps)
  with c show ?thesis by blast
qed

section \<open>A bound on the work left\<close>

fun rank :: "rpc_action \<Rightarrow> nat" where
  "rank R_Start = 9"
| "rank R_Spawn = 8"
| "rank R_CtxWait = 2"
| "rank R_ReadLoop = 4"
| "rank R_ReadFrame = 3"
| "rank (R_ReadErr e) = 2"
| "rank (R_Send a f) = 10"
| "rank (R_Unroute m) = 5"
| "rank (R_Forward a) = 2"
| "rank (R_ForwardOut a f) = 5"
| "rank (R_Alloc k t f b) = 10"
| "rank (R_AddPending k m t f b) = 9"
| "rank (R_WriteRequest k a m t f b) = 6"
| "rank (R_Receive a m first) = (if first then 5 else 4)"
| "rank (R_Watch a m) = 3"
| "rank (R_App a) = 0"
| "rank _ = 1"

definition queued :: "Client \<Rightarrow> nat" where
  "queued c = (\<Sum>p \<leftarrow> c_heap c. length (pc_inbox p))"

definition work :: "Client \<Rightarrow> rpc_action multiset \<Rightarrow> nat" where
  "work c P = (\<Sum>x \<in># P. rank x) + 4 * queued c"

lemma work_simps [simp]:
  "work c (add_mset x P) = rank x + work c P" "work c (P + Q) = work c P + (\<Sum>x \<in># Q. rank x)"
  by (simp_all add: work_def)

lemma queued_simps [simp]:
  "queued (rlog e c) = queued c" "queued (c\<lparr>c_wr := w\<rparr>) = queued c" "queued (c\<lparr>c_msgID := i\<rparr>) = queued c"
  "queued (c\<lparr>c_pending := m\<rparr>) = queued c" "queued (c\<lparr>c_cancel := b\<rparr>) = queued c" "queued (c\<lparr>c_wg := n\<rparr>) = queued c"
  "queued (c\<lparr>c_panic := b\<rparr>) = queued c" "queued (c\<lparr>c_heap := c_heap c @ [newPendingCall j]\<rparr>) = queued c"
  by (simp_all add: queued_def)

lemma queued_pupd:
  assumes "a < ncalls c"
  shows "queued (pupd a f c) + length (pc_inbox (pcall c a)) = queued c + length (pc_inbox (f (pcall c a)))"
proof -
  define g :: "pendingCall \<Rightarrow> nat" where "g = (\<lambda>p. length (pc_inbox p))"
  have h: "c_heap c = take a (c_heap c) @ pcall c a # drop (Suc a) (c_heap c)"
    using assms unfolding pcall_def by (rule id_take_nth_drop)
  have "(\<Sum>p \<leftarrow> c_heap c. g p) = sum_list (map g (take a (c_heap c))) + g (pcall c a) + sum_list (map g (drop (Suc a) (c_heap c)))"
    by (subst h) simp
  moreover have "(\<Sum>p \<leftarrow> (c_heap c)[a := f (c_heap c ! a)]. g p) =
      sum_list (map g (take a (c_heap c))) + g (f (pcall c a)) + sum_list (map g (drop (Suc a) (c_heap c)))"
    using assms by (simp add: upd_conv_take_nth_drop pcall_def)
  ultimately show ?thesis
    by (simp add: queued_def pupd_def g_def)
qed

lemma queued_same:
  "a < ncalls c \<Longrightarrow> length (pc_inbox (f (pcall c a))) = length (pc_inbox (pcall c a)) \<Longrightarrow> queued (pupd a f c) = queued c"
  using queued_pupd [of a c f] by simp

lemma queued_put: "a < ncalls c \<Longrightarrow> queued (pupd a (\<lambda>p. p\<lparr>pc_inbox := pc_inbox p @ [f]\<rparr>) c) = Suc (queued c)"
  using queued_pupd [of a c "\<lambda>p. p\<lparr>pc_inbox := pc_inbox p @ [f]\<rparr>"] by simp

lemma queued_take:
  "a < ncalls c \<Longrightarrow> pc_inbox (pcall c a) = f # q \<Longrightarrow> queued c = Suc (queued (pupd a (\<lambda>p. p\<lparr>pc_inbox := q\<rparr>) c))"
  using queued_pupd [of a c "\<lambda>p. p\<lparr>pc_inbox := q\<rparr>"] by simp

lemma work_decreases:
  assumes ex: "rexec i act c = Some (c', k, new)" and base: "base_inv c (add_mset act P)" and closed: "c_closed c"
    and app: "\<forall>a. act \<noteq> R_App a"
  shows "c_closed c' \<and> work c' (P + mset k + pool new) < work c (add_mset act P)"
proof -
  have "c_closed c' \<and> (\<Sum>x \<in># mset k + pool new. rank x) + 4 * queued c' < rank act + 4 * queued c"
  proof (cases act)
    case (R_Send a f)
    with ex closed base_invD(3) [OF base, of a] show ?thesis
      by (auto simp: select_iffs queued_put split: if_splits)
  next
    case (R_Forward a)
    with ex closed base_invD(3) [OF base, of a] show ?thesis
      by (auto simp: select_iffs queued_take)
  next
    case (R_ForwardOut a f)
    with ex closed base_invD(3) [OF base, of a] show ?thesis
      by (cases "pc_outClosed (pcall c a)")
        (auto simp: select_iffs queued_same, auto simp: forwardOut_def split: sel.splits if_splits)
  next
    case (R_Receive a m first)
    with ex closed base_invD(3) [OF base, of a] show ?thesis
      by (auto simp: R_Receive_iff receive_iff after_receive_def call_cleanup_def queued_same simp del: rexec.simps)
  next
    case R_Shutdown
    with ex closed show ?thesis by (simp add: Client_shutdown_def)
  qed (use ex closed app base_invD(3) [OF base] in \<open>auto simp: rpc_defs queued_same split: rpc_splits\<close>)
  then show ?thesis
    by (auto simp: work_def)
qed

text \<open>A step of a goroutine of the client itself, and not of the application.\<close>

inductive own_step :: "rpc_conf \<Rightarrow> rpc_conf \<Rightarrow> bool" where
  "own_step (c, ts) (c', ts[i := k @ rest] @ new)"
    if "i < length ts" and "ts ! i = act # rest" and "rexec inp act c = Some (c', k, new)" and "\<forall>a. act \<noteq> R_App a"

lemma own_step_rstep: "own_step x y \<Longrightarrow> rstep x y"
  by (induction rule: own_step.induct) (rule rstep.run)

lemma own_step_work:
  assumes "own_step x y" and "rpc_reachable x" and "c_closed (fst x)"
  shows "c_closed (fst y) \<and> work (fst y) (pool (snd y)) < work (fst x) (pool (snd x))"
  using assms
proof (cases rule: own_step.cases)
  case (1 i ts act rest inp c c' k new)
  obtain P where P: "pool ts = add_mset act P" "pool (ts[i := k @ rest] @ new) = P + mset k + pool new"
    using pool_run [OF 1(3,4)] by blast
  have "base_inv c (add_mset act P)"
    using base_ci.holds [of c ts] assms(2) by (simp only: 1(1) P(1))
  from work_decreases [OF 1(5) this _ 1(6)] assms(3) show ?thesis
    by (simp only: 1(1,2) P fst_conv snd_conv)
qed

lemma own_steps_work:
  "(own_step ^^ n) x y \<Longrightarrow> rpc_reachable x \<Longrightarrow> c_closed (fst x) \<Longrightarrow>
    c_closed (fst y) \<and> n + work (fst y) (pool (snd y)) \<le> work (fst x) (pool (snd x))"
proof (induction n arbitrary: x)
  case (Suc n)
  then obtain z where z: "own_step x z" "(own_step ^^ n) z y"
    by (meson relpowp_Suc_D2)
  have "rpc_reachable z"
    using Suc.prems(2) own_step_rstep [OF z(1)] by (rule rpc_reachable.step)
  with Suc.IH [OF z(2)] own_step_work [OF z(1) Suc.prems(2,3)] show ?case by simp
qed simp

lemma rank_bound: "rank x \<le> 10"
  by (cases x rule: rank.cases) auto

text \<open>
  C18. A closed client comes to rest. From any configuration of a closed client, its goroutines make at most ten steps for every
  section that is pending and four for every frame that waits in an inbox, whatever the peer sends and in
  whatever order they run, as long as the application starts no new calls.
\<close>

theorem closed_client_terminates:
  assumes "rpc_reachable (c, ts)" and "c_closed c" and "(own_step ^^ n) (c, ts) y"
  shows "n \<le> 10 * length (concat ts) + 4 * (\<Sum>p \<leftarrow> c_heap c. length (pc_inbox p))"
proof -
  have "(\<Sum>x \<in># P. rank x) \<le> 10 * size P" for P
  proof (induction P)
    case (add x P)
    then show ?case using rank_bound [of x] by simp
  qed simp
  from this [of "pool ts"] have "(\<Sum>x \<in># pool ts. rank x) \<le> 10 * length (concat ts)"
    by (simp add: pool_def)
  moreover have "n \<le> work c (pool ts)"
    using own_steps_work [OF assms(3,1)] assms(2) by simp
  ultimately show ?thesis
    by (simp add: work_def queued_def)
qed

theorem closed_client_terminates_witness:
  "\<exists>c. c_closed c \<and> (\<forall>n y. (own_step ^^ n)
     (c, [[], [R_WgWait, R_WgDone], [R_CtxWait], [R_Receive 0 1 True], [R_Forward 0]]) y \<longrightarrow> n \<le> 50)"
proof -
  let ?ts = "[[], [R_WgWait, R_WgDone], [R_CtxWait], [R_Receive 0 1 True], [R_Forward 0]]"
  obtain c where run: "rrun (demo_ping @ demo_eof) (demo_client, []) = Some (c, ?ts)" and c: "c_closed c"
    "length (c_heap c) = 1" "pc_inbox (c_heap c ! 0) = []"
    using demo_eof_run by blast
  have q: "(\<Sum>p \<leftarrow> c_heap c. length (pc_inbox p)) = 0"
    using c(2,3) by (cases "c_heap c") auto
  have "n \<le> 50" if "(own_step ^^ n) (c, ?ts) y" for n y
    using closed_client_terminates [OF demo_rpc_reachable [OF run] c(1) that] unfolding q by simp
  with c(1) show ?thesis by blast
qed

section \<open>The read loop waits for itself\<close>

text \<open>
  C22. The read loop never returns after the connection failed. When it has shut the client down it waits for the wait
  group, whose counter it would lower itself on return: from then on it stays there, whatever
  happens in the client, and its section can never run.
\<close>

theorem readLoop_waits_for_itself:
  assumes "rpc_reachable x" and "i < length (snd x)" and "snd x ! i = [R_WgWait, R_WgDone]" and "rstep\<^sup>*\<^sup>* x y"
  shows "i < length (snd y) \<and> snd y ! i = [R_WgWait, R_WgDone] \<and> (\<forall>inp. rexec inp R_WgWait (fst y) = None)"
proof -
  have stuck: "0 < c_wg (fst z)" if "rpc_reachable z" "i < length (snd z)" "snd z ! i = [R_WgWait, R_WgDone]" for z
  proof -
    have "[R_WgWait, R_WgDone] \<in> set (snd z)"
      using that(2,3) by (metis nth_mem)
    then have "R_WgDone \<in># pool (snd z)"
      by (force simp: pool_def)
    then show ?thesis
      using base_ci.holds [of "fst z" "snd z"] that(1) by (simp add: base_inv_def count_greater_zero_iff)
  qed
  have "rpc_reachable y \<and> i < length (snd y) \<and> snd y ! i = [R_WgWait, R_WgDone]"
    using assms(4)
  proof (induction rule: rtranclp_induct)
    case base
    with assms(1-3) show ?case by simp
  next
    case (step u v)
    then have "rpc_reachable v"
      by (blast intro: rpc_reachable.step)
    moreover from step(2) have "i < length (snd v) \<and> snd v ! i = [R_WgWait, R_WgDone]"
    proof (cases rule: rstep.cases)
      case (run j ts act rest inp c c' k new)
      have "j \<noteq> i"
      proof
        assume "j = i"
        with run step(3) have "act = R_WgWait" "0 < c_wg c"
          using stuck [of u] by auto
        with run(5) show False by simp
      qed
      with run step(3) show ?thesis by (simp add: nth_append)
    qed (use step(3) in \<open>auto simp: nth_append\<close>)
    ultimately show ?case by blast
  qed
  with stuck [of y] show ?thesis by simp
qed

theorem readLoop_waits_for_itself_witness:
  "\<exists>c ts. rrun (demo_ping @ demo_eof) (demo_client, []) = Some (c, ts) \<and> c_closed c
    \<and> (\<forall>inp. rexec inp R_WgWait c = None)"
proof -
  let ?ts = "[[], [R_WgWait, R_WgDone], [R_CtxWait], [R_Receive 0 1 True], [R_Forward 0]]"
  obtain c where run: "rrun (demo_ping @ demo_eof) (demo_client, []) = Some (c, ?ts)" and c: "c_closed c"
    using demo_eof_run by blast
  have "1 < length (snd (c, ?ts))" "snd (c, ?ts) ! 1 = [R_WgWait, R_WgDone]" "rstep\<^sup>*\<^sup>* (c, ?ts) (c, ?ts)"
    by simp_all
  from readLoop_waits_for_itself [OF demo_rpc_reachable [OF run] this] run c show ?thesis
    by (intro exI [of _ c] exI [of _ ?ts]) simp
qed

end
