(* ===== verification/Spec2Isabelle.thy ===== *)
theory Spec2Isabelle
  imports VPP App_Properties App_Bridge RPC_Properties RPC_Shutdown
begin

text \<open>
  \<^bold>\<open>MVCP: a verification development.\<close>
  MVCP is the protocol between a host and the guests of its virtual machines. The Go
  code under \<^verbatim>\<open>src/protocol\<close> is modelled here as HOL functions that keep the names of the source (a method
  \<^verbatim>\<open>T.m\<close> is \<open>T_m\<close>), and as step relations where goroutines share state.

  \<^bold>\<open>Parts of the program, and the theories that model them.\<close>
  \<^item> \<open>Prelude\<close>, \<open>Go_IO\<close>: machine integers as words, Go strings and errors (one
    constructor of \<open>goerr\<close> per sentinel and per way of wrapping), Go maps, and \<^verbatim>\<open>io\<close> and \<^verbatim>\<open>bytes\<close>: a reader is what it will
    still deliver and the error it ends with, a writer is the log of its writes and the outcomes of those to come.
  \<^item> \<open>Wire\<close> (\<^verbatim>\<open>encode.go\<close>, \<^verbatim>\<open>decode.go\<close>): the primitives; \<open>Frame\<close> (\<^verbatim>\<open>frame.go\<close>, \<^verbatim>\<open>mvcp.go\<close>): the constants, the
    transport frame and the MVCP frame.
  \<^item> \<open>Capabilities\<close>, \<open>Hello\<close>, \<open>Handshake\<close> (\<^verbatim>\<open>capabilities.go\<close>, \<^verbatim>\<open>hello.go\<close>,
    \<^verbatim>\<open>handshake.go\<close>, \<^verbatim>\<open>conn.go\<close>): negotiation, the HELLO message, and both sides of the
    handshake on connections that may fail at any read, write or \<^verbatim>\<open>SetDeadline\<close>.
  \<^item> \<open>Message\<close>, \<open>Messages_App\<close>, \<open>Messages_Control\<close>, \<open>Messages_Events\<close>, \<open>Messages_Exec\<close>, \<open>Messages_File\<close>,
    \<open>Messages_Status\<close>, \<open>Messages_Tools\<close> (\<^verbatim>\<open>messages/*.go\<close>) and \<open>Registry\<close>
    (\<^verbatim>\<open>message.go\<close> and the \<^verbatim>\<open>init\<close> functions): every message with \<^verbatim>\<open>MarshalBinary\<close>, \<^verbatim>\<open>UnmarshalBinary\<close>
    and the decoder it registers, and the table of decoders.
  \<^item> \<open>VPP\<close> (\<^verbatim>\<open>vpp/*.go\<close>): the console protocol.
  \<^item> \<open>App_State\<close>, \<open>App_Stream\<close>, \<open>App_Session\<close>, \<open>App_Bridge\<close> (\<^verbatim>\<open>app/*.go\<close>): byte streams
    multiplexed over one connection with flow control. \<open>Session\<close> and \<open>Stream\<close> are the structs, the streams
    live in a heap (\<open>s_heap\<close>), and the table \<open>s_streams\<close> maps IDs to addresses.
  \<^item> \<open>RPC_Server\<close>, \<open>RPC_Client\<close> (\<^verbatim>\<open>rpc/*.go\<close>): requests and answers over one connection. \<open>Client\<close> is the struct,
    its calls live in a heap (\<open>c_heap\<close>) with their two buffered channels.

  The parts stack: messages are bodies of frames, the handshake exchanges HELLO and ERROR frames, and the app channel and the RPC
  layer run on a connection after it.

  \<^bold>\<open>Concurrency.\<close>
  In the app channel and the RPC client a goroutine is the list of the sections it still has to run. A section is what runs without
  interruption: a critical section under one lock, one operation on a channel, on the
  connection or on the wait group (\<open>action\<close> with \<open>exec\<close>, \<open>rpc_action\<close> with \<open>rexec\<close>). A step (\<open>step\<close>,
  \<open>rstep\<close>) lets any goroutine run its next section, or the application make a call; what comes from outside (a frame or an
  error from the connection, the result of a handler, the case a \<^verbatim>\<open>select\<close> takes, the end of a context) is an
  input of the section, so that statements about all reachable configurations hold for every scheduling, every peer and every application.
  A blocked section is one that cannot run (\<open>None\<close>). Waiting on a condition variable is a section that can run only after a
  broadcast that came after the wait began (\<open>st_epoch\<close>, \<open>condWait\<close>). \<open>Goroutines\<close> holds what both share.

  \<^bold>\<open>What is shown.\<close>
  \<^item> \<^emph>\<open>Codecs.\<close> The locales \<open>codec\<close>, \<open>exact_codec\<close> and the message locales of \<open>Message\<close>, interpreted on every pair of
    encoder and decoder: decoding inverts encoding, exact decoders accept nothing else, truncated frames are refused, and frames of
    concurrent writers, whose \<^verbatim>\<open>Write\<close> calls interleave in any way (\<open>interleaving\<close>), stay whole.
    \<open>registry_roundtrip\<close> lifts the round trips to all registered messages but EXEC, \<open>registry_types\<close> covers all.
  \<^item> \<^emph>\<open>Handshake.\<close> Two peers that accept each other's role and whose requirements hold agree on the same capabilities; success implies that every requirement
    was negotiated; rejections are reported; no deadline stays armed.
  \<^item> \<^emph>\<open>App channel.\<close> The locales \<open>session_invariant\<close> and \<open>stream_invariant\<close> (\<open>App_Invariant\<close>) lift preservation by one section
    to all reachable configurations. \<open>App_Lifecycle\<close>, \<open>App_Observer\<close>, \<open>App_Flow\<close> and \<open>App_Teardown\<close> interpret them: the stream table, who holds a stream,
    the observer's callbacks, counters and the buffer ledger, and the end of a session. \<open>App_Queue\<close> shows that the chunked queues refine a
    queue of bytes (locale \<open>byte_queue\<close>). \<open>App_Properties\<close> states the results.
  \<^item> \<^emph>\<open>RPC.\<close> The locale \<open>client_invariant\<close> (\<open>RPC_Invariant\<close>) does the same for the client: \<open>RPC_Delivery\<close> follows the frames
    of a call from the read loop to its consumer, \<open>RPC_IDs\<close> the message IDs from their allocation to the calls, \<open>RPC_Calls\<close> and \<open>RPC_Answers\<close> say when a channel is closed, what \<^verbatim>\<open>Call\<close>
    returns and who abandons a call, \<open>RPC_Shutdown\<close> what is left to do after a shutdown; \<open>RPC_Properties\<close> states the results. The
    serve loop is compared with a specification by filters over the frames it reads.
  \<^item> \<^emph>\<open>Unwanted behaviour.\<close> Some theorems exhibit runs in which the code does what it does not mean to: \<open>close_blocks_after_clean_end\<close>,
    \<open>close_overtakes_data\<close>, \<open>addCredit_wraps\<close>, \<open>readLoop_waits_for_itself\<close>, \<open>final_frame_lost\<close>, \<open>call_returns_chunk\<close>, \<open>heartbeat_decoder_drops_fields\<close>.

  \<^bold>\<open>Bounds.\<close>
  There is no fuel: every loop of the code is a structural recursion, a function with a termination proof
  (\<open>Server_Serve\<close>, \<open>strip\<close>, \<open>clean_loop\<close>: the input gets shorter), or a sequence of steps. Integers have the width of the source; lengths
  of slices are natural numbers, converted where the source converts them, and a slice given to \<^verbatim>\<open>Write\<close> is shorter
  than \<open>2^63\<close>, as in Go. The counters of wait groups and of broadcasts are natural numbers.

  \<^bold>\<open>Runs.\<close> \<open>App_Run\<close> and \<open>RPC_Run\<close> execute schedules on the models; the witnesses of the theorems are such runs.

  \<^bold>\<open>Not modelled.\<close>
  \<^item> \<^verbatim>\<open>encoding/json\<close>, which encodes and decodes the body of EXEC (\<^verbatim>\<open>ExecCmd\<close>): it is a parameter of the two functions that
    use it. The round trip of the registry is stated for all other messages; what is shown about EXEC is its type,
    its validation and \<^verbatim>\<open>HasSpec\<close>.
  \<^item> Application code: handlers of the app channel and of the RPC server, and the observer. What they return is an input,
    what they call is any call of the interface. The observer is called while \<^verbatim>\<open>lifeMu\<close> is held; an observer that
    blocks there is not modelled.
  \<^item> Partial writes: a \<^verbatim>\<open>Write\<close> takes all its bytes, or fails and takes none.
  \<^item> Logging, and the text of \<^verbatim>\<open>%q\<close> escapes.
  \<^item> Data races. A section is atomic because the code holds a lock or uses one channel operation; \<^verbatim>\<open>Client.shutdown\<close> is one section because what
    it does under its lock commutes with what others can do at the same time.
  \<^item> Copying shortcuts of \<^verbatim>\<open>io.Copy\<close> that an endpoint may offer (\<^verbatim>\<open>WriterTo\<close>, \<^verbatim>\<open>ReaderFrom\<close>).
\<close>

section \<open>RPC: from the server's answer to the client's call\<close>

text \<open>What a frame that the server writes becomes in the client's read loop.\<close>

lemma reply_read:
  assumes "length (f_Body f) + frameHeaderSize \<le> MaxFrameSize"
  shows "ReadMVCPFrame (Reader (wr_bytes (snd (WriteMVCPFrame f new_Buffer))) e) = Inr (f, Reader [] e)"
proof -
  have "wr_bytes (snd (WriteMVCPFrame f new_Buffer)) = EncodeMVCPFrame f"
    by (rule emits_bytes_eq) (rule emits_frame)
  then show ?thesis
    using assms mvcpf.dec_enc_end [of f e] by (simp add: wf_frame_def)
qed

lemma error_read:
  assumes "length message < 65536"
  shows "ReadMVCPFrame (Reader (wr_bytes (snd (Request_Error r code message new_Buffer))) e) =
    Inr (\<lparr>f_Type = TypeERROR, f_Flags = FlagResponse, f_MsgID = rq_MsgID r,
          f_Body = layout_ErrorMsg \<lparr>er_Code = code, er_Message = message\<rparr>\<rparr>, Reader [] e)"
proof -
  let ?f = "\<lparr>f_Type = TypeERROR, f_Flags = FlagResponse, f_MsgID = rq_MsgID r,
    f_Body = layout_ErrorMsg \<lparr>er_Code = code, er_Message = message\<rparr>\<rparr>"
  have "wf_frame ?f"
    using assms by (simp add: wf_frame_def layout_ErrorMsg_def)
  then show ?thesis
    using emits_bytes_eq [OF emits_error [of r code message]] mvcpf.dec_enc_end [of ?f e] by (simp add: layout_ErrorMsg_def)
qed

text \<open>
  C20. Answers reach the call they belong to. What a handler writes as an answer to a request is read by the client as one
  frame with the ID of the request: a chunk and STARTED as frames with more to follow, a
  response, the end of a stream and an error as the final frame; the body of an error decodes to the
  code and the message, and that of STARTED to the flag.
\<close>

theorem rpc_reply_roundtrip:
  assumes "length body + frameHeaderSize \<le> MaxFrameSize" and "length message < 65536"
  defines "sent \<equiv> \<lambda>op. ReadMVCPFrame (Reader (wr_bytes (snd (op new_Buffer))) EOF)"
  shows "\<exists>fr fs fe fx fa.
      sent (Request_Respond r t body) = Inr (fr, Reader [] EOF) \<and> stream_frame fr = \<lparr>sf_Type = t, sf_Body = body, sf_More = False\<rparr>
    \<and> sent (Request_Stream r t body) = Inr (fs, Reader [] EOF) \<and> stream_frame fs = \<lparr>sf_Type = t, sf_Body = body, sf_More = True\<rparr>
    \<and> sent (Request_StreamEnd r t body) = Inr (fe, Reader [] EOF) \<and> stream_frame fe = \<lparr>sf_Type = t, sf_Body = body, sf_More = False\<rparr>
    \<and> sent (Request_Error r code message) = Inr (fx, Reader [] EOF) \<and> sf_Type (stream_frame fx) = TypeERROR \<and> \<not> sf_More (stream_frame fx)
    \<and> ErrorMsg_UnmarshalBinary (sf_Body (stream_frame fx)) = Inr \<lparr>er_Code = code, er_Message = message\<rparr>
    \<and> sent (Request_Started r b) = Inr (fa, Reader [] EOF) \<and> sf_Type (stream_frame fa) = TypeSTARTED \<and> sf_More (stream_frame fa)
    \<and> StartedMsg_UnmarshalBinary (sf_Body (stream_frame fa)) = Inr \<lparr>st_Stream = b\<rparr>
    \<and> (\<forall>f \<in> {fr, fs, fe, fx, fa}. f_MsgID f = rq_MsgID r)"
proof -
  have started: "EncodeStarted b = layout_StartedMsg \<lparr>st_Stream = b\<rparr>"
    unfolding EncodeStarted_def layout_StartedMsg_def by (simp add: emits_bytes_eq [OF emits_bool])
  have err: "ErrorMsg_UnmarshalBinary (layout_ErrorMsg \<lparr>er_Code = code, er_Message = message\<rparr>)
      = Inr \<lparr>er_Code = code, er_Message = message\<rparr>"
    using assms(2) by (intro errorMsg.unmarshal) (simp add: fits_ErrorMsg_def fits16_def)
  have start: "StartedMsg_UnmarshalBinary (layout_StartedMsg \<lparr>st_Stream = b\<rparr>) = Inr \<lparr>st_Stream = b\<rparr>"
    by (intro startedMsg.unmarshal) (simp add: fits_StartedMsg_def)
  have "length (EncodeStarted b) + frameHeaderSize \<le> MaxFrameSize"
    by (simp add: started layout_StartedMsg_def)
  then show ?thesis
    using assms(1) error_read [OF assms(2), of r code EOF] err start
    by (simp add: sent_def Request_Respond_def Request_Stream_def Request_StreamEnd_def Request_Started_def reply_read
        stream_frame_def started)
qed

theorem rpc_reply_roundtrip_witness:
  "\<exists>f. ReadMVCPFrame (Reader (wr_bytes (snd (Request_Respond
      \<lparr>rq_Type = TypePING, rq_MsgID = 3, rq_Flags = 0, rq_Body = []\<rparr> TypePONG [7] new_Buffer))) EOF) = Inr (f, Reader [] EOF)
    \<and> f_MsgID f = 3 \<and> stream_frame f = \<lparr>sf_Type = TypePONG, sf_Body = [7], sf_More = False\<rparr>"
  using rpc_reply_roundtrip [of "[7]" "[]" "\<lparr>rq_Type = TypePING, rq_MsgID = 3, rq_Flags = 0, rq_Body = []\<rparr>" TypePONG 0 False]
  by auto

end
